(* ===== verification/B2_Prelude.thy ===== *)
theory B2_Prelude
  imports Main "HOL-Library.Word" "HOL-Library.Signed_Division"
begin

text \<open>
  Shared vocabulary of the development.

  Every C++ function of the program that can fail returns a value of type \<open>'a res\<close>: \<open>Inr\<close> of
  its result, or \<open>Inl\<close> of the way it failed.  Three ways are kept apart: a C++ exception
  (\<open>Throws\<close>), undefined behaviour of the C++ abstract machine (\<open>Undefined\<close>: a null pointer
  is dereferenced, a pointer is cast to the wrong class, a signed operation overflows, an
  iterator is moved before the first element of its list, a buffer is written outside its
  bounds, an object is deleted twice, an integer is divided by zero, a function with a result ends
  without one, a number in text is out of the range of its type) and a computation that does
  not return (\<open>Diverges\<close>, also the value of a recursion whose fuel ran out).

  The theory also holds the machine integer \<open>long\<close> (a 64-bit word), decimal output and input of
  integers, the C string function \<open>strlen\<close>/\<open>memcpy\<close> on explicit buffers, and the generic
  lemmas the components share.
\<close>

section \<open>Outcomes\<close>

datatype ub =
    NullDeref
  | TypeConfusion
  | SignedOverflow
  | IteratorBeforeBegin
  | OutOfBounds
  | DoubleDelete
  | DivisionByZero
  | MissingReturn
  | NotRepresentable

datatype exn =
    RuntimeError string
  | SyntaxError string nat
  | MissingVariableReferenceError string string
  | OutOfRange string

datatype failure = Throws exn | Undefined ub | Diverges

type_synonym 'a res = "failure + 'a"

named_theorems res_simps "equations of the sequencing operations on outcomes"

definition bindE :: "'a res \<Rightarrow> ('a \<Rightarrow> 'b res) \<Rightarrow> 'b res" where
  "bindE m k = (case m of Inl f \<Rightarrow> Inl f | Inr x \<Rightarrow> k x)"

lemma bindE_simps [simp, res_simps]:
  "bindE (Inl f) k = Inl f"
  "bindE (Inr x) k = k x"
  by (simp_all add: bindE_def)

lemma bindE_cong [fundef_cong]:
  "m = m' \<Longrightarrow> (\<And>x. m' = Inr x \<Longrightarrow> k x = k' x) \<Longrightarrow> bindE m k = bindE m' k'"
  by (simp add: bindE_def split: sum.split)

lemma bindE_eq_Inr: "bindE m k = Inr y \<longleftrightarrow> (\<exists>x. m = Inr x \<and> k x = Inr y)"
  by (cases m) auto

lemma bindE_eq_Inl: "bindE m k = Inl f \<longleftrightarrow> m = Inl f \<or> (\<exists>x. m = Inr x \<and> k x = Inl f)"
  by (cases m) auto

lemma bindE_Inr_right [simp, res_simps]: "bindE m Inr = m"
  by (cases m) auto

lemma bindE_assoc [res_simps]: "bindE (bindE m k) h = bindE m (\<lambda>x. bindE (k x) h)"
  by (cases m) auto

lemma bindE_split:
  "P (bindE m k) \<longleftrightarrow> (\<forall>f. m = Inl f \<longrightarrow> P (Inl f)) \<and> (\<forall>x. m = Inr x \<longrightarrow> P (k x))"
  by (cases m) auto

text \<open>\<open>mapE f\<close> runs \<open>f\<close> over a list from left to right and stops at the first failure.\<close>

fun mapE :: "('a \<Rightarrow> 'b res) \<Rightarrow> 'a list \<Rightarrow> 'b list res" where
  "mapE f [] = Inr []"
| "mapE f (x # xs) = bindE (f x) (\<lambda>y. bindE (mapE f xs) (\<lambda>ys. Inr (y # ys)))"

lemma mapE_cong [fundef_cong]:
  "xs = ys \<Longrightarrow> (\<And>x. x \<in> set ys \<Longrightarrow> f x = g x) \<Longrightarrow> mapE f xs = mapE g ys"
proof (induction ys arbitrary: xs)
  case Nil
  then show ?case by simp
next
  case (Cons y ys)
  have "mapE f ys = mapE g ys"
    by (rule Cons.IH) (simp_all add: Cons.prems)
  with Cons.prems show ?case by simp
qed

lemma mapE_Inr_map: "(\<And>x. x \<in> set xs \<Longrightarrow> f x = Inr (g x)) \<Longrightarrow> mapE f xs = Inr (map g xs)"
  by (induction xs) auto

lemma mapE_eq_Inr: "mapE f xs = Inr ys \<longleftrightarrow> list_all2 (\<lambda>x y. f x = Inr y) xs ys"
  by (induction xs arbitrary: ys) (auto simp: bindE_eq_Inr list_all2_Cons1)

lemma mapE_append: "mapE f (xs @ ys) = bindE (mapE f xs) (\<lambda>as. bindE (mapE f ys) (\<lambda>bs. Inr (as @ bs)))"
  by (induction xs) (auto simp: bindE_assoc)

lemma mapE_length: "mapE f xs = Inr ys \<Longrightarrow> length ys = length xs"
  by (auto simp: mapE_eq_Inr list_all2_lengthD)

lemma mapE_eq_Inl:
  "mapE f xs = Inl e \<Longrightarrow> \<exists>x \<in> set xs. f x = Inl e"
  by (induction xs) (auto simp: bindE_eq_Inl)

text \<open>An optional child (a nullable owning pointer that the code tests before use).\<close>

definition optE :: "('a \<Rightarrow> 'b res) \<Rightarrow> 'a option \<Rightarrow> 'b option res" where
  "optE f p = (case p of None \<Rightarrow> Inr None | Some x \<Rightarrow> bindE (f x) (\<lambda>y. Inr (Some y)))"

lemma optE_simps [simp, res_simps]:
  "optE f None = Inr None"
  "optE f (Some x) = bindE (f x) (\<lambda>y. Inr (Some y))"
  by (simp_all add: optE_def)

lemma optE_cong [fundef_cong]:
  "p = q \<Longrightarrow> (\<And>x. q = Some x \<Longrightarrow> f x = g x) \<Longrightarrow> optE f p = optE g q"
  by (simp add: optE_def split: option.split)

lemma optE_eq_Inr: "optE f p = Inr q \<longleftrightarrow> rel_option (\<lambda>x y. f x = Inr y) p q"
  by (cases p; cases q) (auto simp: bindE_eq_Inr)

lemma optE_pred:
  "optE f p = Inr q \<Longrightarrow> (\<And>x r. p = Some x \<Longrightarrow> f x = Inr r \<Longrightarrow> Q r) \<Longrightarrow> pred_option Q q"
  by (cases p) (auto simp: bindE_eq_Inr)

lemma mapE_pred:
  "mapE f xs = Inr ys \<Longrightarrow> (\<And>x r. x \<in> set xs \<Longrightarrow> f x = Inr r \<Longrightarrow> Q r) \<Longrightarrow> \<forall>y \<in> set ys. Q y"
  by (induction xs arbitrary: ys) (fastforce simp: bindE_eq_Inr)+

text \<open>A pointer that the code dereferences without testing it.\<close>

definition derefE :: "'a option \<Rightarrow> ('a \<Rightarrow> 'b res) \<Rightarrow> 'b res" where
  "derefE p f = (case p of None \<Rightarrow> Inl (Undefined NullDeref) | Some x \<Rightarrow> f x)"

lemma derefE_simps [simp, res_simps]:
  "derefE None f = Inl (Undefined NullDeref)"
  "derefE (Some x) f = f x"
  by (simp_all add: derefE_def)

lemma derefE_cong [fundef_cong]:
  "p = q \<Longrightarrow> (\<And>x. q = Some x \<Longrightarrow> f x = g x) \<Longrightarrow> derefE p f = derefE q g"
  by (simp add: derefE_def split: option.split)

text \<open>
  Fuel: a computation \<open>g\<close> extends \<open>f\<close> when it gives the same outcome wherever \<open>f\<close> returns.
\<close>

definition extends :: "('a \<Rightarrow> 'b res) \<Rightarrow> ('a \<Rightarrow> 'b res) \<Rightarrow> bool" where
  "extends f g \<longleftrightarrow> (\<forall>x. f x \<noteq> Inl Diverges \<longrightarrow> g x = f x)"

lemma extends_refl [simp]: "extends f f"
  by (simp add: extends_def)

lemma extends_trans: "extends f g \<Longrightarrow> extends g h \<Longrightarrow> extends f h"
  by (simp add: extends_def)

lemma extendsD: "extends f g \<Longrightarrow> f x \<noteq> Inl Diverges \<Longrightarrow> g x = f x"
  by (simp add: extends_def)

lemma extends_bindE:
  assumes "m \<noteq> Inl Diverges \<Longrightarrow> m' = m"
    and "\<And>x. m = Inr x \<Longrightarrow> k x \<noteq> Inl Diverges \<Longrightarrow> k' x = k x"
    and "bindE m k \<noteq> Inl Diverges"
  shows "bindE m' k' = bindE m k"
  using assms by (cases m) auto

lemma extends_mapE:
  "extends f g \<Longrightarrow> mapE f xs \<noteq> Inl Diverges \<Longrightarrow> mapE g xs = mapE f xs"
proof (induction xs)
  case Nil
  then show ?case by simp
next
  case (Cons x xs)
  have fx: "f x \<noteq> Inl Diverges" using Cons.prems(2) by auto
  then have "g x = f x" by (rule extendsD [OF Cons.prems(1)])
  with Cons show ?case by (cases "f x"; cases "mapE f xs") auto
qed

lemma extends_optE:
  "extends f g \<Longrightarrow> optE f p \<noteq> Inl Diverges \<Longrightarrow> optE g p = optE f p"
  by (cases p) (auto simp: extends_def bindE_def split: sum.splits)

section \<open>The machine type long\<close>

text \<open>
  \<open>long\<close> has 64 bits on the platforms the program targets.  A signed operation whose exact
  result is not representable is undefined behaviour.  Division truncates towards zero.
\<close>

type_synonym long = "64 word"

definition long_of_int :: "int \<Rightarrow> long res" where
  "long_of_int i = (if - (2 ^ 63) \<le> i \<and> i < 2 ^ 63 then Inr (word_of_int i)
                    else Inl (Undefined SignedOverflow))"

definition long_add :: "long \<Rightarrow> long \<Rightarrow> long res" where
  "long_add a b = long_of_int (sint a + sint b)"

definition long_sub :: "long \<Rightarrow> long \<Rightarrow> long res" where
  "long_sub a b = long_of_int (sint a - sint b)"

definition long_mul :: "long \<Rightarrow> long \<Rightarrow> long res" where
  "long_mul a b = long_of_int (sint a * sint b)"

text \<open>Division by zero is undefined behaviour: code that excludes it has to test the divisor before.\<close>

definition long_div :: "long \<Rightarrow> long \<Rightarrow> long res" where
  "long_div a b =
     (if b = 0 then Inl (Undefined DivisionByZero) else long_of_int (sint a sdiv sint b))"

definition long_mod :: "long \<Rightarrow> long \<Rightarrow> long res" where
  "long_mod a b =
     (if b = 0 then Inl (Undefined DivisionByZero)
      else bindE (long_of_int (sint a sdiv sint b)) (\<lambda>_. long_of_int (sint a smod sint b)))"

lemma sint_long_bounds: "- (2 ^ 63) \<le> sint (a :: long)" "sint (a :: long) < 2 ^ 63"
  using sint_greater_eq [of a] sint_less [of a] by simp_all

lemma long_of_int_Inr: "long_of_int i = Inr r \<Longrightarrow> sint r = i"
  by (auto simp: long_of_int_def sint_sbintrunc' signed_take_bit_int_eq_self split: if_splits)

lemma long_of_int_sint [simp]: "long_of_int (sint (a :: long)) = Inr a"
  using sint_long_bounds [of a] by (simp add: long_of_int_def)

lemma long_of_int_eq_Inr_iff:
  "long_of_int i = Inr r \<longleftrightarrow> i = sint r"
  using long_of_int_Inr long_of_int_sint by blast

section \<open>Decimal text\<close>

definition digit_char :: "int \<Rightarrow> char" where
  "digit_char d = ''0123456789'' ! nat d"

function digits_of :: "int \<Rightarrow> string" where
  "digits_of n = (if n < 10 then [digit_char n] else digits_of (n div 10) @ [digit_char (n mod 10)])"
  by pat_completeness auto
termination
  by (relation "measure nat") auto

declare digits_of.simps [simp del]

definition string_of_int :: "int \<Rightarrow> string" where
  "string_of_int i = (if i < 0 then CHR ''-'' # digits_of (- i) else digits_of i)"

text \<open>What \<open>std::to_string(long)\<close> and \<open>stream << long\<close> write.\<close>

definition string_of_long :: "long \<Rightarrow> string" where
  "string_of_long a = string_of_int (sint a)"

definition char_digit :: "char \<Rightarrow> int option" where
  "char_digit = map_of
     [(CHR ''0'', 0), (CHR ''1'', 1), (CHR ''2'', 2), (CHR ''3'', 3), (CHR ''4'', 4),
      (CHR ''5'', 5), (CHR ''6'', 6), (CHR ''7'', 7), (CHR ''8'', 8), (CHR ''9'', 9)]"

fun digits_value :: "int \<Rightarrow> string \<Rightarrow> int" where
  "digits_value acc [] = acc"
| "digits_value acc (c # cs) =
     (case char_digit c of None \<Rightarrow> acc | Some d \<Rightarrow> digits_value (10 * acc + d) cs)"

lemma digit_char_cases:
  fixes d :: int
  assumes "0 \<le> d" "d < 10"
  shows "d \<in> {0, 1, 2, 3, 4, 5, 6, 7, 8, 9}"
  unfolding insert_iff empty_iff using assms by presburger

lemma char_digit_digit_char: "0 \<le> d \<Longrightarrow> d < 10 \<Longrightarrow> char_digit (digit_char d) = Some d"
  using digit_char_cases [of d] by (auto simp: char_digit_def digit_char_def)

lemma digits_value_append:
  assumes "\<forall>c \<in> set xs. char_digit c \<noteq> None"
  shows "digits_value acc (xs @ ys) = digits_value (digits_value acc xs) ys"
  using assms by (induction xs arbitrary: acc) (auto split: option.split)

lemma digits_of_digits: "0 \<le> n \<Longrightarrow> c \<in> set (digits_of n) \<Longrightarrow> char_digit c \<noteq> None"
proof (induction n rule: digits_of.induct)
  case (1 n)
  show ?case
  proof (cases "n < 10")
    case True
    with 1 show ?thesis by (subst (asm) digits_of.simps) (auto simp: char_digit_digit_char)
  next
    case False
    with 1 have "c \<in> set (digits_of (n div 10)) \<or> c = digit_char (n mod 10)"
      by (subst (asm) digits_of.simps) auto
    with 1 False show ?thesis by (auto simp: char_digit_digit_char)
  qed
qed

text \<open>Reading back the digits of a non-negative integer gives the integer.\<close>

lemma digits_value_digits_of: "0 \<le> n \<Longrightarrow> digits_value 0 (digits_of n) = n"
proof (induction n rule: digits_of.induct)
  case (1 n)
  show ?case
  proof (cases "n < 10")
    case True
    with 1 show ?thesis by (subst digits_of.simps) (simp add: char_digit_digit_char)
  next
    case False
    then have "\<forall>c \<in> set (digits_of (n div 10)). char_digit c \<noteq> None"
      using digits_of_digits [of "n div 10"] by (simp add: pos_imp_zdiv_nonneg_iff)
    then have "digits_value 0 (digits_of n)
        = digits_value (digits_value 0 (digits_of (n div 10))) [digit_char (n mod 10)]"
      using False by (subst digits_of.simps) (simp only: digits_value_append if_False)
    with 1 False show ?thesis by (simp add: char_digit_digit_char)
  qed
qed

section \<open>Characters\<close>

abbreviation "backslash \<equiv> CHR 0x5C"
abbreviation "dquote \<equiv> CHR 0x22"
abbreviation "squote \<equiv> CHR 0x27"
abbreviation "newline \<equiv> CHR 0x0A"
abbreviation "tabulator \<equiv> CHR 0x09"
abbreviation "nul \<equiv> CHR 0x00"

section \<open>Buffers\<close>

text \<open>
  \<open>memcpy\<close> into an allocated block, at an offset: the block is a list of bytes of fixed length,
  and a copy that would leave it is undefined behaviour.
\<close>

definition memcpy_at :: "char list \<Rightarrow> nat \<Rightarrow> char list \<Rightarrow> char list res" where
  "memcpy_at buf p s =
     (if p + length s \<le> length buf then Inr (take p buf @ s @ drop (p + length s) buf)
      else Inl (Undefined OutOfBounds))"

text \<open>The C string that starts at the beginning of a block: the bytes before the first NUL.\<close>

definition c_string :: "char list \<Rightarrow> string" where
  "c_string buf = takeWhile (\<lambda>c. c \<noteq> CHR 0x00) buf"

definition nul_free :: "string \<Rightarrow> bool" where
  "nul_free s \<longleftrightarrow> CHR 0x00 \<notin> set s"

lemma c_string_terminated: "nul_free s \<Longrightarrow> c_string (s @ CHR 0x00 # rest) = s"
  by (induction s) (auto simp: c_string_def nul_free_def)

lemma memcpy_at_length: "memcpy_at buf p s = Inr buf' \<Longrightarrow> length buf' = length buf"
  by (auto simp: memcpy_at_def split: if_splits)

end
