(* ===== verification/Doubles.thy ===== *)
theory Doubles
  imports B2_Prelude
begin

text \<open>
  The C++ type \<open>double\<close> as IEEE 754 binary64 with round-to-nearest-even, executable on integers:
  a finite value is a sign, a mantissa \<open>m\<close> below \<open>2 ^ 53\<close> and an exponent \<open>e\<close>, standing for
  \<open>m * 2 ^ e\<close>.  Every operation computes the exact rational result and rounds it once.  The two
  decimal formats that the program's output uses are here as well: the default format of an
  output stream (\<open>%g\<close>, six significant digits) and that of \<open>std::to_string\<close> (\<open>%f\<close>, six
  decimals).  IEEE 754 leaves the sign of a NaN open, so a NaN has no sign here and prints as
  \<open>nan\<close>.
\<close>

section \<open>Representation\<close>

datatype double = NaN | Infinity bool | Finite bool int int

definition canonical :: "int \<Rightarrow> int \<Rightarrow> bool" where
  "canonical m e \<longleftrightarrow>
     0 \<le> m \<and> m < 2 ^ 53 \<and> - 1074 \<le> e \<and> e \<le> 971 \<and> (2 ^ 52 \<le> m \<or> e = - 1074)"

fun wf_double :: "double \<Rightarrow> bool" where
  "wf_double (Finite s m e) = canonical m e"
| "wf_double NaN = True"
| "wf_double (Infinity s) = True"

definition dzero :: "bool \<Rightarrow> double" where
  "dzero s = Finite s 0 (- 1074)"

section \<open>Rounding\<close>

function bits :: "int \<Rightarrow> int" where
  "bits n = (if n \<le> 0 then 0 else 1 + bits (n div 2))"
  by pat_completeness auto
termination
  by (relation "measure nat") auto

declare bits.simps [simp del]

definition div_rne :: "int \<Rightarrow> int \<Rightarrow> int" where
  "div_rne n d =
     (let q = n div d; r = n mod d
      in if 2 * r < d then q else if 2 * r > d then q + 1 else if even q then q else q + 1)"

text \<open>The quotient \<open>n / (d * 2 ^ e)\<close> as a numerator and a denominator.\<close>

definition scale :: "int \<Rightarrow> int \<Rightarrow> int \<Rightarrow> int \<times> int" where
  "scale n d e = (if 0 \<le> e then (n, d * 2 ^ nat e) else (n * 2 ^ nat (- e), d))"

definition pack :: "bool \<Rightarrow> int \<Rightarrow> int \<Rightarrow> double" where
  "pack s m e =
     (if m = 2 ^ 53 then (if 971 < e + 1 then Infinity s else Finite s (2 ^ 52) (e + 1))
      else if 971 < e then Infinity s else Finite s m e)"

definition round_exp :: "int \<Rightarrow> int \<Rightarrow> int" where
  "round_exp n d =
     (let e0 = max (- 1074) (bits n - bits d - 53); (n0, d0) = scale n d e0
      in if 2 ^ 53 \<le> n0 div d0 then e0 + 1 else e0)"

definition round_pos :: "bool \<Rightarrow> int \<Rightarrow> int \<Rightarrow> double" where
  "round_pos s n d =
     (if n = 0 then dzero s
      else let e = round_exp n d; (n1, d1) = scale n d e in pack s (div_rne n1 d1) e)"

definition signed :: "bool \<Rightarrow> int \<Rightarrow> int" where
  "signed s m = (if s then - m else m)"

text \<open>The double nearest to \<open>v * 2 ^ k\<close>; \<open>z\<close> is the sign of a zero result.\<close>

definition of_dyadic :: "bool \<Rightarrow> int \<Rightarrow> int \<Rightarrow> double" where
  "of_dyadic z v k =
     (if v = 0 then dzero z
      else if 0 \<le> k then round_pos (v < 0) (\<bar>v\<bar> * 2 ^ nat k) 1
      else round_pos (v < 0) \<bar>v\<bar> (2 ^ nat (- k)))"

section \<open>Operations\<close>

definition double_of_int :: "int \<Rightarrow> double" where
  "double_of_int i = of_dyadic False i 0"

definition double_of_long :: "long \<Rightarrow> double" where
  "double_of_long a = double_of_int (sint a)"

definition aligned :: "bool \<Rightarrow> int \<Rightarrow> int \<Rightarrow> int \<Rightarrow> int" where
  "aligned s m e k = signed s m * 2 ^ nat (e - k)"

fun dneg :: "double \<Rightarrow> double" where
  "dneg NaN = NaN"
| "dneg (Infinity s) = Infinity (\<not> s)"
| "dneg (Finite s m e) = Finite (\<not> s) m e"

fun dadd :: "double \<Rightarrow> double \<Rightarrow> double" where
  "dadd NaN _ = NaN"
| "dadd _ NaN = NaN"
| "dadd (Infinity s) (Infinity t) = (if s = t then Infinity s else NaN)"
| "dadd (Infinity s) (Finite _ _ _) = Infinity s"
| "dadd (Finite _ _ _) (Infinity t) = Infinity t"
| "dadd (Finite s m e) (Finite t n f) =
     (let k = min e f in of_dyadic (s \<and> t) (aligned s m e k + aligned t n f k) k)"

definition dsub :: "double \<Rightarrow> double \<Rightarrow> double" where
  "dsub a b = dadd a (dneg b)"

fun dmul :: "double \<Rightarrow> double \<Rightarrow> double" where
  "dmul NaN _ = NaN"
| "dmul _ NaN = NaN"
| "dmul (Infinity s) (Infinity t) = Infinity (s \<noteq> t)"
| "dmul (Infinity s) (Finite t n f) = (if n = 0 then NaN else Infinity (s \<noteq> t))"
| "dmul (Finite s m e) (Infinity t) = (if m = 0 then NaN else Infinity (s \<noteq> t))"
| "dmul (Finite s m e) (Finite t n f) =
     of_dyadic (s \<noteq> t) (signed (s \<noteq> t) (m * n)) (e + f)"

fun ddiv :: "double \<Rightarrow> double \<Rightarrow> double" where
  "ddiv NaN _ = NaN"
| "ddiv _ NaN = NaN"
| "ddiv (Infinity s) (Infinity t) = NaN"
| "ddiv (Infinity s) (Finite t n f) = Infinity (s \<noteq> t)"
| "ddiv (Finite s m e) (Infinity t) = dzero (s \<noteq> t)"
| "ddiv (Finite s m e) (Finite t n f) =
     (if n = 0 then (if m = 0 then NaN else Infinity (s \<noteq> t))
      else let (a, b) = scale m n (f - e) in round_pos (s \<noteq> t) a b)"

fun deq :: "double \<Rightarrow> double \<Rightarrow> bool" where
  "deq (Infinity s) (Infinity t) = (s = t)"
| "deq (Finite s m e) (Finite t n f) = (aligned s m e (min e f) = aligned t n f (min e f))"
| "deq _ _ = False"

fun dlt :: "double \<Rightarrow> double \<Rightarrow> bool" where
  "dlt (Infinity s) (Infinity t) = (s \<and> \<not> t)"
| "dlt (Infinity s) (Finite _ _ _) = s"
| "dlt (Finite _ _ _) (Infinity t) = (\<not> t)"
| "dlt (Finite s m e) (Finite t n f) = (aligned s m e (min e f) < aligned t n f (min e f))"
| "dlt _ _ = False"

definition dle :: "double \<Rightarrow> double \<Rightarrow> bool" where
  "dle a b \<longleftrightarrow> dlt a b \<or> deq a b"

section \<open>Decimal output\<close>

definition strip_zeros :: "string \<Rightarrow> string" where
  "strip_zeros s = rev (dropWhile (\<lambda>c. c = CHR ''0'') (rev s))"

definition pad_left :: "nat \<Rightarrow> string \<Rightarrow> string" where
  "pad_left k s = replicate (k - length s) CHR ''0'' @ s"

definition sign_text :: "bool \<Rightarrow> string" where
  "sign_text s = (if s then ''-'' else [])"

text \<open>\<open>std::to_string(double)\<close>: the format \<open>%f\<close>.\<close>

fun format_f :: "double \<Rightarrow> string" where
  "format_f NaN = ''nan''"
| "format_f (Infinity s) = sign_text s @ ''inf''"
| "format_f (Finite s m e) =
     (let (n, d) = scale (m * 10 ^ 6) 1 (- e); q = div_rne n d
      in sign_text s @ digits_of (q div 10 ^ 6) @ ''.'' @ pad_left 6 (digits_of (q mod 10 ^ 6)))"

function dec_down :: "int \<Rightarrow> int \<Rightarrow> int" where
  "dec_down n d = (if n \<le> 0 \<or> d \<le> n then 0 else 1 + dec_down (10 * n) d)"
  by pat_completeness auto
termination
  by (relation "measure (\<lambda>(n, d). nat (d - n))") auto

declare dec_down.simps [simp del]

text \<open>Six significant digits of \<open>n / d\<close> and the decimal exponent of the first one.\<close>

definition six_digits :: "int \<Rightarrow> int \<Rightarrow> int \<times> int" where
  "six_digits n d =
     (let x = (if d \<le> n then int (length (digits_of (n div d))) - 1 else - dec_down n d);
          q = (if x \<le> 5 then div_rne (n * 10 ^ nat (5 - x)) d else div_rne n (d * 10 ^ nat (x - 5)))
      in if q = 10 ^ 6 then (10 ^ 5, x + 1) else (q, x))"

definition with_fraction :: "string \<Rightarrow> string \<Rightarrow> string" where
  "with_fraction whole frac =
     (let f = strip_zeros frac in if f = [] then whole else whole @ ''.'' @ f)"

definition layout_g :: "int \<Rightarrow> int \<Rightarrow> string" where
  "layout_g q x =
     (let ds = digits_of q
      in if x < - 4 \<or> 6 \<le> x
         then with_fraction (take 1 ds) (drop 1 ds) @ ''e'' @ (if x < 0 then ''-'' else ''+'')
              @ pad_left 2 (digits_of \<bar>x\<bar>)
         else if 0 \<le> x then with_fraction (take (nat x + 1) ds) (drop (nat x + 1) ds)
         else with_fraction ''0'' (replicate (nat (- x) - 1) CHR ''0'' @ ds))"

text \<open>\<open>stream << double\<close> with the default settings: the format \<open>%g\<close>.\<close>

fun format_g :: "double \<Rightarrow> string" where
  "format_g NaN = ''nan''"
| "format_g (Infinity s) = sign_text s @ ''inf''"
| "format_g (Finite s m e) =
     sign_text s @
     (if m = 0 then ''0''
      else let (n, d) = scale m 1 (- e); (q, x) = six_digits n d in layout_g q x)"

text \<open>The decimal number \<open>i / 10 ^ k\<close>, as \<open>atof\<close> reads it.\<close>

definition double_of_decimal :: "int \<Rightarrow> nat \<Rightarrow> double" where
  "double_of_decimal i k = round_pos (i < 0) \<bar>i\<bar> (10 ^ k)"

section \<open>Small integers are exact\<close>

lemma bits_bounds: "0 < n \<Longrightarrow> 0 < bits n \<and> 2 ^ nat (bits n - 1) \<le> n \<and> n < 2 ^ nat (bits n)"
proof (induction n rule: bits.induct)
  case (1 n)
  show ?case
  proof (cases "n = 1")
    case True
    then show ?thesis by (simp add: bits.simps)
  next
    case False
    with 1 have IH: "0 < bits (n div 2)" "2 ^ nat (bits (n div 2) - 1) \<le> n div 2"
      "n div 2 < 2 ^ nat (bits (n div 2))" by simp_all
    have "bits n = 1 + bits (n div 2)" using 1(2) by (subst bits.simps) simp
    moreover from IH(1) have "nat (bits (n div 2)) = Suc (nat (bits (n div 2) - 1))" by simp
    moreover from IH have "2 * 2 ^ nat (bits (n div 2) - 1) \<le> n" by linarith
    moreover from IH have "n < 2 * 2 ^ nat (bits (n div 2))" by linarith
    ultimately show ?thesis using IH(1) by (simp add: nat_add_distrib)
  qed
qed

lemma bits_le: "0 < n \<Longrightarrow> n < 2 ^ k \<Longrightarrow> bits n \<le> int k"
proof (rule ccontr)
  assume n: "0 < n" "n < 2 ^ k" and "\<not> bits n \<le> int k"
  then have "k \<le> nat (bits n - 1)" by linarith
  then have "(2 :: int) ^ k \<le> 2 ^ nat (bits n - 1)" by (rule power_increasing) simp
  with bits_bounds [OF n(1)] n(2) show False by linarith
qed

lemma bits_one [simp]: "bits 1 = 1"
  by (simp add: bits.simps)

lemma div_rne_one [simp]: "div_rne n 1 = n"
  by (simp add: div_rne_def)

lemma round_small:
  assumes n: "0 < n" "n < 2 ^ 53"
  shows "round_pos s n 1 = Finite s (n * 2 ^ nat (53 - bits n)) (bits n - 53)"
proof -
  define b where "b = nat (bits n - 1)"
  have b: "bits n = int b + 1" "b \<le> 52"
    using bits_bounds [OF n(1)] bits_le [OF n] by (simp_all add: b_def)
  then have lo: "2 ^ b \<le> n" and hi: "n < 2 ^ Suc b"
    using bits_bounds [OF n(1)] by (simp_all add: nat_add_distrib)
  have "(2 :: int) ^ b * 2 ^ (53 - b) = 2 ^ 53" using b by (simp flip: power_add)
  then have "2 ^ 53 \<le> n * 2 ^ (53 - b)" using mult_right_mono [OF lo, of "2 ^ (53 - b)"] by simp
  moreover have "n * 2 ^ (52 - b) < 2 ^ 53"
  proof -
    have "n * 2 ^ (52 - b) < 2 ^ Suc b * 2 ^ (52 - b)" using hi by (intro mult_strict_right_mono) auto
    also have "\<dots> = 2 ^ 53" using b by (simp flip: power_add)
    finally show ?thesis .
  qed
  moreover have "nat (53 - int b) = 53 - b" "nat (52 - int b) = 52 - b" using b by auto
  ultimately show ?thesis
    using b n by (simp add: round_pos_def round_exp_def scale_def pack_def Let_def)
qed

lemma double_of_int_small:
  assumes "\<bar>i\<bar> < 2 ^ 53"
  obtains s m e where "double_of_int i = Finite s m e" "e \<le> 0"
    "\<forall>k. k \<le> e \<longrightarrow> aligned s m e k = i * 2 ^ nat (- k)"
proof (cases "i = 0")
  case True
  show ?thesis
    by (rule that [of False 0 "- 1074"])
      (simp_all add: True double_of_int_def of_dyadic_def dzero_def aligned_def signed_def)
next
  case False
  let ?b = "bits \<bar>i\<bar>"
  from False assms have i: "0 < \<bar>i\<bar>" "\<bar>i\<bar> < 2 ^ 53" by auto
  have b: "?b \<le> 53" using bits_le [OF i] by simp
  show ?thesis
  proof (rule that [of "i < 0" "\<bar>i\<bar> * 2 ^ nat (53 - ?b)" "?b - 53"])
    show "double_of_int i = Finite (i < 0) (\<bar>i\<bar> * 2 ^ nat (53 - ?b)) (?b - 53)"
      using round_small [OF i] False by (simp add: double_of_int_def of_dyadic_def)
    have "aligned (i < 0) (\<bar>i\<bar> * 2 ^ nat (53 - ?b)) (?b - 53) k = i * 2 ^ nat (- k)"
      if "k \<le> ?b - 53" for k
    proof -
    from that b have "nat (53 - ?b) + nat (?b - 53 - k) = nat (- k)" by linarith
    then have "\<bar>i\<bar> * 2 ^ nat (53 - ?b) * 2 ^ nat (?b - 53 - k) = \<bar>i\<bar> * 2 ^ nat (- k)"
      by (simp add: mult.assoc flip: power_add)
    then show ?thesis
      by (auto simp: aligned_def signed_def abs_if split: if_splits)
    qed
    then show "\<forall>k. k \<le> ?b - 53 \<longrightarrow>
        aligned (i < 0) (\<bar>i\<bar> * 2 ^ nat (53 - ?b)) (?b - 53) k = i * 2 ^ nat (- k)" by blast
  qed (use b in simp)
qed

lemma small_integers_compare_exactly:
  assumes "\<bar>i\<bar> < 2 ^ 53" and "\<bar>j\<bar> < 2 ^ 53"
  shows "deq (double_of_int i) (double_of_int j) \<longleftrightarrow> i = j"
    and "dlt (double_of_int i) (double_of_int j) \<longleftrightarrow> i < j"
    and "dle (double_of_int i) (double_of_int j) \<longleftrightarrow> i \<le> j"
proof -
  obtain s m e where i: "double_of_int i = Finite s m e"
    "\<forall>k. k \<le> e \<longrightarrow> aligned s m e k = i * 2 ^ nat (- k)"
    by (rule double_of_int_small [OF assms(1)]) (rule that, assumption+)
  obtain t n f where j: "double_of_int j = Finite t n f"
    "\<forall>k. k \<le> f \<longrightarrow> aligned t n f k = j * 2 ^ nat (- k)"
    by (rule double_of_int_small [OF assms(2)]) (rule that, assumption+)
  define c :: int where "c = 2 ^ nat (- min e f)"
  have "aligned s m e (min e f) = i * c" "aligned t n f (min e f) = j * c"
    using i(2) j(2) by (simp_all only: c_def min.cobounded1 min.cobounded2)
  moreover have "0 < c" by (simp add: c_def)
  ultimately show "deq (double_of_int i) (double_of_int j) \<longleftrightarrow> i = j" and
    "dlt (double_of_int i) (double_of_int j) \<longleftrightarrow> i < j"
    by (simp_all only: i(1) j(1) deq.simps dlt.simps mult_cancel_right mult_less_cancel_right) auto
  then show "dle (double_of_int i) (double_of_int j) \<longleftrightarrow> i \<le> j" by (auto simp: dle_def)
qed

end
