(* ===== verification/Expressions.thy ===== *)
theory Expressions
  imports Doubles
begin

unbundle bit_operations_syntax

text \<open>
  The expression tree of \<open>lib/ast/expressions.hpp\<close>: one constructor per concrete subclass of
  \<open>Expression\<close>, the operator enumerations with their integer codes, the static type
  \<open>valueType()\<close> and the deep copy \<open>clone()\<close>.

  A C string member is the list of its bytes before the terminating NUL.  The argument list of a
  method call is a list of owning pointers that may be null (\<open>None\<close>): \<open>cloneExpressionList\<close>
  creates such lists.
\<close>

section \<open>Operators\<close>

datatype binary_op = Addition | Subtraction | Multiplication | Division | Modulus

datatype unary_op = NumericPositive | NumericNegative | BooleanNegation

datatype comparison_op =
    Equal | NotEqual | GreaterThan | GreaterOrEqual | LessThan | LessOrEqual | Or | And

definition code_of_char :: "char \<Rightarrow> int" where
  "code_of_char c = of_char c"

fun binary_char :: "binary_op \<Rightarrow> char" where
  "binary_char Addition = CHR ''+''"
| "binary_char Subtraction = CHR ''-''"
| "binary_char Multiplication = CHR ''*''"
| "binary_char Division = CHR ''/''"
| "binary_char Modulus = CHR ''%''"

definition binary_code :: "binary_op \<Rightarrow> int" where
  "binary_code op = code_of_char (binary_char op)"

fun unary_char :: "unary_op \<Rightarrow> char" where
  "unary_char NumericPositive = CHR ''+''"
| "unary_char NumericNegative = CHR ''-''"
| "unary_char BooleanNegation = CHR ''!''"

definition pack_uint16 :: "char \<Rightarrow> char \<Rightarrow> int" where
  "pack_uint16 a b = push_bit 8 (code_of_char a) OR code_of_char b"

fun comparison_code :: "comparison_op \<Rightarrow> int" where
  "comparison_code Equal = pack_uint16 CHR ''='' CHR ''=''"
| "comparison_code NotEqual = pack_uint16 CHR ''!'' CHR ''=''"
| "comparison_code GreaterThan = pack_uint16 CHR ''>'' CHR 0x00"
| "comparison_code GreaterOrEqual = pack_uint16 CHR ''>'' CHR ''=''"
| "comparison_code LessThan = pack_uint16 CHR ''<'' CHR 0x00"
| "comparison_code LessOrEqual = pack_uint16 CHR ''<'' CHR ''=''"
| "comparison_code Or = pack_uint16 CHR ''|'' CHR ''|''"
| "comparison_code And = pack_uint16 CHR ''&'' CHR ''&''"

text \<open>The operator whose enumerator has a given code, if there is one.\<close>

definition comparison_of_code :: "int \<Rightarrow> comparison_op option" where
  "comparison_of_code k =
     find (\<lambda>op. comparison_code op = k)
       [Equal, NotEqual, GreaterThan, GreaterOrEqual, LessThan, LessOrEqual, Or, And]"

text \<open>
  The cast \<open>(ComparisonOperation)(op[0] << 8 | op[1])\<close> of the constructor that takes the operator
  as a C string: \<open>op[1]\<close> of a string of length one is its terminator, and reading further than
  that would leave the string.
\<close>

definition comparison_of_string :: "string \<Rightarrow> comparison_op option" where
  "comparison_of_string op =
     (case op @ [CHR 0x00] of
        a # b # _ \<Rightarrow> comparison_of_code (push_bit 8 (code_of_char a) OR code_of_char b)
      | _ \<Rightarrow> None)"

section \<open>Expressions\<close>

datatype expr =
    VariableReference string
  | GetAttribute expr string
  | MethodCall string "expr option list"
  | DoubleLiteral double
  | IntegerLiteral long
  | BooleanLiteral bool
  | StringLiteral string
  | BinaryOperation expr expr binary_op
  | UnaryOperation expr unary_op
  | Comparison expr expr comparison_op

datatype value_type = DoubleType | IntegerType | BooleanType | StringType | VariantType

fun valueType :: "expr \<Rightarrow> value_type" where
  "valueType (VariableReference _) = VariantType"
| "valueType (GetAttribute _ _) = VariantType"
| "valueType (MethodCall _ _) = VariantType"
| "valueType (DoubleLiteral _) = DoubleType"
| "valueType (IntegerLiteral _) = IntegerType"
| "valueType (BooleanLiteral _) = BooleanType"
| "valueType (StringLiteral _) = StringType"
| "valueType (BinaryOperation left right _) =
     (let left_vtype = valueType left; right_vtype = valueType right
      in if left_vtype = VariantType \<or> right_vtype = VariantType then VariantType
         else if left_vtype = DoubleType \<or> right_vtype = DoubleType then DoubleType
         else if left_vtype = IntegerType \<and> right_vtype = IntegerType then IntegerType
         else DoubleType)"
| "valueType (UnaryOperation expr op) =
     (case op of
        BooleanNegation \<Rightarrow> BooleanType
      | _ \<Rightarrow> (let type = valueType expr
             in if type \<in> {VariantType, DoubleType, IntegerType} then type else DoubleType))"
| "valueType (Comparison _ _ _) = BooleanType"

text \<open>
  \<open>cloneExpressionList\<close> constructs the new list with \<open>exprList->size()\<close> default elements, which
  are null pointers, and then appends the copies.  A null element is dereferenced by
  \<open>expr->clone()\<close>.
\<close>

definition cloneExpressionList ::
    "(expr \<Rightarrow> expr res) \<Rightarrow> expr option list \<Rightarrow> expr option list res" where
  "cloneExpressionList clone' exprList =
     bindE (mapE (\<lambda>p. derefE p clone') exprList)
       (\<lambda>copies. Inr (replicate (length exprList) None @ map Some copies))"

lemma cloneExpressionList_cong [fundef_cong]:
  assumes "xs = ys" "\<And>p e. p \<in> set ys \<Longrightarrow> p = Some e \<Longrightarrow> f e = g e"
  shows "cloneExpressionList f xs = cloneExpressionList g ys"
proof -
  have "mapE (\<lambda>p. derefE p f) ys = mapE (\<lambda>p. derefE p g) ys"
    by (rule mapE_cong [OF refl]) (auto intro: derefE_cong assms(2))
  with assms(1) show ?thesis by (simp add: cloneExpressionList_def)
qed

fun clone :: "expr \<Rightarrow> expr res" where
  "clone (VariableReference variableName) = Inr (VariableReference variableName)"
| "clone (GetAttribute variable attributeName) =
     bindE (clone variable) (\<lambda>v. Inr (GetAttribute v attributeName))"
| "clone (MethodCall methodName arguments) =
     bindE (cloneExpressionList clone arguments) (\<lambda>as. Inr (MethodCall methodName as))"
| "clone (DoubleLiteral v) = Inr (DoubleLiteral v)"
| "clone (IntegerLiteral v) = Inr (IntegerLiteral v)"
| "clone (BooleanLiteral v) = Inr (BooleanLiteral v)"
| "clone (StringLiteral v) = Inr (StringLiteral v)"
| "clone (BinaryOperation left right op) =
     bindE (clone left) (\<lambda>l. bindE (clone right) (\<lambda>r. Inr (BinaryOperation l r op)))"
| "clone (UnaryOperation expr op) = bindE (clone expr) (\<lambda>e. Inr (UnaryOperation e op))"
| "clone (Comparison left right op) =
     bindE (clone left) (\<lambda>l. bindE (clone right) (\<lambda>r. Inr (Comparison l r op)))"

text \<open>
  An expression is well formed when no argument list in it holds a null pointer: the parser
  builds such expressions only.  \<open>call_free\<close>: no method call with arguments.
\<close>

fun wf_expr :: "expr \<Rightarrow> bool" where
  "wf_expr (GetAttribute v _) = wf_expr v"
| "wf_expr (MethodCall _ args) = list_all (\<lambda>p. case p of None \<Rightarrow> False | Some e \<Rightarrow> wf_expr e) args"
| "wf_expr (BinaryOperation l r _) = (wf_expr l \<and> wf_expr r)"
| "wf_expr (UnaryOperation e _) = wf_expr e"
| "wf_expr (Comparison l r _) = (wf_expr l \<and> wf_expr r)"
| "wf_expr _ = True"

fun call_free :: "expr \<Rightarrow> bool" where
  "call_free (GetAttribute v _) = call_free v"
| "call_free (MethodCall _ args) = (args = [])"
| "call_free (BinaryOperation l r _) = (call_free l \<and> call_free r)"
| "call_free (UnaryOperation e _) = call_free e"
| "call_free (Comparison l r _) = (call_free l \<and> call_free r)"
| "call_free _ = True"

fun is_variable :: "expr \<Rightarrow> bool" where
  "is_variable (VariableReference x) = True"
| "is_variable e = False"

section \<open>Facts about copies\<close>

lemma mapE_derefE_wf:
  assumes "\<And>p e. p \<in> set xs \<Longrightarrow> p = Some e \<Longrightarrow> \<exists>e'. f e = Inr e'"
    and "None \<notin> set xs"
  shows "\<exists>ys. mapE (\<lambda>p. derefE p f) xs = Inr ys"
  using assms
proof (induction xs)
  case Nil
  then show ?case by simp
next
  case (Cons p xs)
  from Cons.prems(2) obtain e where "p = Some e" by (cases p) auto
  moreover from this Cons.prems(1) obtain e' where "f e = Inr e'" by fastforce
  moreover have "\<exists>ys. mapE (\<lambda>p. derefE p f) xs = Inr ys"
    using Cons.prems by (intro Cons.IH) auto
  ultimately show ?case by auto
qed

lemma wf_MethodCall_iff:
  "wf_expr (MethodCall m args) \<longleftrightarrow> None \<notin> set args \<and> (\<forall>e. Some e \<in> set args \<longrightarrow> wf_expr e)"
  by (induction args) (auto split: option.split)

lemma clone_total: "wf_expr e \<Longrightarrow> \<exists>e'. clone e = Inr e'"
proof (induction e)
  case (MethodCall m args)
  have "\<exists>ys. mapE (\<lambda>p. derefE p clone) args = Inr ys"
    using MethodCall by (intro mapE_derefE_wf) (auto simp del: wf_expr.simps simp: wf_MethodCall_iff)
  then show ?case by (auto simp: cloneExpressionList_def)
qed (auto simp: bindE_eq_Inr)

lemma mapE_derefE_failure:
  assumes "\<And>p e f'. p \<in> set xs \<Longrightarrow> p = Some e \<Longrightarrow> f e = Inl f' \<Longrightarrow> f' = Undefined NullDeref"
    and "mapE (\<lambda>p. derefE p f) xs = Inl k"
  shows "k = Undefined NullDeref"
proof -
  from mapE_eq_Inl [OF assms(2)] obtain p where "p \<in> set xs" "derefE p f = Inl k" by blast
  with assms(1) show ?thesis by (cases p) auto
qed

lemma clone_failure: "clone e = Inl f \<Longrightarrow> f = Undefined NullDeref"
proof (induction e arbitrary: f)
  case (MethodCall m args)
  then have "mapE (\<lambda>p. derefE p clone) args = Inl f"
    by (auto simp: cloneExpressionList_def bindE_eq_Inl)
  then show ?case by (rule mapE_derefE_failure [rotated]) (use MethodCall.IH in auto)
qed (auto simp: bindE_eq_Inl)

lemma clone_call_free: "call_free e \<Longrightarrow> clone e = Inr e"
  by (induction e) (auto simp: cloneExpressionList_def)

lemma clone_MethodCall_length:
  "clone (MethodCall m args) = Inr e' \<Longrightarrow>
   \<exists>copies. length copies = length args \<and>
     e' = MethodCall m (replicate (length args) None @ map Some copies)"
  by (auto simp: cloneExpressionList_def bindE_eq_Inr dest: mapE_length)

lemma clone_MethodCall_fixpoint: "clone (MethodCall m args) = Inr (MethodCall m args) \<Longrightarrow> args = []"
  by (drule clone_MethodCall_length) (auto dest: arg_cong [where f = length])

lemma clone_eq_call_free: "clone e = Inr e \<Longrightarrow> call_free e"
proof (induction e)
  case (MethodCall m args)
  from clone_MethodCall_fixpoint [OF MethodCall.prems] show ?case by simp
qed (auto simp: bindE_eq_Inr)

text \<open>Copying a copy of an expression that has a method call with arguments.\<close>

lemma clone_clone_undefined:
  "clone e = Inr e' \<Longrightarrow> \<not> call_free e \<Longrightarrow> clone e' = Inl (Undefined NullDeref)"
proof (induction e arbitrary: e')
  case (MethodCall m args)
  from clone_MethodCall_length [OF MethodCall.prems(1)] obtain copies where
    e': "e' = MethodCall m (replicate (length args) None @ map Some copies)" by blast
  from MethodCall.prems(2) have "args \<noteq> []" by simp
  then obtain k where "length args = Suc k" by (cases args) auto
  with e' show ?case by (simp add: cloneExpressionList_def)
next
  case (BinaryOperation l r op)
  from BinaryOperation.prems(1) obtain l' r' where
    l: "clone l = Inr l'" and r: "clone r = Inr r'" and e': "e' = BinaryOperation l' r' op"
    by (auto simp: bindE_eq_Inr)
  show ?case
  proof (cases "call_free l")
    case True
    then have "l' = l" "\<not> call_free r" using l BinaryOperation.prems(2) by (auto simp: clone_call_free)
    with BinaryOperation.IH(2) [OF r] l e' show ?thesis by simp
  next
    case False
    with BinaryOperation.IH(1) [OF l] e' show ?thesis by simp
  qed
next
  case (Comparison l r op)
  from Comparison.prems(1) obtain l' r' where
    l: "clone l = Inr l'" and r: "clone r = Inr r'" and e': "e' = Comparison l' r' op"
    by (auto simp: bindE_eq_Inr)
  show ?case
  proof (cases "call_free l")
    case True
    then have "l' = l" "\<not> call_free r" using l Comparison.prems(2) by (auto simp: clone_call_free)
    with Comparison.IH(2) [OF r] l e' show ?thesis by simp
  next
    case False
    with Comparison.IH(1) [OF l] e' show ?thesis by simp
  qed
next
  case (GetAttribute v a)
  from GetAttribute.prems obtain v' where "clone v = Inr v'" "e' = GetAttribute v' a"
    by (auto simp: bindE_eq_Inr)
  with GetAttribute.IH [of v'] GetAttribute.prems(2) show ?case by simp
next
  case (UnaryOperation u op)
  from UnaryOperation.prems obtain u' where "clone u = Inr u'" "e' = UnaryOperation u' op"
    by (auto simp: bindE_eq_Inr)
  with UnaryOperation.IH [of u'] UnaryOperation.prems(2) show ?case by simp
qed simp_all

lemma clone_valueType: "clone e = Inr e' \<Longrightarrow> valueType e' = valueType e"
proof (induction e arbitrary: e')
  case (BinaryOperation l r op)
  from BinaryOperation.prems obtain l' r' where
    "clone l = Inr l'" "clone r = Inr r'" "e' = BinaryOperation l' r' op"
    by (auto simp: bindE_eq_Inr)
  with BinaryOperation.IH(1) [of l'] BinaryOperation.IH(2) [of r'] show ?case
    by (simp add: Let_def)
next
  case (UnaryOperation u op)
  from UnaryOperation.prems obtain u' where "clone u = Inr u'" "e' = UnaryOperation u' op"
    by (auto simp: bindE_eq_Inr)
  with UnaryOperation.IH [of u'] show ?case by (cases op) (simp_all add: Let_def)
qed (auto simp: bindE_eq_Inr)

end
