(* ===== verification/Templates.thy ===== *)
theory Templates
  imports Expressions
begin

text \<open>
  The statement tree of \<open>lib/ast/ast.hpp\<close>: one constructor per concrete subclass of \<open>AST\<close>.
  Owning pointers that the code tests before use are options.  The loop variables of a
  \<open>ForBlock\<close> are declared as pointers to \<open>VariableReferenceExpression\<close>, but the parser stores
  any variable expression there with a \<open>static_cast\<close>: they are expressions here, and
  \<open>variable_name_of\<close> is the read of their \<open>variableName\<close> member.

  \<open>StringExpressionMap\<close> is an association list without duplicate keys; the order of the list
  stands for the iteration order of the \<open>unordered_map\<close>.
\<close>

type_synonym string_expression_map = "(string \<times> expr) list"

datatype ast =
    Statements "ast list"
  | RawBlock string
  | PrintBlock expr
  | IfBlock expr "ast option" "ast option"
  | ForBlock "expr option" "expr option" expr "ast option" "ast option"
  | IncludeBlock string "expr option" string_expression_map

fun is_statements :: "ast \<Rightarrow> bool" where
  "is_statements (Statements _) = True"
| "is_statements _ = False"

fun is_raw :: "ast \<Rightarrow> bool" where
  "is_raw (RawBlock _) = True"
| "is_raw _ = False"

fun raw_text :: "ast \<Rightarrow> string" where
  "raw_text (RawBlock t) = t"
| "raw_text _ = []"

definition variable_name_of :: "expr \<Rightarrow> string res" where
  "variable_name_of e =
     (case e of VariableReference v \<Rightarrow> Inr v | _ \<Rightarrow> Inl (Undefined TypeConfusion))"

text \<open>\<open>map[key] = value\<close>: replaces the value of a key that is there, else adds the key.\<close>

fun map_put :: "string \<Rightarrow> expr \<Rightarrow> string_expression_map \<Rightarrow> string_expression_map" where
  "map_put k v [] = [(k, v)]"
| "map_put k v ((k', v') # m) = (if k = k' then (k', v) # m else (k', v') # map_put k v m)"

lemma map_of_map_put: "map_of (map_put k v m) = (map_of m)(k \<mapsto> v)"
  by (induction m) auto

lemma keys_map_put: "fst ` set (map_put k v m) = insert k (fst ` set m)"
proof (induction m)
  case (Cons p m)
  then show ?case by (cases p; cases "k = fst p") (simp_all add: insert_commute)
qed simp

lemma distinct_map_put: "distinct (map fst m) \<Longrightarrow> distinct (map fst (map_put k v m))"
proof (induction m)
  case (Cons p m)
  then show ?case by (cases p; cases "k = fst p") (simp_all add: keys_map_put)
qed simp

text \<open>
  \<open>flat\<close>: no statement list stands directly inside another one, and no statement list has
  exactly one element.  \<open>all_nodes p a\<close>: \<open>p\<close> holds for every node of the tree.
\<close>

fun all_nodes :: "(ast \<Rightarrow> bool) \<Rightarrow> ast \<Rightarrow> bool" where
  "all_nodes p (Statements xs) = (p (Statements xs) \<and> list_all (all_nodes p) xs)"
| "all_nodes p (IfBlock c t e) =
     (p (IfBlock c t e) \<and> pred_option (all_nodes p) t \<and> pred_option (all_nodes p) e)"
| "all_nodes p (ForBlock k v i b e) =
     (p (ForBlock k v i b e) \<and> pred_option (all_nodes p) b \<and> pred_option (all_nodes p) e)"
| "all_nodes p a = p a"

fun flat_node :: "ast \<Rightarrow> bool" where
  "flat_node (Statements xs) = (list_all (\<lambda>x. \<not> is_statements x) xs \<and> length xs \<noteq> 1)"
| "flat_node _ = True"

abbreviation flat :: "ast \<Rightarrow> bool" where
  "flat \<equiv> all_nodes flat_node"

lemma all_nodes_root: "all_nodes p a \<Longrightarrow> p a"
  by (cases a) auto

lemma size_in_list [simp]: "x \<in> set xs \<Longrightarrow> size (x :: ast) < Suc (size_list size xs)"
  by (induction xs) auto

lemma size_in_statements: "x \<in> set xs \<Longrightarrow> size x < size (Statements xs)"
  by simp

end
