(* ===== verification/Scanner_Literals.thy ===== *)
theory Scanner_Literals
  imports Templates
begin

text \<open>
  The string literals of the scanner \<open>lib/parser/syntax.l\<close>: \<open>process_string_literal\<close>, an
  in-place loop over the text of the token, its meaning, and the round trip of quoted texts.
\<close>

section \<open>String literals of the scanner\<close>

text \<open>
  The loop of \<open>process_string_literal\<close> on the token text: \<open>ptr\<close> and \<open>end_ptr\<close> are offsets into
  \<open>buf\<close>; \<open>memmove(ptr, ptr + 1, end_ptr - ptr - 1)\<close> moves the rest of the literal one to the left.
\<close>

function unescape_loop :: "char list \<Rightarrow> nat \<Rightarrow> nat \<Rightarrow> char list \<times> nat" where
  "unescape_loop buf ptr end_ptr =
     (if ptr < end_ptr
      then if buf ! ptr = backslash
           then unescape_loop
                  (take ptr buf @ take (end_ptr - ptr - 1) (drop (ptr + 1) buf) @ drop (end_ptr - 1) buf)
                  (ptr + 1) (end_ptr - 1)
           else unescape_loop buf (ptr + 1) end_ptr
      else (buf, end_ptr))"
  by pat_completeness auto
termination
  by (relation "measure (\<lambda>(buf, ptr, end_ptr). end_ptr - ptr)") auto

declare unescape_loop.simps [simp del]

definition process_string_literal :: "string \<Rightarrow> string" where
  "process_string_literal text =
     (let (buf, end_ptr) = unescape_loop text 1 (length text - 1)
      in c_string (drop 1 (buf[end_ptr := nul])))"

text \<open>What a literal means: a backslash stands for the character after it.\<close>

fun unescape :: "string \<Rightarrow> string" where
  "unescape [] = []"
| "unescape [c] = (if c = backslash then [] else [c])"
| "unescape (c # d # cs) = (if c = backslash then d # unescape cs else c # unescape (d # cs))"

definition quote_literal :: "char \<Rightarrow> string \<Rightarrow> string" where
  "quote_literal q s = q # concat (map (\<lambda>c. if c = backslash \<or> c = q then [backslash, c] else [c]) s) @ [q]"

lemma drop_to_last: "drop (length cs) (d # cs @ t) = last (d # cs) # t"
  by (induction cs arbitrary: d) auto

lemma unescape_loop_spec:
  "\<exists>rest. unescape_loop (pre @ s @ tl') (length pre) (length pre + length s) =
     (pre @ unescape s @ rest, length (pre @ unescape s)) \<and> (tl' \<noteq> [] \<longrightarrow> rest \<noteq> [])"
proof (induction s arbitrary: pre tl' rule: unescape.induct)
  case 1
  then show ?case by (subst unescape_loop.simps) simp
next
  case (2 c)
  show ?case
  proof (cases "c = backslash")
    case True
    have "unescape_loop (pre @ [c] @ tl') (length pre) (length pre + length [c]) =
        unescape_loop (pre @ c # tl') (length pre + 1) (length pre)"
      by (subst unescape_loop.simps) (simp add: True)
    also have "\<dots> = (pre @ c # tl', length pre)" by (subst unescape_loop.simps) simp
    finally show ?thesis using True by simp
  next
    case False
    have "unescape_loop (pre @ [c] @ tl') (length pre) (length pre + length [c]) =
        unescape_loop (pre @ c # tl') (length pre + 1) (length pre + 1)"
      by (subst unescape_loop.simps) (simp add: False)
    also have "\<dots> = (pre @ c # tl', length pre + 1)" by (subst unescape_loop.simps) simp
    finally show ?thesis using False by simp
  qed
next
  case (3 c d cs)
  show ?case
  proof (cases "c = backslash")
    case True
    let ?last = "last (d # cs)"
    have "drop (length cs) (d # cs @ tl') = ?last # tl'" by (rule drop_to_last)
    have "unescape_loop (pre @ (c # d # cs) @ tl') (length pre) (length pre + length (c # d # cs)) =
      unescape_loop ((pre @ [d]) @ cs @ ?last # tl') (length (pre @ [d])) (length (pre @ [d]) + length cs)"
      using \<open>drop (length cs) (d # cs @ tl') = ?last # tl'\<close>
      by (subst unescape_loop.simps) (simp add: True nth_append del: last.simps)
    with 3(1) [OF True, of "pre @ [d]" "?last # tl'"] show ?thesis using True by auto
  next
    case False
    have "unescape_loop (pre @ (c # d # cs) @ tl') (length pre) (length pre + length (c # d # cs)) =
      unescape_loop ((pre @ [c]) @ (d # cs) @ tl') (length (pre @ [c])) (length (pre @ [c]) + length (d # cs))"
      by (subst unescape_loop.simps) (simp add: False)
    with 3(2) [OF False, of "pre @ [c]" tl'] show ?thesis using False by auto
  qed
qed

lemma process_literal_eq:
  assumes "nul_free s"
  shows "process_string_literal (q # s @ [q]) = unescape s"
proof -
  obtain rest where r: "unescape_loop ([q] @ s @ [q]) (length [q]) (length [q] + length s) =
      ([q] @ unescape s @ rest, length ([q] @ unescape s))" and rest: "rest \<noteq> []"
    using unescape_loop_spec [of "[q]" s "[q]"] by auto
  have "set (unescape s) \<subseteq> set s" by (induction s rule: unescape.induct) auto
  then have "nul_free (unescape s)" using assms unfolding nul_free_def by (rule contra_subsetD)
  obtain x rest' where x: "rest = x # rest'" using rest by (cases rest) auto
  have loop: "unescape_loop (q # s @ [q]) 1 (length (q # s @ [q]) - 1) =
      (q # unescape s @ x # rest', Suc (length (unescape s)))"
    using r x by simp
  have "(q # unescape s @ x # rest')[Suc (length (unescape s)) := nul] = q # unescape s @ nul # rest'"
    by simp
  then have "process_string_literal (q # s @ [q]) = c_string (unescape s @ nul # rest')"
    unfolding process_string_literal_def loop by simp
  also have "\<dots> = unescape s" by (rule c_string_terminated) fact
  finally show ?thesis .
qed

text \<open>
  (string literals) On a literal without NUL bytes the in-place loop computes its meaning:
  every backslash stands for the character after it, the quotes are dropped.
\<close>

theorem literal_means_its_unescaped_text:
  assumes "nul_free s"
  shows "process_string_literal (q # s @ [q]) = unescape s"
  by (rule process_literal_eq [OF assms])

theorem literal_means_its_unescaped_text_witness:
  "process_string_literal (dquote # ''a'' @ [backslash, dquote, backslash, backslash] @ ''b'' @ [dquote])
   = ''a'' @ [dquote, backslash] @ ''b''"
  using literal_means_its_unescaped_text
    [of "''a'' @ [backslash, dquote, backslash, backslash] @ ''b''" dquote]
  by (simp add: nul_free_def)

lemma unescape_plain: "c \<noteq> backslash \<Longrightarrow> unescape (c # t) = c # unescape t"
  by (cases t) simp_all

lemma unescape_quoted:
  "unescape (concat (map (\<lambda>c. if c = backslash \<or> c = q then [backslash, c] else [c]) s)) = s"
proof (induction s)
  case (Cons c s)
  let ?t = "concat (map (\<lambda>c. if c = backslash \<or> c = q then [backslash, c] else [c]) s)"
  show ?case
  proof (cases "c = backslash \<or> c = q")
    case True
    with Cons show ?thesis by simp
  next
    case False
    then have "c \<noteq> backslash" by simp
    from unescape_plain [OF this, of ?t] False Cons show ?thesis by simp
  qed
qed simp

text \<open>(round trip of literals) Every text without NUL bytes can be written as a literal that is read back as it.\<close>

theorem literal_round_trip:
  assumes "nul_free s" and "q \<noteq> nul"
  shows "process_string_literal (quote_literal q s) = s"
proof -
  have "nul_free (concat (map (\<lambda>c. if c = backslash \<or> c = q then [backslash, c] else [c]) s))"
    using assms by (induction s) (auto simp: nul_free_def)
  from process_literal_eq [OF this, of q] show ?thesis
    by (simp add: quote_literal_def unescape_quoted)
qed

theorem literal_round_trip_witness:
  "process_string_literal (quote_literal squote [CHR ''a'', squote, backslash]) = [CHR ''a'', squote, backslash]"
  by (rule literal_round_trip) (simp_all add: nul_free_def)

end
