(* ===== verification/Syntax_Actions.thy ===== *)
theory Syntax_Actions
  imports Scanner_Literals
begin

text \<open>
  The parser: the helper functions and the semantic actions of the grammar
  \<open>lib/parser/syntax.y\<close>, and \<open>Parser::parse\<close> of \<open>lib/parser/parser.cpp\<close>.

  A derivation of the grammar is a value of the datatypes below, one constructor per production
  (productions that differ in a token only share a constructor that holds the token).  The
  functions \<open>build_...\<close> run the actions of a derivation in the order of the reductions: the
  parts of a production from left to right, then its own action.  The automata that the parser
  generator and the scanner generator make of the grammar are the parameter that yields the
  derivation.

  The argument \<open>line\<close> is the line number the scanner is at when an action fails.
\<close>

section \<open>Derivations\<close>

datatype p_var = Var_id string | Var_attribute p_var string

datatype sign_token = T_sign_minus | T_sign_plus
datatype numeric_token = T_PLUS | T_MINUS | T_MUL | T_DIV | T_MOD
datatype equality_token = T_EQ | T_NEQ
datatype ordering_token = T_GT | T_GE | T_LT | T_LE
datatype logical_token = T_OR | T_AND

datatype p_expr =
    E_var p_var
  | E_string string
  | E_double double
  | E_integer long
  | E_boolean bool
  | E_sign sign_token p_expr
  | E_numeric p_expr numeric_token p_expr
  | E_equality p_expr equality_token p_expr
  | E_ordering p_expr ordering_token p_expr
  | E_logical p_expr logical_token p_expr
  | E_not p_expr
  | E_paren p_expr
  | E_call string p_args
and p_args = Arg_first p_expr | Arg_more p_args p_expr

datatype p_item = Item_name string | Item_assign string p_expr
datatype p_mapping = Mapping_first p_item | Mapping_more p_mapping p_item
datatype p_raws = Raw_first string | Raw_more p_raws string

datatype p_stmt =
    S_raw p_raws
  | S_print p_expr
  | S_if p_expr p_stmts p_elifs p_else
  | S_for p_var p_var p_stmts p_else
  | S_for_key p_var p_var p_var p_stmts p_else
  | S_include string
  | S_include_using string p_expr
  | S_include_with string p_mapping
and p_stmts = Stmt_first p_stmt | Stmt_more p_stmts p_stmt
and p_elifs = Elif_none | Elif_more p_elifs p_expr p_stmts
and p_else = Else_none | Else_some p_stmts

datatype p_root = Root_empty | Root_statements p_stmts

section \<open>Helper functions of the actions\<close>

definition is_variant :: "expr \<Rightarrow> bool" where
  "is_variant expr \<longleftrightarrow> valueType expr = VariantType"

definition is_numeric :: "expr \<Rightarrow> bool" where
  "is_numeric expr \<longleftrightarrow> (let type = valueType expr in type = IntegerType \<or> type = DoubleType)"

definition is_boolean :: "expr \<Rightarrow> bool" where
  "is_boolean expr \<longleftrightarrow> valueType expr = BooleanType"

definition from_statements_array :: "ast list \<Rightarrow> ast" where
  "from_statements_array list = (if length list = 1 then hd list else Statements list)"

definition add_ast_to_statements :: "ast list \<Rightarrow> ast \<Rightarrow> ast list" where
  "add_ast_to_statements list ast =
     (case ast of Statements statements \<Rightarrow> list @ statements | _ \<Rightarrow> list @ [ast])"

definition add_name_to_stringexprmap :: "string_expression_map \<Rightarrow> string \<Rightarrow> string_expression_map" where
  "add_name_to_stringexprmap m value = map_put value (VariableReference value) m"

definition add_to_stringexprmap :: "string_expression_map \<Rightarrow> string \<Rightarrow> expr \<Rightarrow> string_expression_map" where
  "add_to_stringexprmap m key value = map_put key value m"

definition ASSERT_THAT :: "nat \<Rightarrow> bool \<Rightarrow> string \<Rightarrow> unit res" where
  "ASSERT_THAT line cond msg = (if \<not> cond then Inl (Throws (SyntaxError msg line)) else Inr ())"

definition ASSERT_NUMERIC :: "nat \<Rightarrow> expr \<Rightarrow> unit res" where
  "ASSERT_NUMERIC line x = ASSERT_THAT line (is_numeric x \<or> is_variant x) ''numeric expression expected''"

definition ASSERT_BOOLEAN :: "nat \<Rightarrow> expr \<Rightarrow> unit res" where
  "ASSERT_BOOLEAN line x = ASSERT_THAT line (is_boolean x \<or> is_variant x) ''boolean expression expected''"

definition ASSERT_MAP :: "nat \<Rightarrow> expr \<Rightarrow> unit res" where
  "ASSERT_MAP line x = ASSERT_THAT line (is_variant x) ''map expression expected''"

section \<open>Actions of expressions\<close>

fun sign_operation :: "sign_token \<Rightarrow> unary_op" where
  "sign_operation T_sign_minus = NumericNegative"
| "sign_operation T_sign_plus = NumericPositive"

fun numeric_operation :: "numeric_token \<Rightarrow> binary_op" where
  "numeric_operation T_PLUS = Addition"
| "numeric_operation T_MINUS = Subtraction"
| "numeric_operation T_MUL = Multiplication"
| "numeric_operation T_DIV = Division"
| "numeric_operation T_MOD = Modulus"

fun equality_string :: "equality_token \<Rightarrow> string" where
  "equality_string T_EQ = ''==''"
| "equality_string T_NEQ = ''!=''"

fun ordering_string :: "ordering_token \<Rightarrow> string" where
  "ordering_string T_GT = ''>''"
| "ordering_string T_GE = ''>=''"
| "ordering_string T_LT = ''<''"
| "ordering_string T_LE = ''<=''"

fun logical_string :: "logical_token \<Rightarrow> string" where
  "logical_string T_OR = ''||''"
| "logical_string T_AND = ''&&''"

text \<open>The constructor of \<open>ComparisonExpression\<close> from a C string; no other string reaches it.\<close>

definition new_comparison :: "expr \<Rightarrow> expr \<Rightarrow> string \<Rightarrow> expr res" where
  "new_comparison left right op =
     (case comparison_of_string op of
        None \<Rightarrow> Inl (Undefined TypeConfusion)
      | Some c \<Rightarrow> Inr (Comparison left right c))"

fun build_var :: "p_var \<Rightarrow> expr" where
  "build_var (Var_id s) = VariableReference s"
| "build_var (Var_attribute variable attribute) = GetAttribute (build_var variable) attribute"

fun build_expr :: "nat \<Rightarrow> p_expr \<Rightarrow> expr res" and build_args :: "nat \<Rightarrow> p_args \<Rightarrow> expr option list res" where
  "build_expr line (E_var v) = Inr (build_var v)"
| "build_expr line (E_string s) = Inr (StringLiteral s)"
| "build_expr line (E_double d) = Inr (DoubleLiteral d)"
| "build_expr line (E_integer l) = Inr (IntegerLiteral l)"
| "build_expr line (E_boolean b) = Inr (BooleanLiteral b)"
| "build_expr line (E_sign t e) =
     bindE (build_expr line e) (\<lambda>x. bindE (ASSERT_NUMERIC line x) (\<lambda>_.
       Inr (UnaryOperation x (sign_operation t))))"
| "build_expr line (E_numeric l t r) =
     bindE (build_expr line l) (\<lambda>x. bindE (build_expr line r) (\<lambda>y.
       bindE (ASSERT_NUMERIC line x) (\<lambda>_. bindE (ASSERT_NUMERIC line y) (\<lambda>_.
         Inr (BinaryOperation x y (numeric_operation t))))))"
| "build_expr line (E_equality l t r) =
     bindE (build_expr line l) (\<lambda>x. bindE (build_expr line r) (\<lambda>y.
       new_comparison x y (equality_string t)))"
| "build_expr line (E_ordering l t r) =
     bindE (build_expr line l) (\<lambda>x. bindE (build_expr line r) (\<lambda>y.
       bindE (ASSERT_NUMERIC line x) (\<lambda>_. bindE (ASSERT_NUMERIC line y) (\<lambda>_.
         new_comparison x y (ordering_string t)))))"
| "build_expr line (E_logical l t r) =
     bindE (build_expr line l) (\<lambda>x. bindE (build_expr line r) (\<lambda>y.
       bindE (ASSERT_BOOLEAN line x) (\<lambda>_. bindE (ASSERT_BOOLEAN line y) (\<lambda>_.
         new_comparison x y (logical_string t)))))"
| "build_expr line (E_not e) =
     bindE (build_expr line e) (\<lambda>x. bindE (ASSERT_BOOLEAN line x) (\<lambda>_.
       Inr (UnaryOperation x BooleanNegation)))"
| "build_expr line (E_paren e) = build_expr line e"
| "build_expr line (E_call method args) =
     bindE (build_args line args) (\<lambda>as. Inr (MethodCall method as))"
| "build_args line (Arg_first e) = bindE (build_expr line e) (\<lambda>x. Inr [Some x])"
| "build_args line (Arg_more other e) =
     bindE (build_args line other) (\<lambda>as. bindE (build_expr line e) (\<lambda>x. Inr (as @ [Some x])))"

section \<open>Actions of statements\<close>

fun build_raws :: "p_raws \<Rightarrow> ast list" where
  "build_raws (Raw_first t) = [RawBlock t]"
| "build_raws (Raw_more raw_blocks t) = build_raws raw_blocks @ [RawBlock t]"

fun build_item :: "nat \<Rightarrow> string_expression_map \<Rightarrow> p_item \<Rightarrow> string_expression_map res" where
  "build_item line m (Item_name val) = Inr (add_name_to_stringexprmap m val)"
| "build_item line m (Item_assign key e) =
     bindE (build_expr line e) (\<lambda>val. Inr (add_to_stringexprmap m key val))"

fun build_mapping :: "nat \<Rightarrow> p_mapping \<Rightarrow> string_expression_map res" where
  "build_mapping line (Mapping_first i) = build_item line [] i"
| "build_mapping line (Mapping_more mapping i) =
     bindE (build_mapping line mapping) (\<lambda>m. build_item line m i)"

text \<open>
  The loop of \<open>if_block\<close> that walks down the else bodies of the chain of elseif blocks, casting
  each to an if block, and sets the else body of the last one.
\<close>

fun set_last_else :: "ast \<Rightarrow> ast option \<Rightarrow> ast res" where
  "set_last_else (IfBlock c th None) else_body = Inr (IfBlock c th else_body)"
| "set_last_else (IfBlock c th (Some e)) else_body =
     bindE (set_last_else e else_body) (\<lambda>e'. Inr (IfBlock c th (Some e')))"
| "set_last_else _ else_body = Inl (Undefined TypeConfusion)"

text \<open>The action of \<open>elseif_blocks\<close>: the new block becomes the else body of the first one.\<close>

definition add_elif :: "ast option \<Rightarrow> expr \<Rightarrow> ast \<Rightarrow> ast option res" where
  "add_elif prev_elif cond body =
     (let elif = IfBlock cond (Some body) None
      in case prev_elif of
           Some (IfBlock c th _) \<Rightarrow> Inr (Some (IfBlock c th (Some elif)))
         | Some _ \<Rightarrow> Inl (Undefined TypeConfusion)
         | None \<Rightarrow> Inr (Some elif))"

definition new_if_block :: "expr \<Rightarrow> ast \<Rightarrow> ast option \<Rightarrow> ast option \<Rightarrow> ast res" where
  "new_if_block cond then_body elif_blocks else_body =
     (case elif_blocks of
        None \<Rightarrow> Inr (IfBlock cond (Some then_body) else_body)
      | Some elif_block \<Rightarrow>
          bindE (set_last_else elif_block else_body) (\<lambda>chain.
            Inr (IfBlock cond (Some then_body) (Some chain))))"

text \<open>
  The casts of the loop actions: the key, the value and the iterable of a loop are expressions, and
  are cast to variable references without a test.
\<close>

definition cast_variable :: "expr \<Rightarrow> expr res" where
  "cast_variable e = (case e of VariableReference s \<Rightarrow> Inr e | _ \<Rightarrow> Inl (Undefined TypeConfusion))"

fun build_stmt :: "nat \<Rightarrow> p_stmt \<Rightarrow> ast res"
  and build_stmts :: "nat \<Rightarrow> p_stmts \<Rightarrow> ast list res"
  and build_elifs :: "nat \<Rightarrow> p_elifs \<Rightarrow> ast option res"
  and build_else :: "nat \<Rightarrow> p_else \<Rightarrow> ast option res" where
  "build_stmt line (S_raw raw_blocks) = Inr (from_statements_array (build_raws raw_blocks))"
| "build_stmt line (S_print e) = bindE (build_expr line e) (\<lambda>x. Inr (PrintBlock x))"
| "build_stmt line (S_if c then_body elif_blocks else_body) =
     bindE (build_expr line c) (\<lambda>cond. bindE (build_stmts line then_body) (\<lambda>th.
       bindE (build_elifs line elif_blocks) (\<lambda>elifs. bindE (build_else line else_body) (\<lambda>el.
         new_if_block cond (from_statements_array th) elifs el))))"
| "build_stmt line (S_for value iterable body else_body) =
     bindE (build_stmts line body) (\<lambda>b. bindE (build_else line else_body) (\<lambda>el.
       bindE (cast_variable (build_var value)) (\<lambda>v. bindE (cast_variable (build_var iterable)) (\<lambda>it.
         Inr (ForBlock None (Some v) it (Some (from_statements_array b)) el)))))"
| "build_stmt line (S_for_key key value iterable body else_body) =
     bindE (build_stmts line body) (\<lambda>b. bindE (build_else line else_body) (\<lambda>el.
       bindE (cast_variable (build_var key)) (\<lambda>k. bindE (cast_variable (build_var value)) (\<lambda>v.
         bindE (cast_variable (build_var iterable)) (\<lambda>it.
           Inr (ForBlock (Some k) (Some v) it (Some (from_statements_array b)) el))))))"
| "build_stmt line (S_include templateName) = Inr (IncludeBlock templateName None [])"
| "build_stmt line (S_include_using templateName e) =
     bindE (build_expr line e) (\<lambda>scope. bindE (ASSERT_MAP line scope) (\<lambda>_.
       Inr (IncludeBlock templateName (Some scope) [])))"
| "build_stmt line (S_include_with templateName mapping) =
     bindE (build_mapping line mapping) (\<lambda>m. Inr (IncludeBlock templateName None m))"
| "build_stmts line (Stmt_first s) =
     bindE (build_stmt line s) (\<lambda>a. Inr (add_ast_to_statements [] a))"
| "build_stmts line (Stmt_more ss s) =
     bindE (build_stmts line ss) (\<lambda>list. bindE (build_stmt line s) (\<lambda>a.
       Inr (add_ast_to_statements list a)))"
| "build_elifs line Elif_none = Inr None"
| "build_elifs line (Elif_more prev_elif c body) =
     bindE (build_elifs line prev_elif) (\<lambda>prev. bindE (build_expr line c) (\<lambda>cond.
       bindE (build_stmts line body) (\<lambda>b. add_elif prev cond (from_statements_array b))))"
| "build_else line Else_none = Inr None"
| "build_else line (Else_some body) =
     bindE (build_stmts line body) (\<lambda>b. Inr (Some (from_statements_array b)))"

fun build_root :: "nat \<Rightarrow> p_root \<Rightarrow> ast res" where
  "build_root line Root_empty = Inr (Statements [])"
| "build_root line (Root_statements ss) =
     bindE (build_stmts line ss) (\<lambda>list. Inr (from_statements_array list))"

section \<open>Parsing a file\<close>

text \<open>
  \<open>open_file\<close> stands for \<open>fopen\<close> and the bytes read: \<open>Inl\<close> of the text of the error, or the
  contents.  \<open>syntax_parse\<close> stands for the generated parser on the contents: it yields the
  message of a syntax error or a derivation, and the line the scanner is at in the end.
\<close>

definition parse_fd :: "('contents \<Rightarrow> (string + p_root) \<times> nat) \<Rightarrow> 'contents \<Rightarrow> ast res" where
  "parse_fd syntax_parse fd =
     (case syntax_parse fd of
        (Inl err_message, line) \<Rightarrow> Inl (Throws (SyntaxError err_message line))
      | (Inr derivation, line) \<Rightarrow> build_root line derivation)"

definition FileGuard :: "(string \<Rightarrow> string + 'contents) \<Rightarrow> string \<Rightarrow> 'contents res" where
  "FileGuard open_file filename =
     (case open_file filename of
        Inl err \<Rightarrow> Inl (Throws (RuntimeError
          (''Couldn'' @ [squote] @ ''t open '' @ [squote] @ filename @ [squote] @ '': '' @ err)))
      | Inr fd \<Rightarrow> Inr fd)"

definition parse_file ::
    "(string \<Rightarrow> string + 'contents) \<Rightarrow> ('contents \<Rightarrow> (string + p_root) \<times> nat) \<Rightarrow> string \<Rightarrow> ast res" where
  "parse_file open_file syntax_parse filename =
     bindE (FileGuard open_file filename) (parse_fd syntax_parse)"

end
