(* ===== verification/Pass_Walk.thy ===== *)
theory Pass_Walk
  imports Templates
begin

text \<open>
  The two tree walkers of \<open>lib/ast/passes/pass.hpp\<close> and the dispatch of
  \<open>lib/ast/visitors.hpp\<close>.  A pass is the family of its virtual \<open>process_node\<close> overloads: one
  function on nodes, which also receives the walker itself (\<open>this->process\<close>), because the
  overloads of the program call it.  The walker's methods take the same argument for
  \<open>this->ast\<close> and \<open>this->expression\<close>, and a recursion on fuel ties the knot.

  Returning a pointer other than the argument and resetting the owner to it is returning the new
  value here.
\<close>

section \<open>Expressions\<close>

type_synonym expr_pass = "(expr \<Rightarrow> expr res) \<Rightarrow> expr \<Rightarrow> expr res"

definition walk_get_attribute :: "expr_pass \<Rightarrow> expr_pass" where
  "walk_get_attribute P self expr =
     bindE (P self expr) (\<lambda>new_expr.
       case new_expr of
         GetAttribute old_variable a \<Rightarrow>
           bindE (self old_variable) (\<lambda>new_variable. Inr (GetAttribute new_variable a))
       | _ \<Rightarrow> self new_expr)"

definition walk_arguments ::
    "(expr \<Rightarrow> expr res) \<Rightarrow> expr option list \<Rightarrow> expr option list res" where
  "walk_arguments self arguments =
     mapE (\<lambda>argument. derefE argument (\<lambda>old. bindE (self old) (\<lambda>new. Inr (Some new)))) arguments"

definition walk_method_call :: "expr_pass \<Rightarrow> expr_pass" where
  "walk_method_call P self expr =
     bindE (P self expr) (\<lambda>new_expr.
       case new_expr of
         MethodCall m arguments \<Rightarrow>
           bindE (walk_arguments self arguments) (\<lambda>as. Inr (MethodCall m as))
       | _ \<Rightarrow> self new_expr)"

definition walk_binary_operation :: "expr_pass \<Rightarrow> expr_pass" where
  "walk_binary_operation P self expr =
     bindE (P self expr) (\<lambda>new_expr.
       case new_expr of
         BinaryOperation old_left old_right op \<Rightarrow>
           bindE (self old_left) (\<lambda>new_left.
             bindE (self old_right) (\<lambda>new_right. Inr (BinaryOperation new_left new_right op)))
       | _ \<Rightarrow> self new_expr)"

definition walk_unary_operation :: "expr_pass \<Rightarrow> expr_pass" where
  "walk_unary_operation P self expr =
     bindE (P self expr) (\<lambda>new_expr.
       case new_expr of
         UnaryOperation old_sub_expr op \<Rightarrow>
           bindE (self old_sub_expr) (\<lambda>new_sub_expr. Inr (UnaryOperation new_sub_expr op))
       | _ \<Rightarrow> self new_expr)"

definition walk_comparison :: "expr_pass \<Rightarrow> expr_pass" where
  "walk_comparison P self expr =
     bindE (P self expr) (\<lambda>new_expr.
       case new_expr of
         Comparison old_left old_right op \<Rightarrow>
           bindE (self old_left) (\<lambda>new_left.
             bindE (self old_right) (\<lambda>new_right. Inr (Comparison new_left new_right op)))
       | _ \<Rightarrow> self new_expr)"

text \<open>The switch of \<open>ExpressionVisitor::expression\<close>, with the methods of \<open>ExpressionPass\<close>.\<close>

definition expr_dispatch :: "expr_pass \<Rightarrow> expr_pass" where
  "expr_dispatch P self expr =
     (case expr of
        VariableReference _ \<Rightarrow> P self expr
      | GetAttribute _ _ \<Rightarrow> walk_get_attribute P self expr
      | MethodCall _ _ \<Rightarrow> walk_method_call P self expr
      | DoubleLiteral _ \<Rightarrow> P self expr
      | IntegerLiteral _ \<Rightarrow> P self expr
      | BooleanLiteral _ \<Rightarrow> P self expr
      | StringLiteral _ \<Rightarrow> P self expr
      | BinaryOperation _ _ _ \<Rightarrow> walk_binary_operation P self expr
      | UnaryOperation _ _ \<Rightarrow> walk_unary_operation P self expr
      | Comparison _ _ _ \<Rightarrow> walk_comparison P self expr)"

primrec expr_walk :: "expr_pass \<Rightarrow> nat \<Rightarrow> expr \<Rightarrow> expr res" where
  "expr_walk P 0 expr = Inl Diverges"
| "expr_walk P (Suc fuel) expr = expr_dispatch P (expr_walk P fuel) expr"

text \<open>
  \<open>ExpressionPass::process\<close>.  The program has no fuel; the amount chosen here is enough for
  every pass of the program, which the interpretations of \<open>expr_pass_spec\<close> show.
\<close>

definition expr_process :: "expr_pass \<Rightarrow> expr \<Rightarrow> expr res" where
  "expr_process P expr = expr_walk P (Suc (size expr)) expr"

section \<open>Statements\<close>

type_synonym ast_pass = "(ast \<Rightarrow> ast res) \<Rightarrow> ast \<Rightarrow> ast res"

text \<open>
  The loop over the statement list: \<open>walked\<close> is the list before the iterator, the other list
  starts at it.  The children of a nested statement list are inserted before the iterator, the
  nested list is erased, and the iterator is moved back by one, which leaves the list when the
  erased element was the first one and had no children.
\<close>

fun merge_statements :: "(ast \<Rightarrow> ast res) \<Rightarrow> ast list \<Rightarrow> ast list \<Rightarrow> ast list res" where
  "merge_statements self walked [] = Inr walked"
| "merge_statements self walked (statement # rest) =
     bindE (self statement) (\<lambda>new_statement.
       case new_statement of
         Statements children \<Rightarrow>
           (if walked @ children = [] then Inl (Undefined IteratorBeforeBegin)
            else merge_statements self (walked @ children) rest)
       | _ \<Rightarrow> merge_statements self (walked @ [new_statement]) rest)"

text \<open>A statement list with one child is replaced by that child.\<close>

definition fold_singleton :: "ast list \<Rightarrow> ast" where
  "fold_singleton xs = (case xs of [x] \<Rightarrow> x | _ \<Rightarrow> Statements xs)"

definition walk_statements :: "ast_pass \<Rightarrow> ast_pass" where
  "walk_statements P self ast =
     bindE (P self ast) (\<lambda>new_ast.
       case new_ast of
         Statements statements \<Rightarrow>
           bindE (merge_statements self [] statements) (\<lambda>ys. Inr (fold_singleton ys))
       | _ \<Rightarrow> self new_ast)"

definition walk_if_block :: "ast_pass \<Rightarrow> ast_pass" where
  "walk_if_block P self ast =
     bindE (P self ast) (\<lambda>new_ast.
       case new_ast of
         IfBlock condition thenBody elseBody \<Rightarrow>
           bindE (optE self thenBody) (\<lambda>newThenBody.
             bindE (optE self elseBody) (\<lambda>newElseBody.
               Inr (IfBlock condition newThenBody newElseBody)))
       | _ \<Rightarrow> self new_ast)"

definition walk_for_block :: "ast_pass \<Rightarrow> ast_pass" where
  "walk_for_block P self ast =
     bindE (P self ast) (\<lambda>new_ast.
       case new_ast of
         ForBlock keyVariable valueVariable iterable body elseBody \<Rightarrow>
           bindE (optE self body) (\<lambda>newBody.
             bindE (optE self elseBody) (\<lambda>newElseBody.
               Inr (ForBlock keyVariable valueVariable iterable newBody newElseBody)))
       | _ \<Rightarrow> self new_ast)"

text \<open>The switch of \<open>Visitor::ast\<close>, with the methods of \<open>ASTPass\<close>.\<close>

definition ast_dispatch :: "ast_pass \<Rightarrow> ast_pass" where
  "ast_dispatch P self ast =
     (case ast of
        Statements _ \<Rightarrow> walk_statements P self ast
      | RawBlock _ \<Rightarrow> P self ast
      | PrintBlock _ \<Rightarrow> P self ast
      | IfBlock _ _ _ \<Rightarrow> walk_if_block P self ast
      | ForBlock _ _ _ _ _ \<Rightarrow> walk_for_block P self ast
      | IncludeBlock _ _ _ \<Rightarrow> P self ast)"

primrec ast_walk :: "ast_pass \<Rightarrow> nat \<Rightarrow> ast \<Rightarrow> ast res" where
  "ast_walk P 0 ast = Inl Diverges"
| "ast_walk P (Suc fuel) ast = ast_dispatch P (ast_walk P fuel) ast"

definition ast_process :: "ast_pass \<Rightarrow> ast \<Rightarrow> ast res" where
  "ast_process P ast = ast_walk P (Suc (size ast)) ast"

section \<open>The merged statement list\<close>

fun splice :: "ast \<Rightarrow> ast list" where
  "splice (Statements xs) = xs"
| "splice a = [a]"

text \<open>What the loop returns, when it returns: the results of the children, nested lists spliced in.\<close>

lemma merge_statements_result:
  "merge_statements self walked xs = Inr zs \<Longrightarrow>
     \<exists>rs. mapE self xs = Inr rs \<and> zs = walked @ concat (map splice rs)"
proof (induction xs arbitrary: walked)
  case Nil
  then show ?case by simp
next
  case (Cons x xs)
  from Cons.prems obtain r where r: "self x = Inr r" by (auto simp: bindE_eq_Inr)
  have "merge_statements self (walked @ splice r) xs = Inr zs"
    using Cons.prems r by (cases r) (auto split: if_splits)
  from Cons.IH [OF this] r show ?case by auto
qed

lemma merge_statements_spliced:
  assumes "mapE self xs = Inr rs" and "walked \<noteq> [] \<or> xs = [] \<or> splice (hd rs) \<noteq> []"
  shows "merge_statements self walked xs = Inr (walked @ concat (map splice rs))"
  using assms
proof (induction xs arbitrary: walked rs)
  case Nil
  then show ?case by simp
next
  case (Cons x xs)
  from Cons.prems(1) obtain r rs' where
    r: "self x = Inr r" and rs': "mapE self xs = Inr rs'" and rs: "rs = r # rs'"
    by (auto simp: bindE_eq_Inr)
  have "walked @ splice r \<noteq> []" using Cons.prems(2) rs by auto
  with rs' have "merge_statements self (walked @ splice r) xs =
      Inr ((walked @ splice r) @ concat (map splice rs'))"
    by (intro Cons.IH) auto
  with r rs \<open>walked @ splice r \<noteq> []\<close> show ?case by (cases r) auto
qed

lemma merge_statements_all:
  assumes "merge_statements self [] xs = Inr zs"
    and "\<And>x r. x \<in> set xs \<Longrightarrow> self x = Inr r \<Longrightarrow> \<forall>y \<in> set (splice r). Q y"
  shows "\<forall>z \<in> set zs. Q z"
proof -
  obtain rs where rs: "mapE self xs = Inr rs" and zs: "zs = concat (map splice rs)"
    using merge_statements_result [OF assms(1)] by auto
  have "\<forall>r \<in> set rs. \<forall>y \<in> set (splice r). Q y"
    using rs by (rule mapE_pred) (rule assms(2))
  with zs show ?thesis by auto
qed

definition flat_child :: "ast \<Rightarrow> bool" where
  "flat_child x \<longleftrightarrow> flat x \<and> \<not> is_statements x"

lemma splice_flat: "flat r \<Longrightarrow> \<forall>y \<in> set (splice r). flat_child y"
  by (cases r) (auto simp: flat_child_def list_all_iff)

lemma fold_singleton_flat: "\<forall>z \<in> set zs. flat_child z \<Longrightarrow> flat (fold_singleton zs)"
  by (cases zs rule: remdups_adj.cases) (auto simp: fold_singleton_def flat_child_def list_all_iff)

section \<open>Contracts\<close>

text \<open>
  A pass that keeps its walker inside smaller trees computes a function \<open>R\<close>: if the walker
  agrees with \<open>R\<close> below the node, one dispatch agrees with \<open>R\<close> at the node.
\<close>

locale expr_pass_spec =
  fixes P :: expr_pass and R :: "expr \<Rightarrow> expr res"
  assumes dispatch_spec:
    "(\<And>e'. size e' < size e \<Longrightarrow> self e' = R e') \<Longrightarrow> expr_dispatch P self e = R e"
begin

lemma walk_spec: "size e < fuel \<Longrightarrow> expr_walk P fuel e = R e"
proof (induction fuel arbitrary: e)
  case 0
  then show ?case by simp
next
  case (Suc fuel)
  have "expr_dispatch P (expr_walk P fuel) e = R e"
    by (rule dispatch_spec) (use Suc in simp)
  then show ?case by simp
qed

lemma process_spec: "expr_process P e = R e"
  by (simp add: expr_process_def walk_spec del: expr_walk.simps)

end

text \<open>
  A statement pass whose \<open>process_node\<close> overloads do not call the walker and keep the kind of an
  inner node: the fuel of the walk is irrelevant once it exceeds the size of the tree, so the
  walk satisfies the recursion equations of the C++ methods.
\<close>

locale shape_preserving_pass =
  fixes h :: "ast \<Rightarrow> ast res"
  assumes statements_shape: "h (Statements xs) = Inr a \<Longrightarrow>
      \<exists>ys. a = Statements ys \<and> (\<forall>y \<in> set ys. size y < size (Statements xs))"
    and if_shape: "h (IfBlock c t e) = Inr a \<Longrightarrow> \<exists>c'. a = IfBlock c' t e"
    and for_shape: "h (ForBlock k v i b e) = Inr a \<Longrightarrow> \<exists>i'. a = ForBlock k v i' b e"
begin

lemma dispatch_cong:
  assumes "\<And>a'. size a' < size a \<Longrightarrow> self a' = self' a'"
  shows "ast_dispatch (\<lambda>_. h) self a = ast_dispatch (\<lambda>_. h) self' a"
proof (cases a)
  case (Statements xs)
  have "merge_statements self done ys = merge_statements self' done ys"
    if "\<forall>y \<in> set ys. size y < size a" for "done" ys
    using that by (induction ys arbitrary: "done")
      (auto simp: assms bindE_def split: sum.split ast.split)
  with Statements statements_shape [of xs] show ?thesis
    by (cases "h a") (force simp: ast_dispatch_def walk_statements_def)+
next
  case (IfBlock c t e)
  have "optE self p = optE self' p" if "p \<in> {t, e}" for p
    using that IfBlock by (cases p) (auto simp: assms)
  with IfBlock if_shape [of c t e] show ?thesis
    by (cases "h a") (force simp: ast_dispatch_def walk_if_block_def)+
next
  case (ForBlock k v i b e)
  have "optE self p = optE self' p" if "p \<in> {b, e}" for p
    using that ForBlock by (cases p) (auto simp: assms)
  with ForBlock for_shape [of k v i b e] show ?thesis
    by (cases "h a") (force simp: ast_dispatch_def walk_for_block_def)+
qed (simp_all add: ast_dispatch_def)

lemma walk_fuel:
  "size a < n \<Longrightarrow> size a < m \<Longrightarrow> ast_walk (\<lambda>_. h) n a = ast_walk (\<lambda>_. h) m a"
proof (induction n arbitrary: a m)
  case 0
  then show ?case by simp
next
  case (Suc n)
  then obtain m' where m: "m = Suc m'" by (cases m) auto
  have "ast_dispatch (\<lambda>_. h) (ast_walk (\<lambda>_. h) n) a = ast_dispatch (\<lambda>_. h) (ast_walk (\<lambda>_. h) m') a"
  proof (rule dispatch_cong)
    fix a' :: ast assume "size a' < size a"
    with Suc.prems m show "ast_walk (\<lambda>_. h) n a' = ast_walk (\<lambda>_. h) m' a'"
      by (intro Suc.IH) simp_all
  qed
  with m show ?case by simp
qed

lemma process_unfold: "ast_process (\<lambda>_. h) a = ast_dispatch (\<lambda>_. h) (ast_process (\<lambda>_. h)) a"
proof -
  have "ast_dispatch (\<lambda>_. h) (ast_walk (\<lambda>_. h) (size a)) a =
    ast_dispatch (\<lambda>_. h) (\<lambda>b. ast_walk (\<lambda>_. h) (Suc (size b)) b) a"
    by (rule dispatch_cong, rule walk_fuel) simp_all
  then show ?thesis by (simp only: ast_process_def [abs_def] ast_walk.simps)
qed

lemma process_statements:
  "ast_process (\<lambda>_. h) (Statements xs) =
     bindE (h (Statements xs)) (\<lambda>new_ast. case new_ast of
         Statements ys \<Rightarrow> bindE (merge_statements (ast_process (\<lambda>_. h)) [] ys) (\<lambda>zs. Inr (fold_singleton zs))
       | _ \<Rightarrow> ast_process (\<lambda>_. h) new_ast)"
  by (subst process_unfold) (simp add: ast_dispatch_def walk_statements_def)

lemma process_if:
  "ast_process (\<lambda>_. h) (IfBlock c t e) =
     bindE (h (IfBlock c t e)) (\<lambda>new_ast. case new_ast of
         IfBlock c' t' e' \<Rightarrow> bindE (optE (ast_process (\<lambda>_. h)) t') (\<lambda>t''.
           bindE (optE (ast_process (\<lambda>_. h)) e') (\<lambda>e''. Inr (IfBlock c' t'' e'')))
       | _ \<Rightarrow> ast_process (\<lambda>_. h) new_ast)"
  by (subst process_unfold) (simp add: ast_dispatch_def walk_if_block_def)

lemma process_for:
  "ast_process (\<lambda>_. h) (ForBlock k v i b e) =
     bindE (h (ForBlock k v i b e)) (\<lambda>new_ast. case new_ast of
         ForBlock k' v' i' b' e' \<Rightarrow> bindE (optE (ast_process (\<lambda>_. h)) b') (\<lambda>b''.
           bindE (optE (ast_process (\<lambda>_. h)) e') (\<lambda>e''. Inr (ForBlock k' v' i' b'' e'')))
       | _ \<Rightarrow> ast_process (\<lambda>_. h) new_ast)"
  by (subst process_unfold) (simp add: ast_dispatch_def walk_for_block_def)

lemma process_leaf:
  "ast_process (\<lambda>_. h) (RawBlock t) = h (RawBlock t)"
  "ast_process (\<lambda>_. h) (PrintBlock e) = h (PrintBlock e)"
  "ast_process (\<lambda>_. h) (IncludeBlock n s m) = h (IncludeBlock n s m)"
  by (subst process_unfold, simp add: ast_dispatch_def)+

lemmas process_simps = process_statements process_if process_for process_leaf

text \<open>
  The tree that the walk returns has no statement list directly inside another one and none of
  length one, whatever the argument was.
\<close>

lemma process_flat:
  assumes leaf: "\<And>t r. h (RawBlock t) = Inr r \<Longrightarrow> flat r"
    "\<And>e r. h (PrintBlock e) = Inr r \<Longrightarrow> flat r"
    "\<And>n s m r. h (IncludeBlock n s m) = Inr r \<Longrightarrow> flat r"
  shows "ast_process (\<lambda>_. h) a = Inr r \<Longrightarrow> flat r"
proof (induction a arbitrary: r rule: measure_induct_rule [where f = size])
  case (less a)
  show ?case
  proof (cases a)
    case (Statements xs)
    with less.prems obtain new where "h a = Inr new"
      by (auto simp: process_statements bindE_eq_Inr)
    with Statements statements_shape obtain ys where
      ys: "h a = Inr (Statements ys)" "\<forall>y \<in> set ys. size y < size a" by blast
    with Statements less.prems obtain zs where
      "merge_statements (ast_process (\<lambda>_. h)) [] ys = Inr zs" "r = fold_singleton zs"
      by (auto simp: process_statements bindE_eq_Inr)
    moreover from this(1) have "\<forall>z \<in> set zs. flat_child z"
      by (rule merge_statements_all) (use ys less.IH splice_flat in blast)
    ultimately show ?thesis by (simp add: fold_singleton_flat)
  next
    case (IfBlock c t e)
    with less.prems if_shape obtain c' t' e' where "r = IfBlock c' t' e'"
      "optE (ast_process (\<lambda>_. h)) t = Inr t'" "optE (ast_process (\<lambda>_. h)) e = Inr e'"
      by (fastforce simp: process_if bindE_eq_Inr)
    moreover from this(2) have "pred_option flat t'"
      by (rule optE_pred) (erule less.IH [rotated], use IfBlock in simp)
    moreover from calculation(3) have "pred_option flat e'"
      by (rule optE_pred) (erule less.IH [rotated], use IfBlock in simp)
    ultimately show ?thesis by simp
  next
    case (ForBlock k v i b e)
    with less.prems for_shape obtain k' v' i' b' e' where "r = ForBlock k' v' i' b' e'"
      "optE (ast_process (\<lambda>_. h)) b = Inr b'" "optE (ast_process (\<lambda>_. h)) e = Inr e'"
      by (fastforce simp: process_for bindE_eq_Inr)
    moreover from this(2) have "pred_option flat b'"
      by (rule optE_pred) (erule less.IH [rotated], use ForBlock in simp)
    moreover from calculation(3) have "pred_option flat e'"
      by (rule optE_pred) (erule less.IH [rotated], use ForBlock in simp)
    ultimately show ?thesis by simp
  qed (use less.prems leaf in \<open>auto simp: process_leaf\<close>)
qed

text \<open>
  A pass takes trees whose nodes satisfy \<open>q\<close> to trees whose nodes satisfy \<open>p\<close>, if its overloads
  do so node by node.
\<close>

lemma process_all_nodes:
  assumes statements: "\<And>xs. p (Statements xs)"
      "\<And>xs ys. h (Statements xs) = Inr (Statements ys) \<Longrightarrow> \<forall>x \<in> set xs. all_nodes q x \<Longrightarrow>
         \<forall>y \<in> set ys. all_nodes q y"
    and inner: "\<And>c c' t e t' e'. q (IfBlock c t e) \<Longrightarrow> h (IfBlock c t e) = Inr (IfBlock c' t e) \<Longrightarrow>
         p (IfBlock c' t' e')"
      "\<And>k v i i' b e b' e'. q (ForBlock k v i b e) \<Longrightarrow>
         h (ForBlock k v i b e) = Inr (ForBlock k v i' b e) \<Longrightarrow> p (ForBlock k v i' b' e')"
    and leaf: "\<And>t r. q (RawBlock t) \<Longrightarrow> h (RawBlock t) = Inr r \<Longrightarrow> all_nodes p r"
      "\<And>e r. q (PrintBlock e) \<Longrightarrow> h (PrintBlock e) = Inr r \<Longrightarrow> all_nodes p r"
      "\<And>n s m r. q (IncludeBlock n s m) \<Longrightarrow> h (IncludeBlock n s m) = Inr r \<Longrightarrow> all_nodes p r"
  shows "all_nodes q a \<Longrightarrow> ast_process (\<lambda>_. h) a = Inr r \<Longrightarrow> all_nodes p r"
proof (induction a arbitrary: r rule: measure_induct_rule [where f = size])
  case (less a)
  show ?case
  proof (cases a)
    case (Statements xs)
    with less.prems obtain new where "h a = Inr new"
      by (auto simp: process_statements bindE_eq_Inr)
    with Statements statements_shape obtain ys where
      ys: "h a = Inr (Statements ys)" "\<forall>y \<in> set ys. size y < size a" by blast
    with Statements less.prems obtain zs where
      zs: "merge_statements (ast_process (\<lambda>_. h)) [] ys = Inr zs" and r: "r = fold_singleton zs"
      by (auto simp: process_statements bindE_eq_Inr)
    have qs: "\<forall>y \<in> set ys. all_nodes q y"
      by (rule statements(2)) (use Statements ys less.prems(1) in \<open>auto simp: list_all_iff\<close>)
    from zs have "\<forall>z \<in> set zs. all_nodes p z"
    proof (rule merge_statements_all)
      fix y r' assume "y \<in> set ys" "ast_process (\<lambda>_. h) y = Inr r'"
      with qs ys(2) less.IH have "all_nodes p r'" by blast
      then show "\<forall>z \<in> set (splice r'). all_nodes p z" by (cases r') (auto simp: list_all_iff)
    qed
    with r statements(1) show ?thesis by (auto simp: fold_singleton_def list_all_iff split: list.split)
  next
    case (IfBlock c t e)
    with less.prems(2) if_shape obtain c' t' e' where h: "h a = Inr (IfBlock c' t e)"
      and r: "r = IfBlock c' t' e'"
      and opt: "optE (ast_process (\<lambda>_. h)) t = Inr t'" "optE (ast_process (\<lambda>_. h)) e = Inr e'"
      by (fastforce simp: process_if bindE_eq_Inr)
    have "pred_option (all_nodes p) t'" using opt(1)
      by (rule optE_pred) (erule less.IH [rotated 2], use less.prems(1) IfBlock in auto)
    moreover have "pred_option (all_nodes p) e'" using opt(2)
      by (rule optE_pred) (erule less.IH [rotated 2], use less.prems(1) IfBlock in auto)
    ultimately show ?thesis using r h IfBlock less.prems(1) inner(1) by auto
  next
    case (ForBlock k v i b e)
    with less.prems(2) for_shape obtain i' b' e' where h: "h a = Inr (ForBlock k v i' b e)"
      and r: "r = ForBlock k v i' b' e'"
      and opt: "optE (ast_process (\<lambda>_. h)) b = Inr b'" "optE (ast_process (\<lambda>_. h)) e = Inr e'"
      by (fastforce simp: process_for bindE_eq_Inr)
    have "pred_option (all_nodes p) b'" using opt(1)
      by (rule optE_pred) (erule less.IH [rotated 2], use less.prems(1) ForBlock in auto)
    moreover have "pred_option (all_nodes p) e'" using opt(2)
      by (rule optE_pred) (erule less.IH [rotated 2], use less.prems(1) ForBlock in auto)
    ultimately show ?thesis using r h ForBlock less.prems(1) inner(2) by auto
  qed (use less.prems leaf in \<open>auto simp: process_leaf\<close>)
qed

lemma process_failure:
  assumes h: "\<And>a k. h a = Inl k \<Longrightarrow> Q k" and iter: "Q (Undefined IteratorBeforeBegin)"
  shows "ast_process (\<lambda>_. h) a = Inl k \<Longrightarrow> Q k"
proof (induction a arbitrary: k rule: measure_induct_rule [where f = size])
  case (less a)
  have opt: "Q k" if "optE (ast_process (\<lambda>_. h)) p = Inl k" "\<And>x. p = Some x \<Longrightarrow> size x < size a" for p
    using that less.IH by (cases p) (auto simp: bindE_eq_Inl)
  have merge: "Q k" if "merge_statements (ast_process (\<lambda>_. h)) walked ys = Inl k"
      "\<forall>y \<in> set ys. size y < size a" for walked ys
    using that
  proof (induction ys arbitrary: walked)
    case (Cons y ys)
    then show ?case using less.IH [of y k] iter
      by (cases "ast_process (\<lambda>_. h) y") (auto split: ast.splits if_splits)
  qed simp
  show ?case
  proof (cases a)
    case (Statements xs)
    with less.prems h merge statements_shape [of xs] show ?thesis
      by (cases "h a") (force simp: process_statements bindE_eq_Inl)+
  next
    case (IfBlock c t e)
    with less.prems opt [of t] opt [of e] h if_shape [of c t e] show ?thesis
      by (cases "h a") (auto simp: process_if bindE_eq_Inl)
  next
    case (ForBlock k v i b e)
    with less.prems opt [of b] opt [of e] h for_shape [of k v i b e] show ?thesis
      by (cases "h a") (auto simp: process_for bindE_eq_Inl)
  qed (use less.prems h in \<open>simp_all add: process_leaf\<close>)
qed

lemma process_returns: "(\<And>a. h a \<noteq> Inl Diverges) \<Longrightarrow> ast_process (\<lambda>_. h) a \<noteq> Inl Diverges"
  using process_failure [of "\<lambda>k. k \<noteq> Diverges"] by blast

end

text \<open>A pass whose overloads call the walker: more fuel never changes an outcome.\<close>

locale monotone_pass =
  fixes P :: ast_pass
  assumes monotone: "extends self self' \<Longrightarrow> extends (P self) (P self')"
begin

lemma merge_extends:
  "extends self self' \<Longrightarrow> merge_statements self walked xs \<noteq> Inl Diverges \<Longrightarrow>
     merge_statements self' walked xs = merge_statements self walked xs"
proof (induction xs arbitrary: walked)
  case Nil
  then show ?case by simp
next
  case (Cons x xs)
  from Cons.prems(2) have "self x \<noteq> Inl Diverges" by auto
  with Cons.prems(1) have eq: "self' x = self x" by (rule extendsD)
  show ?case
  proof (cases "self x")
    case (Inr r)
    with Cons eq show ?thesis by (cases r) auto
  qed (simp add: eq)
qed

lemma dispatch_extends:
  assumes self: "extends self self'"
  shows "extends (ast_dispatch P self) (ast_dispatch P self')"
  unfolding extends_def
proof (intro allI impI)
  fix a assume ndiv: "ast_dispatch P self a \<noteq> Inl Diverges"
  have P: "P self' a = P self a" if "P self a \<noteq> Inl Diverges"
    using extendsD [OF monotone [OF self] that] .
  note eqs = self [THEN extendsD] extends_optE [OF self] merge_extends [OF self]
  show "ast_dispatch P self' a = ast_dispatch P self a"
    using ndiv P
    by (cases "P self a"; cases a)
      (auto simp: ast_dispatch_def walk_statements_def walk_if_block_def walk_for_block_def
        split: ast.splits elim!: extends_bindE [rotated -1] intro!: eqs)
qed

lemma walk_extends: "n \<le> m \<Longrightarrow> extends (ast_walk P n) (ast_walk P m)"
proof (induction m arbitrary: n)
  case 0
  then show ?case by simp
next
  case (Suc m)
  show ?case
  proof (cases n)
    case 0
    then show ?thesis by (simp add: extends_def)
  next
    case (Suc n')
    with Suc.prems have "extends (ast_walk P n') (ast_walk P m)" by (intro Suc.IH) simp
    from dispatch_extends [OF this] Suc show ?thesis by (simp add: extends_def)
  qed
qed

end

end
