(* ===== verification/Fold_Pass.thy ===== *)
theory Fold_Pass
  imports Pass_Walk
begin

text \<open>
  Constant folding: \<open>lib/ast/passes/fold_constant_expressions_pass.cpp\<close>.  The three overloads of
  \<open>process_node\<close> fold the operands themselves, through the walker, before the walker visits
  them again; \<open>fold_ref\<close> is the single bottom-up traversal that this amounts to.
\<close>

section \<open>Literals\<close>

fun isLiteralExpression :: "expr \<Rightarrow> bool" where
  "isLiteralExpression (DoubleLiteral _) = True"
| "isLiteralExpression (IntegerLiteral _) = True"
| "isLiteralExpression (BooleanLiteral _) = True"
| "isLiteralExpression (StringLiteral _) = True"
| "isLiteralExpression _ = False"

fun isDoubleLiteralExpression :: "expr \<Rightarrow> bool" where
  "isDoubleLiteralExpression (DoubleLiteral _) = True"
| "isDoubleLiteralExpression _ = False"

fun isNumericLiteralExpression :: "expr \<Rightarrow> bool" where
  "isNumericLiteralExpression (DoubleLiteral _) = True"
| "isNumericLiteralExpression (IntegerLiteral _) = True"
| "isNumericLiteralExpression _ = False"

fun isBooleanLiteralExpression :: "expr \<Rightarrow> bool" where
  "isBooleanLiteralExpression (BooleanLiteral _) = True"
| "isBooleanLiteralExpression _ = False"

fun isStringLiteralExpression :: "expr \<Rightarrow> bool" where
  "isStringLiteralExpression (StringLiteral _) = True"
| "isStringLiteralExpression _ = False"

text \<open>
  The macro \<open>NUMERIC_VALUE\<close>: its conditional expression has the common type \<open>double\<close>, so an
  integer literal is converted.  Any other node is read as if it were a double literal.
\<close>

fun numeric_value :: "expr \<Rightarrow> double res" where
  "numeric_value (IntegerLiteral v) = Inr (double_of_long v)"
| "numeric_value (DoubleLiteral v) = Inr v"
| "numeric_value _ = Inl (Undefined TypeConfusion)"

text \<open>\<open>static_cast<IntegerLiteralExpression*>(e)->value\<close> and its siblings.\<close>

fun integer_value :: "expr \<Rightarrow> long res" where
  "integer_value (IntegerLiteral v) = Inr v"
| "integer_value _ = Inl (Undefined TypeConfusion)"

fun boolean_value :: "expr \<Rightarrow> bool res" where
  "boolean_value (BooleanLiteral v) = Inr v"
| "boolean_value _ = Inl (Undefined TypeConfusion)"

fun string_value :: "expr \<Rightarrow> string res" where
  "string_value (StringLiteral v) = Inr v"
| "string_value _ = Inl (Undefined TypeConfusion)"

section \<open>Binary operations\<close>

definition fold_double_binary :: "expr \<Rightarrow> expr \<Rightarrow> binary_op \<Rightarrow> expr res" where
  "fold_double_binary left right op =
     bindE (numeric_value left) (\<lambda>l. bindE (numeric_value right) (\<lambda>r.
       case op of
         Addition \<Rightarrow> Inr (DoubleLiteral (dadd l r))
       | Subtraction \<Rightarrow> Inr (DoubleLiteral (dsub l r))
       | Multiplication \<Rightarrow> Inr (DoubleLiteral (dmul l r))
       | Division \<Rightarrow> Inr (DoubleLiteral (ddiv l r))
       | Modulus \<Rightarrow> Inr (BinaryOperation left right op)))"

definition fold_integer_binary :: "expr \<Rightarrow> expr \<Rightarrow> binary_op \<Rightarrow> expr res" where
  "fold_integer_binary left right op =
     bindE (integer_value left) (\<lambda>leftValue. bindE (integer_value right) (\<lambda>rightValue.
       case op of
         Addition \<Rightarrow> bindE (long_add leftValue rightValue) (\<lambda>v. Inr (IntegerLiteral v))
       | Subtraction \<Rightarrow> bindE (long_sub leftValue rightValue) (\<lambda>v. Inr (IntegerLiteral v))
       | Multiplication \<Rightarrow> bindE (long_mul leftValue rightValue) (\<lambda>v. Inr (IntegerLiteral v))
       | Division \<Rightarrow>
           if rightValue = 0 then Inl (Throws (RuntimeError ''Division by zero''))
           else bindE (long_div leftValue rightValue) (\<lambda>v. Inr (IntegerLiteral v))
       | Modulus \<Rightarrow>
           if rightValue = 0 then Inl (Throws (RuntimeError ''Modulo by zero''))
           else bindE (long_mod leftValue rightValue) (\<lambda>v. Inr (IntegerLiteral v))))"

text \<open>The part of the overload that follows the folding of the operands.\<close>

definition fold_binary_node :: "expr \<Rightarrow> expr \<Rightarrow> binary_op \<Rightarrow> expr res" where
  "fold_binary_node left right op =
     (if \<not> isNumericLiteralExpression left \<or> \<not> isNumericLiteralExpression right
      then Inr (BinaryOperation left right op)
      else if isDoubleLiteralExpression left \<or> isDoubleLiteralExpression right
      then fold_double_binary left right op
      else fold_integer_binary left right op)"

text \<open>
  \<open>fold_operand p process e\<close>: the operand is kept when \<open>p\<close> already holds for it, else it is
  folded through the walker.
\<close>

definition fold_operand :: "(expr \<Rightarrow> bool) \<Rightarrow> (expr \<Rightarrow> expr res) \<Rightarrow> expr \<Rightarrow> expr res" where
  "fold_operand p process e = (if p e then Inr e else process e)"

definition process_binary ::
    "(expr \<Rightarrow> expr res) \<Rightarrow> expr \<Rightarrow> expr \<Rightarrow> binary_op \<Rightarrow> expr res" where
  "process_binary process left right op =
     bindE (fold_operand isNumericLiteralExpression process left) (\<lambda>left.
       bindE (fold_operand isNumericLiteralExpression process right) (\<lambda>right.
         fold_binary_node left right op))"

section \<open>Unary operations\<close>

definition fold_unary_numeric :: "expr \<Rightarrow> unary_op \<Rightarrow> expr res" where
  "fold_unary_numeric sub_expr op =
     (let multiplier = (if op = NumericNegative then - 1 else 1 :: int)
      in case sub_expr of
           DoubleLiteral oldValue \<Rightarrow>
             Inr (DoubleLiteral (dmul oldValue (double_of_int multiplier)))
         | IntegerLiteral oldValue \<Rightarrow>
             bindE (long_mul oldValue (word_of_int multiplier)) (\<lambda>v. Inr (IntegerLiteral v))
         | _ \<Rightarrow> Inr (UnaryOperation sub_expr op))"

definition fold_unary_boolean :: "expr \<Rightarrow> expr res" where
  "fold_unary_boolean sub_expr =
     (case sub_expr of
        BooleanLiteral oldValue \<Rightarrow> Inr (BooleanLiteral (\<not> oldValue))
      | _ \<Rightarrow> Inr (UnaryOperation sub_expr BooleanNegation))"

definition fold_unary_node :: "expr \<Rightarrow> unary_op \<Rightarrow> expr res" where
  "fold_unary_node sub_expr op =
     (if op = BooleanNegation then fold_unary_boolean sub_expr else fold_unary_numeric sub_expr op)"

definition process_unary :: "(expr \<Rightarrow> expr res) \<Rightarrow> expr \<Rightarrow> unary_op \<Rightarrow> expr res" where
  "process_unary process sub_expr op =
     bindE (fold_operand (if op = BooleanNegation then isBooleanLiteralExpression
                          else isNumericLiteralExpression) process sub_expr)
       (\<lambda>sub_expr. fold_unary_node sub_expr op)"

section \<open>Comparisons\<close>

definition fold_equality :: "expr \<Rightarrow> expr \<Rightarrow> comparison_op \<Rightarrow> expr res" where
  "fold_equality left right op =
     (let result = (\<lambda>same. Inr (BooleanLiteral (if op = NotEqual then \<not> same else same)))
      in if isNumericLiteralExpression left \<and> isNumericLiteralExpression right
         then bindE (numeric_value left) (\<lambda>l. bindE (numeric_value right) (\<lambda>r. result (deq l r)))
         else if isBooleanLiteralExpression left \<and> isBooleanLiteralExpression right
         then bindE (boolean_value left) (\<lambda>l. bindE (boolean_value right) (\<lambda>r. result (l = r)))
         else if isStringLiteralExpression left \<and> isStringLiteralExpression right
         then bindE (string_value left) (\<lambda>l. bindE (string_value right) (\<lambda>r. result (l = r)))
         else Inr (Comparison left right op))"

fun compare_doubles :: "comparison_op \<Rightarrow> double \<Rightarrow> double \<Rightarrow> bool" where
  "compare_doubles GreaterThan l r = dlt r l"
| "compare_doubles GreaterOrEqual l r = dle r l"
| "compare_doubles LessThan l r = dlt l r"
| "compare_doubles LessOrEqual l r = dle l r"
| "compare_doubles Equal l r = deq l r"
| "compare_doubles NotEqual l r = (\<not> deq l r)"
| "compare_doubles _ l r = False"

definition fold_relational :: "expr \<Rightarrow> expr \<Rightarrow> comparison_op \<Rightarrow> expr res" where
  "fold_relational left right op =
     (if \<not> isNumericLiteralExpression left \<and> \<not> isNumericLiteralExpression right
      then Inr (Comparison left right op)
      else bindE (numeric_value left) (\<lambda>l. bindE (numeric_value right) (\<lambda>r.
             Inr (BooleanLiteral (compare_doubles op l r)))))"

text \<open>\<open>||\<close> and \<open>&&\<close> of C++ read their right operand only when the left one does not decide.\<close>

definition fold_logical :: "expr \<Rightarrow> expr \<Rightarrow> comparison_op \<Rightarrow> expr res" where
  "fold_logical left right op =
     (if \<not> isBooleanLiteralExpression left \<and> \<not> isBooleanLiteralExpression right
      then Inr (Comparison left right op)
      else bindE (boolean_value left) (\<lambda>l.
             if op = Or \<and> l then Inr (BooleanLiteral True)
             else if op = And \<and> \<not> l then Inr (BooleanLiteral False)
             else bindE (boolean_value right) (\<lambda>r. Inr (BooleanLiteral r))))"

definition fold_comparison_node :: "expr \<Rightarrow> expr \<Rightarrow> comparison_op \<Rightarrow> expr res" where
  "fold_comparison_node left right op =
     (if \<not> isLiteralExpression left \<or> \<not> isLiteralExpression right
      then Inr (Comparison left right op)
      else if op \<in> {Equal, NotEqual} then fold_equality left right op
      else if op \<in> {Or, And} then fold_logical left right op
      else fold_relational left right op)"

definition process_comparison ::
    "(expr \<Rightarrow> expr res) \<Rightarrow> expr \<Rightarrow> expr \<Rightarrow> comparison_op \<Rightarrow> expr res" where
  "process_comparison process left right op =
     bindE (fold_operand isLiteralExpression process left) (\<lambda>left.
       bindE (fold_operand isLiteralExpression process right) (\<lambda>right.
         fold_comparison_node left right op))"

section \<open>The pass\<close>

definition FoldConstantExpressionsPass :: expr_pass where
  "FoldConstantExpressionsPass process expr =
     (case expr of
        BinaryOperation left right op \<Rightarrow> process_binary process left right op
      | UnaryOperation sub_expr op \<Rightarrow> process_unary process sub_expr op
      | Comparison left right op \<Rightarrow> process_comparison process left right op
      | _ \<Rightarrow> Inr expr)"

section \<open>The reference function\<close>

lemma walk_arguments_cong [fundef_cong]:
  assumes "xs = ys" "\<And>p e. p \<in> set ys \<Longrightarrow> p = Some e \<Longrightarrow> f e = g e"
  shows "walk_arguments f xs = walk_arguments g ys"
  unfolding walk_arguments_def assms(1)
  by (rule mapE_cong [OF refl]) (auto intro: derefE_cong simp: assms(2))

fun fold_ref :: "expr \<Rightarrow> expr res" where
  "fold_ref (GetAttribute v a) = bindE (fold_ref v) (\<lambda>v. Inr (GetAttribute v a))"
| "fold_ref (MethodCall m args) =
     bindE (walk_arguments fold_ref args) (\<lambda>as. Inr (MethodCall m as))"
| "fold_ref (BinaryOperation l r op) =
     bindE (fold_ref l) (\<lambda>l. bindE (fold_ref r) (\<lambda>r. fold_binary_node l r op))"
| "fold_ref (UnaryOperation e op) = bindE (fold_ref e) (\<lambda>e. fold_unary_node e op)"
| "fold_ref (Comparison l r op) =
     bindE (fold_ref l) (\<lambda>l. bindE (fold_ref r) (\<lambda>r. fold_comparison_node l r op))"
| "fold_ref e = Inr e"

section \<open>One traversal is enough\<close>

lemmas fold_node_defs =
  fold_binary_node_def fold_double_binary_def fold_integer_binary_def
  fold_unary_node_def fold_unary_numeric_def fold_unary_boolean_def
  fold_comparison_node_def fold_equality_def fold_relational_def fold_logical_def

lemma fold_ref_literal [simp]: "isLiteralExpression e \<Longrightarrow> fold_ref e = Inr e"
  by (cases e) auto

lemma size_literal [simp]: "isLiteralExpression e \<Longrightarrow> size e = 0"
  by (cases e) auto

lemma numeric_is_literal [simp]: "isNumericLiteralExpression e \<Longrightarrow> isLiteralExpression e"
  by (cases e) auto

lemma boolean_is_literal [simp]: "isBooleanLiteralExpression e \<Longrightarrow> isLiteralExpression e"
  by (cases e) auto

lemma fold_binary_node_cases:
  "fold_binary_node l r op = Inr e' \<Longrightarrow> isLiteralExpression e' \<or> e' = BinaryOperation l r op"
  by (cases op) (auto simp: fold_binary_node_def fold_double_binary_def fold_integer_binary_def
      bindE_eq_Inr split: if_splits)

lemma fold_unary_node_cases:
  "fold_unary_node e op = Inr e' \<Longrightarrow> isLiteralExpression e' \<or> e' = UnaryOperation e op"
  by (cases e) (auto simp: fold_unary_node_def fold_unary_numeric_def fold_unary_boolean_def
      bindE_eq_Inr Let_def split: if_splits)

lemma fold_comparison_node_cases:
  "fold_comparison_node l r op = Inr e' \<Longrightarrow> isLiteralExpression e' \<or> e' = Comparison l r op"
  by (auto simp: fold_comparison_node_def fold_equality_def fold_relational_def fold_logical_def
      bindE_eq_Inr Let_def split: if_splits)

lemma walk_arguments_Cons:
  "walk_arguments f (p # ps) =
     derefE p (\<lambda>e. bindE (f e) (\<lambda>e'. bindE (walk_arguments f ps) (\<lambda>qs. Inr (Some e' # qs))))"
  by (cases p) (auto simp: walk_arguments_def bindE_assoc)

lemma walk_arguments_Nil [simp]: "walk_arguments f [] = Inr []"
  by (simp add: walk_arguments_def)

lemma walk_arguments_settled:
  assumes "\<And>p e e'. p \<in> set ps \<Longrightarrow> p = Some e \<Longrightarrow> f e = Inr e' \<Longrightarrow> size e' \<le> size e \<and> f e' = Inr e'"
    and "walk_arguments f ps = Inr qs"
  shows "size_list (size_option size) qs \<le> size_list (size_option size) ps \<and>
    walk_arguments f qs = Inr qs"
  using assms
proof (induction ps arbitrary: qs)
  case Nil
  then show ?case by simp
next
  case (Cons p ps)
  from Cons.prems(2) obtain e e' qs' where
    p: "p = Some e" and e': "f e = Inr e'" and qs': "walk_arguments f ps = Inr qs'"
    and qs: "qs = Some e' # qs'"
    by (cases p) (auto simp: walk_arguments_Cons bindE_eq_Inr)
  have "size e' \<le> size e \<and> f e' = Inr e'" using Cons.prems(1) [of p e e'] p e' by simp
  moreover have "size_list (size_option size) qs' \<le> size_list (size_option size) ps \<and>
      walk_arguments f qs' = Inr qs'"
    using Cons.prems(1) qs' by (intro Cons.IH) auto
  ultimately show ?case by (simp add: p qs walk_arguments_Cons)
qed

text \<open>Folding does not grow the tree, and folding the result again changes nothing.\<close>

lemma fold_ref_settled: "fold_ref e = Inr e' \<Longrightarrow> size e' \<le> size e \<and> fold_ref e' = Inr e'"
proof (induction e arbitrary: e')
  case (GetAttribute v a)
  from GetAttribute.prems obtain v' where "fold_ref v = Inr v'" "e' = GetAttribute v' a" by (auto simp: bindE_eq_Inr)
  with GetAttribute.IH [of v'] show ?case by simp
next
  case (MethodCall m args)
  from MethodCall.prems obtain as where "walk_arguments fold_ref args = Inr as" "e' = MethodCall m as"
    by (auto simp: bindE_eq_Inr)
  with walk_arguments_settled [of args fold_ref as] MethodCall.IH show ?case by simp
next
  case (BinaryOperation l r op)
  from BinaryOperation.prems obtain l' r' where l: "fold_ref l = Inr l'" and r: "fold_ref r = Inr r'"
    and e': "fold_binary_node l' r' op = Inr e'"
    by (auto simp: bindE_eq_Inr)
  note IH = BinaryOperation.IH(1) [OF l] BinaryOperation.IH(2) [OF r]
  from fold_binary_node_cases [OF e'] show ?case
  proof
    assume "e' = BinaryOperation l' r' op"
    with IH e' show ?thesis by (simp add: add_mono)
  qed simp
next
  case (UnaryOperation u op)
  from UnaryOperation.prems obtain u' where u: "fold_ref u = Inr u'" and e': "fold_unary_node u' op = Inr e'"
    by (auto simp: bindE_eq_Inr)
  note IH = UnaryOperation.IH [OF u]
  from fold_unary_node_cases [OF e'] show ?case
  proof
    assume "e' = UnaryOperation u' op"
    with IH e' show ?thesis by simp
  qed simp
next
  case (Comparison l r op)
  from Comparison.prems obtain l' r' where l: "fold_ref l = Inr l'" and r: "fold_ref r = Inr r'"
    and e': "fold_comparison_node l' r' op = Inr e'"
    by (auto simp: bindE_eq_Inr)
  note IH = Comparison.IH(1) [OF l] Comparison.IH(2) [OF r]
  from fold_comparison_node_cases [OF e'] show ?case
  proof
    assume "e' = Comparison l' r' op"
    with IH e' show ?thesis by (simp add: add_mono)
  qed simp
qed auto

lemmas fold_ref_size = fold_ref_settled [THEN conjunct1]
  and fold_ref_idem = fold_ref_settled [THEN conjunct2]

lemma fold_operand_ref:
  assumes "\<And>e. p e \<Longrightarrow> isLiteralExpression e" and "self e = fold_ref e"
  shows "fold_operand p self e = fold_ref e"
  using assms by (simp add: fold_operand_def)

lemma fold_operand_ref_inst [simp]:
  assumes "self e = fold_ref e"
  shows "fold_operand isNumericLiteralExpression self e = fold_ref e"
    and "fold_operand isBooleanLiteralExpression self e = fold_ref e"
    and "fold_operand isLiteralExpression self e = fold_ref e"
  using assms by (simp_all add: fold_operand_def)

lemmas walk_method_defs = walk_get_attribute_def walk_method_call_def walk_binary_operation_def
  walk_unary_operation_def walk_comparison_def

interpretation fold: expr_pass_spec FoldConstantExpressionsPass fold_ref
proof unfold_locales
  fix e :: expr and self :: "expr \<Rightarrow> expr res"
  assume self: "\<And>e'. size e' < size e \<Longrightarrow> self e' = fold_ref e'"
  show "expr_dispatch FoldConstantExpressionsPass self e = fold_ref e"
  proof (cases e)
    case (MethodCall m args)
    have "walk_arguments self args = walk_arguments fold_ref args"
    proof (rule walk_arguments_cong [OF refl])
      fix p a assume "p \<in> set args" "p = Some a"
      then have "size a < size e"
        using size_list_estimation' [of p args _ "size_option size"] MethodCall by fastforce
      then show "self a = fold_ref a" by (rule self)
    qed
    with MethodCall show ?thesis
      by (simp add: expr_dispatch_def walk_method_call_def FoldConstantExpressionsPass_def)
  next
    case (BinaryOperation l r op)
    have settle: "\<And>x y. x \<in> {l, r} \<Longrightarrow> fold_ref x = Inr y \<Longrightarrow> self y = Inr y"
      using BinaryOperation fold_ref_size fold_ref_idem by (subst self) fastforce+
    have "self l = fold_ref l" "self r = fold_ref r"
      using BinaryOperation by (simp_all add: self)
    moreover have "\<And>x. isLiteralExpression x \<Longrightarrow> self x = Inr x"
      using BinaryOperation by (simp add: self)
    ultimately show ?thesis
      using BinaryOperation settle [of l] settle [of r]
      by (auto simp: expr_dispatch_def walk_binary_operation_def FoldConstantExpressionsPass_def
          process_binary_def bindE_def split: sum.split expr.split dest!: fold_binary_node_cases)
  next
    case (UnaryOperation u op)
    have settle: "\<And>y. fold_ref u = Inr y \<Longrightarrow> self y = Inr y"
      using UnaryOperation fold_ref_size fold_ref_idem by (subst self) fastforce+
    have "self u = fold_ref u"
      using UnaryOperation by (simp add: self)
    moreover have "\<And>x. isLiteralExpression x \<Longrightarrow> self x = Inr x"
      using UnaryOperation by (simp add: self)
    ultimately show ?thesis
      using UnaryOperation settle
      by (auto simp: expr_dispatch_def walk_unary_operation_def FoldConstantExpressionsPass_def
          process_unary_def bindE_def split: sum.split expr.split dest!: fold_unary_node_cases)
  next
    case (Comparison l r op)
    have settle: "\<And>x y. x \<in> {l, r} \<Longrightarrow> fold_ref x = Inr y \<Longrightarrow> self y = Inr y"
      using Comparison fold_ref_size fold_ref_idem by (subst self) fastforce+
    have "self l = fold_ref l" "self r = fold_ref r"
      using Comparison by (simp_all add: self)
    moreover have "\<And>x. isLiteralExpression x \<Longrightarrow> self x = Inr x"
      using Comparison by (simp add: self)
    ultimately show ?thesis
      using Comparison settle [of l] settle [of r]
      by (auto simp: expr_dispatch_def walk_comparison_def FoldConstantExpressionsPass_def
          process_comparison_def bindE_def split: sum.split expr.split dest!: fold_comparison_node_cases)
  qed (simp_all add: expr_dispatch_def walk_get_attribute_def FoldConstantExpressionsPass_def self)
qed

end
