(* ===== verification/Raw_Passes.thy ===== *)
theory Raw_Passes
  imports Fold_Pass
begin

text \<open>
  The two passes on raw text: \<open>lib/ast/passes/coalesce_rawblocks_pass.cpp\<close> joins neighbouring raw
  blocks of a statement list, \<open>lib/ast/passes/convert_literal_printblock_to_rawblock_pass.cpp\<close>
  turns a print block of a literal into a raw block.
\<close>

section \<open>Joining C strings\<close>

text \<open>
  The static function \<open>concat\<close>: it sums the lengths, allocates a block of that size plus one
  (\<open>garbage\<close> stands for the contents of fresh memory), copies the strings one after the other
  and writes the terminator.
\<close>

fun copy_strings :: "char list \<Rightarrow> nat \<Rightarrow> string list \<Rightarrow> (char list \<times> nat) res" where
  "copy_strings buf ptr [] = Inr (buf, ptr)"
| "copy_strings buf ptr (str # strings) =
     bindE (memcpy_at buf ptr str) (\<lambda>buf. copy_strings buf (ptr + length str) strings)"

definition concat_strings :: "(nat \<Rightarrow> char) \<Rightarrow> string list \<Rightarrow> char list res" where
  "concat_strings garbage strings =
     (let len = sum_list (map length strings); new_str = map garbage [0..<len + 1]
      in bindE (copy_strings new_str 0 strings) (\<lambda>(buf, ptr). memcpy_at buf ptr [CHR 0x00]))"

lemma copy_strings_spec:
  assumes "ptr + sum_list (map length strings) \<le> length buf"
  shows "copy_strings buf ptr strings =
    Inr (take ptr buf @ concat strings @ drop (ptr + sum_list (map length strings)) buf,
         ptr + sum_list (map length strings))"
  using assms
proof (induction strings arbitrary: buf ptr)
  case Nil
  then show ?case by simp
next
  case (Cons s strings)
  define buf' where "buf' = take ptr buf @ s @ drop (ptr + length s) buf"
  have "memcpy_at buf ptr s = Inr buf'"
    using Cons.prems by (simp add: memcpy_at_def buf'_def)
  moreover have "copy_strings buf' (ptr + length s) strings =
    Inr (take (ptr + length s) buf' @ concat strings @
           drop (ptr + length s + sum_list (map length strings)) buf',
         ptr + length s + sum_list (map length strings))"
    using Cons.prems by (intro Cons.IH) (simp add: buf'_def)
  moreover have "take (ptr + length s) buf' = take ptr buf @ s"
    using Cons.prems by (simp add: buf'_def)
  moreover have "drop (ptr + (length s + k)) buf' = drop (ptr + (length s + k)) buf" for k
    using Cons.prems by (simp add: buf'_def ac_simps)
  ultimately show ?case by (simp add: add.assoc)
qed

lemma concat_strings_spec: "concat_strings garbage strings = Inr (concat strings @ [CHR 0x00])"
  by (simp add: concat_strings_def copy_strings_spec Let_def memcpy_at_def length_concat
      del: upt_Suc)

section \<open>Coalescing\<close>

text \<open>
  By \<open>concat_strings_spec\<close> the new C string holds the concatenation of the texts.
  The gathering loop takes the texts of the block and of all raw blocks that follow it; with
  more than one, the block gets the joined text and the others are erased.
\<close>

definition gather_raw :: "ast list \<Rightarrow> string list" where
  "gather_raw statements = map raw_text (takeWhile is_raw statements)"

function coalesce_statements :: "ast list \<Rightarrow> ast list" where
  "coalesce_statements [] = []"
| "coalesce_statements (statement # rest) =
     (if is_raw statement
      then let strings = gather_raw (statement # rest)
           in if 1 < length strings
              then RawBlock (concat strings) # coalesce_statements (dropWhile is_raw rest)
              else statement # coalesce_statements rest
      else statement # coalesce_statements rest)"
  by pat_completeness auto
termination
  by (relation "measure length") (auto simp: le_imp_less_Suc length_dropWhile_le)

definition coalesce_node :: "ast \<Rightarrow> ast res" where
  "coalesce_node ast =
     (case ast of
        Statements statements \<Rightarrow> Inr (Statements (coalesce_statements statements))
      | _ \<Rightarrow> Inr ast)"

definition CoalesceRawBlocksPass :: ast_pass where
  "CoalesceRawBlocksPass = (\<lambda>process. coalesce_node)"

section \<open>Printing literals\<close>

text \<open>What \<open>createFormattedRawBlock\<close> writes for the value of a literal node.\<close>

fun literal_text :: "expr \<Rightarrow> string" where
  "literal_text (DoubleLiteral v) = format_g v"
| "literal_text (IntegerLiteral v) = string_of_long v"
| "literal_text (BooleanLiteral v) = (if v then ''true'' else ''false'')"
| "literal_text (StringLiteral v) = v"
| "literal_text _ = []"

definition convert_node :: "ast \<Rightarrow> ast res" where
  "convert_node ast =
     (case ast of
        PrintBlock expr \<Rightarrow>
          (case expr of
             DoubleLiteral _ \<Rightarrow> Inr (RawBlock (literal_text expr))
           | IntegerLiteral _ \<Rightarrow> Inr (RawBlock (literal_text expr))
           | BooleanLiteral _ \<Rightarrow> Inr (RawBlock (literal_text expr))
           | StringLiteral _ \<Rightarrow> Inr (RawBlock (literal_text expr))
           | _ \<Rightarrow> Inr ast)
      | _ \<Rightarrow> Inr ast)"

definition ConvertLiteralPrintBlockToRawBlockPass :: ast_pass where
  "ConvertLiteralPrintBlockToRawBlockPass = (\<lambda>process. convert_node)"

lemma convert_node_simps [simp]:
  "convert_node (Statements xs) = Inr (Statements xs)"
  "convert_node (RawBlock t) = Inr (RawBlock t)"
  "convert_node (IfBlock c th el) = Inr (IfBlock c th el)"
  "convert_node (ForBlock k v i b el) = Inr (ForBlock k v i b el)"
  "convert_node (IncludeBlock n s m) = Inr (IncludeBlock n s m)"
  "convert_node (PrintBlock e) =
     Inr (if isLiteralExpression e then RawBlock (literal_text e) else PrintBlock e)"
  by (auto simp: convert_node_def split: expr.split)

lemma coalesce_node_simps [simp]:
  "coalesce_node (Statements xs) = Inr (Statements (coalesce_statements xs))"
  "coalesce_node (RawBlock t) = Inr (RawBlock t)"
  "coalesce_node (PrintBlock e) = Inr (PrintBlock e)"
  "coalesce_node (IfBlock c th el) = Inr (IfBlock c th el)"
  "coalesce_node (ForBlock k v i b el) = Inr (ForBlock k v i b el)"
  "coalesce_node (IncludeBlock n s m) = Inr (IncludeBlock n s m)"
  by (simp_all add: coalesce_node_def)

text \<open>The coalesced list: induction over the iterator, with the raw run of the gathering loop.\<close>

lemma coalesce_raw_run:
  "coalesce_statements (RawBlock t # rest) =
     RawBlock (t @ concat (gather_raw rest)) # coalesce_statements (dropWhile is_raw rest)"
  by (cases rest) (auto simp: gather_raw_def)

lemma coalesce_other:
  "\<not> is_raw x \<Longrightarrow> coalesce_statements (x # rest) = x # coalesce_statements rest"
  by simp

lemma coalesce_induct [case_names Nil Raw Other]:
  assumes "Q []"
    and "\<And>t rest. Q (dropWhile is_raw rest) \<Longrightarrow> Q (RawBlock t # rest)"
    and "\<And>x rest. \<not> is_raw x \<Longrightarrow> Q rest \<Longrightarrow> Q (x # rest)"
  shows "Q xs"
proof (induction xs rule: length_induct)
  case (1 xs)
  show ?case
  proof (cases xs)
    case (Cons x rest)
    have "Q rest" "Q (dropWhile is_raw rest)"
      using 1 Cons by (simp_all add: le_imp_less_Suc length_dropWhile_le)
    with Cons assms(2,3) show ?thesis by (cases x) auto
  qed (simp add: assms(1))
qed

lemma coalesce_member:
  "y \<in> set (coalesce_statements xs) \<Longrightarrow> is_raw y \<or> y \<in> set xs"
proof (induction xs rule: coalesce_induct)
  case (Raw t rest)
  then show ?case by (auto simp: coalesce_raw_run simp del: coalesce_statements.simps dest: set_dropWhileD)
qed auto

lemma size_raw: "is_raw y \<Longrightarrow> size y = 0"
  by (cases y) auto

interpretation coalesce: shape_preserving_pass coalesce_node
proof unfold_locales
  fix xs a assume "coalesce_node (Statements xs) = Inr a"
  moreover have "size y < size (Statements xs)" if "y \<in> set (coalesce_statements xs)" for y
    using coalesce_member [OF that] size_in_statements size_raw by fastforce
  ultimately show "\<exists>ys. a = Statements ys \<and> (\<forall>y \<in> set ys. size y < size (Statements xs))"
    by auto
qed auto

interpretation convert: shape_preserving_pass convert_node
  by unfold_locales (auto intro: size_in_statements)

end
