(* ===== verification/Pass_Manager.thy ===== *)
theory Pass_Manager
  imports Raw_Passes
begin

text \<open>
  \<open>lib/ast/passes/pass_manager.cpp\<close>: the list of passes, the wrapper that turns an expression
  pass into a pass on statements, and \<open>run\<close>.
\<close>

definition walk_mapping ::
    "(expr \<Rightarrow> expr res) \<Rightarrow> string_expression_map \<Rightarrow> string_expression_map res" where
  "walk_mapping f m = mapE (\<lambda>(k, e). bindE (f e) (\<lambda>e'. Inr (k, e'))) m"

text \<open>\<open>ExpressionPassWrapper\<close>, over the \<open>process\<close> of the wrapped pass.\<close>

definition wrapper_node :: "(expr \<Rightarrow> expr res) \<Rightarrow> ast \<Rightarrow> ast res" where
  "wrapper_node processExpr ast =
     (case ast of
        PrintBlock old_expr \<Rightarrow> bindE (processExpr old_expr) (\<lambda>new_expr. Inr (PrintBlock new_expr))
      | IfBlock old_condition thenBody elseBody \<Rightarrow>
          bindE (processExpr old_condition) (\<lambda>new_condition.
            Inr (IfBlock new_condition thenBody elseBody))
      | ForBlock keyVariable valueVariable old_iterable body elseBody \<Rightarrow>
          bindE (processExpr old_iterable) (\<lambda>new_iterable.
            Inr (ForBlock keyVariable valueVariable new_iterable body elseBody))
      | IncludeBlock includeName scope variableMapping \<Rightarrow>
          bindE (optE processExpr scope) (\<lambda>scope.
            bindE (walk_mapping processExpr variableMapping) (\<lambda>variableMapping.
              Inr (IncludeBlock includeName scope variableMapping)))
      | _ \<Rightarrow> Inr ast)"

definition ExpressionPassWrapper :: "expr_pass \<Rightarrow> ast_pass" where
  "ExpressionPassWrapper P = (\<lambda>process. wrapper_node (expr_process P))"

lemma wrapper_node_simps [simp]:
  "wrapper_node f (Statements xs) = Inr (Statements xs)"
  "wrapper_node f (RawBlock t) = Inr (RawBlock t)"
  "wrapper_node f (PrintBlock e) = bindE (f e) (\<lambda>e'. Inr (PrintBlock e'))"
  "wrapper_node f (IfBlock c th el) = bindE (f c) (\<lambda>c'. Inr (IfBlock c' th el))"
  "wrapper_node f (ForBlock k v i b el) = bindE (f i) (\<lambda>i'. Inr (ForBlock k v i' b el))"
  "wrapper_node f (IncludeBlock n s m) =
     bindE (optE f s) (\<lambda>s'. bindE (walk_mapping f m) (\<lambda>m'. Inr (IncludeBlock n s' m')))"
  by (simp_all add: wrapper_node_def)

interpretation wrapper: shape_preserving_pass "wrapper_node f" for f
  by unfold_locales (auto intro: size_in_statements simp: bindE_eq_Inr)

text \<open>The walk of a wrapped expression pass, node by node.\<close>

lemma wrapper_walk:
  "ast_process (\<lambda>_. wrapper_node f) (Statements xs) =
     bindE (merge_statements (ast_process (\<lambda>_. wrapper_node f)) [] xs) (\<lambda>zs. Inr (fold_singleton zs))"
  "ast_process (\<lambda>_. wrapper_node f) (RawBlock t) = Inr (RawBlock t)"
  "ast_process (\<lambda>_. wrapper_node f) (PrintBlock e) = bindE (f e) (\<lambda>e'. Inr (PrintBlock e'))"
  "ast_process (\<lambda>_. wrapper_node f) (IfBlock c th el) =
     bindE (f c) (\<lambda>c'. bindE (optE (ast_process (\<lambda>_. wrapper_node f)) th) (\<lambda>th'.
       bindE (optE (ast_process (\<lambda>_. wrapper_node f)) el) (\<lambda>el'. Inr (IfBlock c' th' el'))))"
  "ast_process (\<lambda>_. wrapper_node f) (ForBlock k v i b el) =
     bindE (f i) (\<lambda>i'. bindE (optE (ast_process (\<lambda>_. wrapper_node f)) b) (\<lambda>b'.
       bindE (optE (ast_process (\<lambda>_. wrapper_node f)) el) (\<lambda>el'. Inr (ForBlock k v i' b' el'))))"
  "ast_process (\<lambda>_. wrapper_node f) (IncludeBlock n s m) =
     bindE (optE f s) (\<lambda>s'. bindE (walk_mapping f m) (\<lambda>m'. Inr (IncludeBlock n s' m')))"
  by (simp_all add: wrapper.process_simps bindE_assoc)

text \<open>The member \<open>m_passes\<close> with the operations that change it.\<close>

type_synonym pass_manager = "(ast \<Rightarrow> ast res) list"

definition new_pass_manager :: pass_manager where
  "new_pass_manager = []"

definition addPass :: "(ast \<Rightarrow> ast res) \<Rightarrow> pass_manager \<Rightarrow> pass_manager" where
  "addPass process m_passes = m_passes @ [process]"

definition addExpressionPass :: "expr_pass \<Rightarrow> pass_manager \<Rightarrow> pass_manager" where
  "addExpressionPass P m_passes = addPass (ast_process (ExpressionPassWrapper P)) m_passes"

definition removeAllPasses :: "pass_manager \<Rightarrow> pass_manager" where
  "removeAllPasses m_passes = []"

fun run_passes :: "pass_manager \<Rightarrow> ast \<Rightarrow> ast res" where
  "run_passes [] ast = Inr ast"
| "run_passes (process # m_passes) ast = bindE (process ast) (run_passes m_passes)"

end
