(* ===== verification/Resolve_Includes.thy ===== *)
theory Resolve_Includes
  imports Pass_Manager
begin

text \<open>
  Include resolution: \<open>lib/ast/passes/resolve_includes_pass.cpp\<close>.  The parser of included files
  (\<open>m_parser.parse\<close>: the file system, the generated scanner and the generated parser) is the
  parameter \<open>parse\<close>.
\<close>

section \<open>The two expression passes\<close>

definition ReplaceVariableReferencesPass :: "string \<Rightarrow> string_expression_map \<Rightarrow> expr_pass" where
  "ReplaceVariableReferencesPass includeFilename replacements process expr =
     (case expr of
        VariableReference variableName \<Rightarrow>
          (case map_of replacements variableName of
             None \<Rightarrow> Inl (Throws (MissingVariableReferenceError includeFilename variableName))
           | Some replacement \<Rightarrow> clone replacement)
      | _ \<Rightarrow> Inr expr)"

definition PrependScopePass :: "expr \<Rightarrow> expr_pass" where
  "PrependScopePass scope process expr =
     (case expr of
        VariableReference variableName \<Rightarrow>
          bindE (clone scope) (\<lambda>copy. Inr (GetAttribute copy variableName))
      | _ \<Rightarrow> Inr expr)"

text \<open>Both rewrite every variable reference of an expression, and nothing else.\<close>

fun subst_expr :: "(string \<Rightarrow> expr res) \<Rightarrow> expr \<Rightarrow> expr res" where
  "subst_expr f (VariableReference v) = f v"
| "subst_expr f (GetAttribute v a) = bindE (subst_expr f v) (\<lambda>v. Inr (GetAttribute v a))"
| "subst_expr f (MethodCall m args) =
     bindE (walk_arguments (subst_expr f) args) (\<lambda>as. Inr (MethodCall m as))"
| "subst_expr f (BinaryOperation l r op) =
     bindE (subst_expr f l) (\<lambda>l. bindE (subst_expr f r) (\<lambda>r. Inr (BinaryOperation l r op)))"
| "subst_expr f (UnaryOperation e op) = bindE (subst_expr f e) (\<lambda>e. Inr (UnaryOperation e op))"
| "subst_expr f (Comparison l r op) =
     bindE (subst_expr f l) (\<lambda>l. bindE (subst_expr f r) (\<lambda>r. Inr (Comparison l r op)))"
| "subst_expr f e = Inr e"

locale variable_rewriting =
  fixes P :: expr_pass and f :: "string \<Rightarrow> expr res"
  assumes at_variable: "P self (VariableReference v) = f v"
    and elsewhere: "(\<And>v. e \<noteq> VariableReference v) \<Longrightarrow> P self e = Inr e"

sublocale variable_rewriting \<subseteq> rewritten: expr_pass_spec P "subst_expr f"
proof unfold_locales
  fix e :: expr and self :: "expr \<Rightarrow> expr res"
  assume self: "\<And>e'. size e' < size e \<Longrightarrow> self e' = subst_expr f e'"
  show "expr_dispatch P self e = subst_expr f e"
  proof (cases e)
    case (MethodCall m args)
    have "walk_arguments self args = walk_arguments (subst_expr f) args"
    proof (rule walk_arguments_cong [OF refl])
      fix p a assume "p \<in> set args" "p = Some a"
      then have "size a < size e"
        using size_list_estimation' [of p args _ "size_option size"] MethodCall by fastforce
      then show "self a = subst_expr f a" by (rule self)
    qed
    with MethodCall show ?thesis by (simp add: expr_dispatch_def walk_method_call_def elsewhere)
  qed (simp_all add: expr_dispatch_def walk_method_defs at_variable elsewhere self)
qed

definition replacement_of :: "string \<Rightarrow> string_expression_map \<Rightarrow> string \<Rightarrow> expr res" where
  "replacement_of includeFilename replacements v =
     (case map_of replacements v of
        None \<Rightarrow> Inl (Throws (MissingVariableReferenceError includeFilename v))
      | Some replacement \<Rightarrow> clone replacement)"

definition scoped :: "expr \<Rightarrow> string \<Rightarrow> expr res" where
  "scoped scope v = bindE (clone scope) (\<lambda>copy. Inr (GetAttribute copy v))"

interpretation replace: variable_rewriting "ReplaceVariableReferencesPass fname repl"
    "replacement_of fname repl" for fname repl
  by unfold_locales (auto simp: ReplaceVariableReferencesPass_def replacement_of_def split: expr.split)

interpretation prepend: variable_rewriting "PrependScopePass scope" "scoped scope" for scope
  by unfold_locales (auto simp: PrependScopePass_def scoped_def split: expr.split)

section \<open>The pass\<close>

definition resolvePath :: "string \<Rightarrow> string \<Rightarrow> string" where
  "resolvePath includeBasePath path =
     (if take 1 path = ''/'' then path else includeBasePath @ ''/'' @ path)"

definition replaceVariableReferences :: "string \<Rightarrow> string_expression_map \<Rightarrow> ast \<Rightarrow> ast res" where
  "replaceVariableReferences includeFilename replacements ast =
     run_passes (addExpressionPass (ReplaceVariableReferencesPass includeFilename replacements)
       (removeAllPasses new_pass_manager)) ast"

definition prependScope :: "expr \<Rightarrow> ast \<Rightarrow> ast res" where
  "prependScope scope ast =
     run_passes (addExpressionPass (PrependScopePass scope) (removeAllPasses new_pass_manager)) ast"

text \<open>
  \<open>PassManager::run\<close> deletes the tree it was given when a pass throws; the tree is still owned by
  the \<open>unique_ptr\<close> \<open>includeAST\<close> of \<open>process_node\<close>, whose destructor deletes it again when the
  exception leaves the function.
\<close>

definition unwound :: "ast res \<Rightarrow> ast res" where
  "unwound r = (case r of Inl (Throws _) \<Rightarrow> Inl (Undefined DoubleDelete) | _ \<Rightarrow> r)"

lemma unwound_simps [simp]:
  "unwound r = Inr x \<longleftrightarrow> r = Inr x" "unwound (Inr x) = Inr x"
  "unwound r = Inl Diverges \<longleftrightarrow> r = Inl Diverges" "unwound r \<noteq> Inl (Throws e)"
  by (auto simp: unwound_def split: sum.split failure.split)

definition process_include ::
    "string \<Rightarrow> (string \<Rightarrow> ast res) \<Rightarrow> (ast \<Rightarrow> ast res) \<Rightarrow>
     string \<Rightarrow> expr option \<Rightarrow> string_expression_map \<Rightarrow> ast res" where
  "process_include includeBasePath parse process includeName scope variableMapping =
     (let includeFilename = resolvePath includeBasePath includeName
      in bindE (parse includeFilename) (\<lambda>includeAST.
           bindE (process includeAST) (\<lambda>processedIncludeAST.
             case scope of
               Some s \<Rightarrow> unwound (prependScope s processedIncludeAST)
             | None \<Rightarrow> unwound
                 (replaceVariableReferences includeFilename variableMapping processedIncludeAST))))"

definition ResolveIncludesPass :: "string \<Rightarrow> (string \<Rightarrow> ast res) \<Rightarrow> ast_pass" where
  "ResolveIncludesPass includeBasePath parse process ast =
     (case ast of
        IncludeBlock includeName scope variableMapping \<Rightarrow>
          process_include includeBasePath parse process includeName scope variableMapping
      | _ \<Rightarrow> Inr ast)"

text \<open>
  \<open>resolve fuel\<close>: the walk of the pass.  Its recursion goes through the parsed files, so it need
  not end: an outcome \<open>Diverges\<close> at every fuel is a run that never returns.
\<close>

definition resolve :: "string \<Rightarrow> (string \<Rightarrow> ast res) \<Rightarrow> nat \<Rightarrow> ast \<Rightarrow> ast res" where
  "resolve includeBasePath parse = ast_walk (ResolveIncludesPass includeBasePath parse)"

section \<open>What the pass returns\<close>

lemma expr_process_replace:
  "expr_process (ReplaceVariableReferencesPass n m) = subst_expr (replacement_of n m)"
  by (rule ext) (rule replace.rewritten.process_spec)

lemma expr_process_prepend: "expr_process (PrependScopePass s) = subst_expr (scoped s)"
  by (rule ext) (rule prepend.rewritten.process_spec)

text \<open>Both passes rewrite the variable references of a tree.\<close>

definition rewrite_ast :: "(string \<Rightarrow> expr res) \<Rightarrow> ast \<Rightarrow> ast res" where
  "rewrite_ast f = ast_process (\<lambda>_. wrapper_node (subst_expr f))"

lemma prependScope_rewrite: "prependScope s a = rewrite_ast (scoped s) a"
  by (simp add: prependScope_def rewrite_ast_def addExpressionPass_def addPass_def
      removeAllPasses_def ExpressionPassWrapper_def expr_process_prepend bindE_def split: sum.split)

lemma replace_rewrite:
  "replaceVariableReferences n m a = rewrite_ast (replacement_of n m) a"
  by (simp add: replaceVariableReferences_def rewrite_ast_def addExpressionPass_def addPass_def
      removeAllPasses_def ExpressionPassWrapper_def expr_process_replace bindE_def split: sum.split)

fun is_include :: "ast \<Rightarrow> bool" where
  "is_include (IncludeBlock _ _ _) = True"
| "is_include _ = False"

abbreviation include_free :: "ast \<Rightarrow> bool" where
  "include_free \<equiv> all_nodes (\<lambda>a. \<not> is_include a)"

lemma wrapper_flat: "ast_process (\<lambda>_. wrapper_node f) a = Inr r \<Longrightarrow> flat r"
  by (rule wrapper.process_flat) (auto simp: bindE_eq_Inr)

lemma wrapper_include_free:
  "include_free a \<Longrightarrow> ast_process (\<lambda>_. wrapper_node f) a = Inr r \<Longrightarrow> include_free r"
  by (rule wrapper.process_all_nodes) (auto simp: bindE_eq_Inr)

lemmas rewrite_flat = wrapper_flat [of "subst_expr f" for f, folded rewrite_ast_def]
  and rewrite_include_free = wrapper_include_free [of _ "subst_expr f" for f, folded rewrite_ast_def]

lemma process_include_eq:
  "process_include base parse process n s m =
     bindE (parse (resolvePath base n)) (\<lambda>a. bindE (process a) (\<lambda>b.
       unwound (rewrite_ast (case s of Some e \<Rightarrow> scoped e
                             | None \<Rightarrow> replacement_of (resolvePath base n) m) b)))"
  by (cases s) (simp_all add: process_include_def Let_def prependScope_rewrite replace_rewrite)

lemma ResolveIncludesPass_simps [simp]:
  "ResolveIncludesPass base parse self (Statements xs) = Inr (Statements xs)"
  "ResolveIncludesPass base parse self (RawBlock t) = Inr (RawBlock t)"
  "ResolveIncludesPass base parse self (PrintBlock e) = Inr (PrintBlock e)"
  "ResolveIncludesPass base parse self (IfBlock c th el) = Inr (IfBlock c th el)"
  "ResolveIncludesPass base parse self (ForBlock k v i b el) = Inr (ForBlock k v i b el)"
  "ResolveIncludesPass base parse self (IncludeBlock n s m) = process_include base parse self n s m"
  by (simp_all add: ResolveIncludesPass_def)

text \<open>The equations of the walk, one per kind of node.\<close>

lemma resolve_0 [simp]: "resolve base parse 0 a = Inl Diverges"
  by (simp add: resolve_def)

lemma resolve_Suc:
  "resolve base parse (Suc n) (Statements xs) =
     bindE (merge_statements (resolve base parse n) [] xs) (\<lambda>zs. Inr (fold_singleton zs))"
  "resolve base parse (Suc n) (RawBlock t) = Inr (RawBlock t)"
  "resolve base parse (Suc n) (PrintBlock e) = Inr (PrintBlock e)"
  "resolve base parse (Suc n) (IfBlock c th el) =
     bindE (optE (resolve base parse n) th) (\<lambda>th'. bindE (optE (resolve base parse n) el) (\<lambda>el'.
       Inr (IfBlock c th' el')))"
  "resolve base parse (Suc n) (ForBlock k v i b el) =
     bindE (optE (resolve base parse n) b) (\<lambda>b'. bindE (optE (resolve base parse n) el) (\<lambda>el'.
       Inr (ForBlock k v i b' el')))"
  "resolve base parse (Suc n) (IncludeBlock name s m) =
     process_include base parse (resolve base parse n) name s m"
  by (simp_all add: resolve_def ast_dispatch_def walk_statements_def walk_if_block_def
      walk_for_block_def)

text \<open>
  A predicate on trees holds for every result if it holds for leaves, is inherited by the
  compound nodes, and survives the rewriting of variable references.
\<close>

lemma resolve_result_induct [consumes 1, case_names statements leaf cond loop rewrite]:
  assumes "resolve base parse n a = Inr r"
    and "\<And>rs. \<forall>r \<in> set rs. Q r \<Longrightarrow> Q (fold_singleton (concat (map splice rs)))"
    and "\<And>t. Q (RawBlock t)" "\<And>e. Q (PrintBlock e)"
    and "\<And>c th el. pred_option Q th \<Longrightarrow> pred_option Q el \<Longrightarrow> Q (IfBlock c th el)"
    and "\<And>k v i b el. pred_option Q b \<Longrightarrow> pred_option Q el \<Longrightarrow> Q (ForBlock k v i b el)"
    and "\<And>f a r. Q a \<Longrightarrow> rewrite_ast f a = Inr r \<Longrightarrow> Q r"
  shows "Q r"
  using assms(1)
proof (induction n arbitrary: a r)
  case 0
  then show ?case by simp
next
  case (Suc n)
  have opt: "optE (resolve base parse n) p = Inr q \<Longrightarrow> pred_option Q q" for p q
    by (rule optE_pred) (auto intro: Suc.IH)
  show ?case
  proof (cases a)
    case (Statements xs)
    with Suc.prems obtain zs where
      "merge_statements (resolve base parse n) [] xs = Inr zs" and r: "r = fold_singleton zs"
      by (auto simp: resolve_Suc bindE_eq_Inr)
    from merge_statements_result [OF this(1)] obtain rs where
      rs: "mapE (resolve base parse n) xs = Inr rs" and zs: "zs = concat (map splice rs)" by auto
    from rs have "\<forall>r \<in> set rs. Q r" by (rule mapE_pred) (rule Suc.IH)
    with r zs assms(2) show ?thesis by simp
  next
    case (IncludeBlock name s m)
    with Suc.prems show ?thesis
      by (auto simp: resolve_Suc process_include_eq bindE_eq_Inr intro: assms(7) Suc.IH)
  qed (use Suc.prems assms(3-6) opt in \<open>auto simp: resolve_Suc bindE_eq_Inr\<close>)
qed

lemma fold_singleton_all:
  "p (Statements zs) \<Longrightarrow> \<forall>z \<in> set zs. all_nodes p z \<Longrightarrow> all_nodes p (fold_singleton zs)"
  by (auto simp: fold_singleton_def list_all_iff split: list.split)

lemma splice_all: "all_nodes p r \<Longrightarrow> \<forall>z \<in> set (splice r). all_nodes p z"
  by (cases r) (auto simp: list_all_iff)

lemma resolve_flat: "resolve base parse n a = Inr r \<Longrightarrow> flat r"
proof (induction rule: resolve_result_induct)
  case (statements rs)
  then have "\<forall>z \<in> set (concat (map splice rs)). flat_child z" using splice_flat by fastforce
  then show ?case by (rule fold_singleton_flat)
qed (auto dest: rewrite_flat)

lemma resolve_include_free: "resolve base parse n a = Inr r \<Longrightarrow> include_free r"
proof (induction rule: resolve_result_induct)
  case (statements rs)
  then show ?case using splice_all by (fastforce intro!: fold_singleton_all)
qed (auto dest: rewrite_include_free)

interpretation resolving: monotone_pass "ResolveIncludesPass base parse" for base parse
proof unfold_locales
  fix self self' :: "ast \<Rightarrow> ast res" assume ext: "extends self self'"
  show "extends (ResolveIncludesPass base parse self) (ResolveIncludesPass base parse self')"
    unfolding extends_def
  proof (intro allI impI)
    fix a assume ndiv: "ResolveIncludesPass base parse self a \<noteq> Inl Diverges"
    show "ResolveIncludesPass base parse self' a = ResolveIncludesPass base parse self a"
    proof (cases a)
      case (IncludeBlock name s m)
      with ndiv show ?thesis
        by (cases "parse (resolvePath base name)")
          (auto simp: process_include_eq bindE_def extendsD [OF ext] split: sum.splits)
    qed simp_all
  qed
qed

lemma resolve_fuel: "n \<le> m \<Longrightarrow> resolve base parse n a \<noteq> Inl Diverges \<Longrightarrow>
    resolve base parse m a = resolve base parse n a"
  unfolding resolve_def by (rule extendsD [OF resolving.walk_extends])

section \<open>Termination\<close>

fun include_names :: "ast \<Rightarrow> string list" where
  "include_names (Statements xs) = concat (map include_names xs)"
| "include_names (IfBlock _ th el) =
     (case th of None \<Rightarrow> [] | Some t \<Rightarrow> include_names t) @
     (case el of None \<Rightarrow> [] | Some e \<Rightarrow> include_names e)"
| "include_names (ForBlock _ _ _ b el) =
     (case b of None \<Rightarrow> [] | Some t \<Rightarrow> include_names t) @
     (case el of None \<Rightarrow> [] | Some e \<Rightarrow> include_names e)"
| "include_names (IncludeBlock n _ _) = [n]"
| "include_names _ = []"

lemma walk_arguments_failure:
  assumes "walk_arguments f args = Inl k"
  shows "k = Undefined NullDeref \<or> (\<exists>e. Some e \<in> set args \<and> f e = Inl k)"
proof -
  from assms obtain p where "p \<in> set args"
    "derefE p (\<lambda>old. bindE (f old) (\<lambda>new. Inr (Some new))) = Inl k"
    unfolding walk_arguments_def by (blast dest: mapE_eq_Inl)
  then show ?thesis by (cases p rule: option.exhaust) (auto simp: bindE_eq_Inl)
qed

lemma subst_expr_returns:
  assumes f: "\<And>v. f v \<noteq> Inl Diverges"
  shows "subst_expr f e \<noteq> Inl Diverges"
proof (induction e)
  case (MethodCall m args)
  then show ?case using walk_arguments_failure [of "subst_expr f" args Diverges]
    by (fastforce simp: bindE_eq_Inl)
qed (auto simp: bindE_eq_Inl f)

lemma walk_mapping_returns: "(\<And>e. f e \<noteq> Inl Diverges) \<Longrightarrow> walk_mapping f m \<noteq> Inl Diverges"
  unfolding walk_mapping_def by (rule notI, drule mapE_eq_Inl) (auto simp: bindE_eq_Inl)

lemma wrapper_node_returns:
  assumes f: "\<And>e. f e \<noteq> Inl Diverges"
  shows "wrapper_node f a \<noteq> Inl Diverges"
proof (cases a)
  case (IncludeBlock n s m)
  have "optE f s \<noteq> Inl Diverges" using f by (cases s) (auto simp: bindE_eq_Inl)
  with IncludeBlock walk_mapping_returns [OF f] show ?thesis by (auto simp: bindE_eq_Inl)
qed (auto simp: bindE_eq_Inl f)

lemma clone_returns: "clone e \<noteq> Inl Diverges"
  using clone_failure by blast

lemma rewriting_returns:
  "replacement_of n m v \<noteq> Inl Diverges" "scoped s v \<noteq> Inl Diverges"
  by (auto simp: replacement_of_def scoped_def clone_returns bindE_eq_Inl split: option.split)

lemma rewrite_returns: "(\<And>v. f v \<noteq> Inl Diverges) \<Longrightarrow> rewrite_ast f a \<noteq> Inl Diverges"
  unfolding rewrite_ast_def
  by (intro wrapper.process_returns wrapper_node_returns subst_expr_returns)

lemma enough_fuel_for_all:
  assumes "\<forall>x \<in> set xs. \<exists>n. resolve base parse n x \<noteq> Inl Diverges"
  shows "\<exists>n. \<forall>x \<in> set xs. resolve base parse n x \<noteq> Inl Diverges"
  using assms
proof (induction xs)
  case Nil
  then show ?case by simp
next
  case (Cons x xs)
  then obtain n m where n: "resolve base parse n x \<noteq> Inl Diverges"
    and m: "\<forall>y \<in> set xs. resolve base parse m y \<noteq> Inl Diverges" by auto
  have "resolve base parse (max n m) x \<noteq> Inl Diverges"
    using resolve_fuel [OF max.cobounded1 n] n by simp
  moreover have "\<forall>y \<in> set xs. resolve base parse (max n m) y \<noteq> Inl Diverges"
    using resolve_fuel [OF max.cobounded2] m by (metis (no_types))
  ultimately show ?case by auto
qed

lemma merge_returns:
  "\<forall>x \<in> set xs. self x \<noteq> Inl Diverges \<Longrightarrow> merge_statements self walked xs \<noteq> Inl Diverges"
  by (induction xs arbitrary: walked) (auto simp: bindE_eq_Inl split: ast.split)

lemma resolve_children_return:
  assumes "\<forall>x. (x \<in> set_option p \<or> x \<in> set_option q) \<longrightarrow> (\<exists>n. resolve base parse n x \<noteq> Inl Diverges)"
  shows "\<exists>n. optE (resolve base parse n) p \<noteq> Inl Diverges \<and> optE (resolve base parse n) q \<noteq> Inl Diverges"
proof -
  have "\<forall>x \<in> set (map the (filter (\<lambda>o'. o' \<noteq> None) [p, q])).
      \<exists>n. resolve base parse n x \<noteq> Inl Diverges"
    using assms by (cases p; cases q) auto
  from enough_fuel_for_all [OF this] obtain n where
    "\<forall>x \<in> set (map the (filter (\<lambda>o'. o' \<noteq> None) [p, q])). resolve base parse n x \<noteq> Inl Diverges" ..
  then show ?thesis by (intro exI [of _ n], cases p; cases q) (auto simp: bindE_eq_Inl)
qed

definition ranked :: "string \<Rightarrow> (string \<Rightarrow> ast res) \<Rightarrow> (string \<Rightarrow> nat) \<Rightarrow> bool" where
  "ranked base parse rank \<longleftrightarrow>
     (\<forall>f a n. parse f = Inr a \<longrightarrow> n \<in> set (include_names a) \<longrightarrow>
        rank (resolvePath base n) < rank f)"

text \<open>A tree returns if its inclusions do.\<close>

lemma resolve_tree_returns:
  assumes "\<And>name s m. name \<in> set (include_names a) \<Longrightarrow>
    \<exists>n. resolve base parse n (IncludeBlock name s m) \<noteq> Inl Diverges"
  shows "\<exists>n. resolve base parse n a \<noteq> Inl Diverges"
  using assms
proof (induction a)
  case (Statements xs)
  have "\<forall>x \<in> set xs. \<exists>n. resolve base parse n x \<noteq> Inl Diverges"
    by (intro ballI, rule Statements.IH, assumption, rule Statements.prems) auto
  from enough_fuel_for_all [OF this] obtain n where
    "\<forall>x \<in> set xs. resolve base parse n x \<noteq> Inl Diverges" ..
  then have "resolve base parse (Suc n) (Statements xs) \<noteq> Inl Diverges"
    by (auto simp: resolve_Suc bindE_eq_Inl merge_returns)
  then show ?case ..
next
  case (IfBlock c th el)
  have "\<forall>x. x \<in> set_option th \<or> x \<in> set_option el \<longrightarrow> (\<exists>n. resolve base parse n x \<noteq> Inl Diverges)"
    using IfBlock by auto
  from resolve_children_return [OF this] obtain n where
    "optE (resolve base parse n) th \<noteq> Inl Diverges" "optE (resolve base parse n) el \<noteq> Inl Diverges"
    by auto
  then have "resolve base parse (Suc n) (IfBlock c th el) \<noteq> Inl Diverges"
    by (auto simp: resolve_Suc bindE_eq_Inl)
  then show ?case ..
next
  case (ForBlock kv vv i b el)
  have "\<forall>x. x \<in> set_option b \<or> x \<in> set_option el \<longrightarrow> (\<exists>n. resolve base parse n x \<noteq> Inl Diverges)"
    using ForBlock by auto
  from resolve_children_return [OF this] obtain n where
    "optE (resolve base parse n) b \<noteq> Inl Diverges" "optE (resolve base parse n) el \<noteq> Inl Diverges"
    by auto
  then have "resolve base parse (Suc n) (ForBlock kv vv i b el) \<noteq> Inl Diverges"
    by (auto simp: resolve_Suc bindE_eq_Inl)
  then show ?case ..
next
  case (RawBlock t)
  show ?case by (rule exI [of _ 1]) (simp add: resolve_Suc)
next
  case (PrintBlock t)
  show ?case by (rule exI [of _ 1]) (simp add: resolve_Suc)
next
  case (IncludeBlock name s m)
  then show ?case by simp
qed

lemma resolve_include_returns:
  assumes parse: "parse (resolvePath base name) \<noteq> Inl Diverges"
    and rec: "\<And>a. parse (resolvePath base name) = Inr a \<Longrightarrow>
      \<exists>n. resolve base parse n a \<noteq> Inl Diverges"
  shows "\<exists>n. resolve base parse n (IncludeBlock name s m) \<noteq> Inl Diverges"
proof -
  obtain n where n: "\<And>a. parse (resolvePath base name) = Inr a \<Longrightarrow>
      resolve base parse n a \<noteq> Inl Diverges"
    using rec by (cases "parse (resolvePath base name)") auto
  have "resolve base parse (Suc n) (IncludeBlock name s m) \<noteq> Inl Diverges"
    using n parse rewrite_returns [OF rewriting_returns(1)] rewrite_returns [OF rewriting_returns(2)]
    by (cases s) (auto simp: resolve_Suc process_include_eq bindE_eq_Inl)
  then show ?thesis ..
qed

lemma resolve_ranked_returns:
  assumes ranked: "ranked base parse rank" and parse: "\<And>f. parse f \<noteq> Inl Diverges"
  shows "\<exists>n. resolve base parse n (IncludeBlock name s m) \<noteq> Inl Diverges"
proof (induction "rank (resolvePath base name)" arbitrary: name s m rule: less_induct)
  case less
  show ?case
  proof (rule resolve_include_returns [OF parse], rule resolve_tree_returns)
    fix a name' s' m' assume "parse (resolvePath base name) = Inr a" "name' \<in> set (include_names a)"
    then show "\<exists>n. resolve base parse n (IncludeBlock name' s' m') \<noteq> Inl Diverges"
      using ranked by (intro less) (auto simp: ranked_def)
  qed
qed

end
