(* ===== verification/Include_Laws.thy ===== *)
theory Include_Laws
  imports Resolve_Includes
begin

text \<open>
  What include resolution guarantees about the names and the files of a template: which variables
  the resolved tree reads, when an inclusion is refused, and which trees are never resolved.
\<close>

section \<open>Variables\<close>

fun expr_vars :: "expr \<Rightarrow> string list" where
  "expr_vars (VariableReference v) = [v]"
| "expr_vars (GetAttribute v _) = expr_vars v"
| "expr_vars (MethodCall _ args) =
     concat (map (\<lambda>p. case p of None \<Rightarrow> [] | Some e \<Rightarrow> expr_vars e) args)"
| "expr_vars (BinaryOperation l r _) = expr_vars l @ expr_vars r"
| "expr_vars (UnaryOperation e _) = expr_vars e"
| "expr_vars (Comparison l r _) = expr_vars l @ expr_vars r"
| "expr_vars _ = []"

text \<open>The expressions that a node itself evaluates; the loop variables are not among them.\<close>

fun node_exprs :: "ast \<Rightarrow> expr list" where
  "node_exprs (PrintBlock e) = [e]"
| "node_exprs (IfBlock c _ _) = [c]"
| "node_exprs (ForBlock _ _ i _ _) = [i]"
| "node_exprs (IncludeBlock _ s m) = (case s of None \<Rightarrow> [] | Some e \<Rightarrow> [e]) @ map snd m"
| "node_exprs _ = []"

abbreviation reads_within :: "string set \<Rightarrow> ast \<Rightarrow> bool" where
  "reads_within V \<equiv> all_nodes (\<lambda>a. \<forall>e \<in> set (node_exprs a). set (expr_vars e) \<subseteq> V)"

lemma args_vars_subset:
  "set (expr_vars (MethodCall m args)) \<subseteq> V \<longleftrightarrow> (\<forall>e. Some e \<in> set args \<longrightarrow> set (expr_vars e) \<subseteq> V)"
  by (induction args) (auto split: option.split)

lemma clone_vars: "clone e = Inr e' \<Longrightarrow> set (expr_vars e') \<subseteq> set (expr_vars e)"
proof (induction e arbitrary: e')
  case (MethodCall m args)
  from MethodCall.prems obtain copies where
    copies: "mapE (\<lambda>p. derefE p clone) args = Inr copies"
    and e': "e' = MethodCall m (replicate (length args) None @ map Some copies)"
    by (auto simp: cloneExpressionList_def bindE_eq_Inr)
  from copies have "\<forall>c \<in> set copies. set (expr_vars c) \<subseteq> set (expr_vars (MethodCall m args))"
  proof (rule mapE_pred)
    fix p r assume p: "p \<in> set args" and r: "derefE p clone = Inr r"
    then obtain e where e: "p = Some e" "clone e = Inr r" by (cases p rule: option.exhaust) auto
    with MethodCall.IH p have "set (expr_vars r) \<subseteq> set (expr_vars e)" by auto
    also have "set (expr_vars e) \<subseteq> set (expr_vars (MethodCall m args))"
      using p e args_vars_subset [of m args "set (expr_vars (MethodCall m args))"] by blast
    finally show "set (expr_vars r) \<subseteq> set (expr_vars (MethodCall m args))" .
  qed
  then show ?case unfolding e' args_vars_subset by auto
next
  case (BinaryOperation l r op)
  then show ?case by (fastforce simp: bindE_eq_Inr)
next
  case (Comparison l r op)
  then show ?case by (fastforce simp: bindE_eq_Inr)
qed (auto simp: bindE_eq_Inr)

lemma walk_arguments_pred:
  assumes "walk_arguments f args = Inr as"
    and "\<And>e r. Some e \<in> set args \<Longrightarrow> f e = Inr r \<Longrightarrow> Q r"
  shows "\<forall>p \<in> set as. \<exists>r. p = Some r \<and> Q r"
  using assms(1) unfolding walk_arguments_def
proof (rule mapE_pred)
  fix p q assume "p \<in> set args" "derefE p (\<lambda>old. bindE (f old) (\<lambda>new. Inr (Some new))) = Inr q"
  then show "\<exists>r. q = Some r \<and> Q r"
    by (cases p rule: option.exhaust) (auto simp: bindE_eq_Inr intro: assms(2))
qed

lemma subst_vars:
  assumes f: "\<And>v r. f v = Inr r \<Longrightarrow> set (expr_vars r) \<subseteq> V"
  shows "subst_expr f e = Inr e' \<Longrightarrow> set (expr_vars e') \<subseteq> V"
proof (induction e arbitrary: e')
  case (MethodCall m args)
  from MethodCall.prems obtain as where
    as: "walk_arguments (subst_expr f) args = Inr as" and e': "e' = MethodCall m as"
    by (auto simp: bindE_eq_Inr)
  from as have "\<forall>p \<in> set as. \<exists>r. p = Some r \<and> set (expr_vars r) \<subseteq> V"
    by (rule walk_arguments_pred) (use MethodCall.IH in auto)
  then show ?case unfolding e' args_vars_subset by auto
next
  case (BinaryOperation l r op)
  then show ?case by (fastforce simp: bindE_eq_Inr)
next
  case (Comparison l r op)
  then show ?case by (fastforce simp: bindE_eq_Inr)
next
  case (VariableReference v)
  then show ?case using f by (simp only: subst_expr.simps)
qed (auto simp: bindE_eq_Inr)

lemma rewrite_reads:
  assumes f: "\<And>v r. f v = Inr r \<Longrightarrow> set (expr_vars r) \<subseteq> V"
    and free: "include_free a" and r: "rewrite_ast f a = Inr r"
  shows "reads_within V r"
proof (rule wrapper.process_all_nodes [where q = "\<lambda>a. \<not> is_include a" and p =
      "\<lambda>a. \<forall>e \<in> set (node_exprs a). set (expr_vars e) \<subseteq> V", OF _ _ _ _ _ _ _ free])
  show "ast_process (\<lambda>_. wrapper_node (subst_expr f)) a = Inr r"
    using r by (simp add: rewrite_ast_def)
qed (use subst_vars [of f V, OF f] in \<open>auto simp: bindE_eq_Inr\<close>)

text \<open>
  C6: (scope of an inclusion) The tree that an inclusion resolves to reads only the variables of
  the scope expression, or, without one, of the expressions that the variable mapping passes:
  no other variable of the including template is visible in the included one, however deep
  the included file includes others.
\<close>

theorem include_reads_only_what_it_is_given:
  assumes "resolve base parse n (IncludeBlock name scope m) = Inr r"
  shows "reads_within (case scope of Some s \<Rightarrow> set (expr_vars s)
                       | None \<Rightarrow> \<Union> (set ` expr_vars ` snd ` set m)) r"
proof (cases n)
  case (Suc k)
  let ?f = "case scope of Some e \<Rightarrow> scoped e | None \<Rightarrow> replacement_of (resolvePath base name) m"
  let ?V = "case scope of Some s \<Rightarrow> set (expr_vars s) | None \<Rightarrow> \<Union> (set ` expr_vars ` snd ` set m)"
  from assms Suc obtain a b where b: "resolve base parse k a = Inr b" and r: "rewrite_ast ?f b = Inr r"
    by (auto simp: resolve_Suc process_include_eq bindE_eq_Inr)
  have "set (expr_vars e) \<subseteq> ?V" if "?f v = Inr e" for v e
  proof (cases scope)
    case None
    with that obtain e0 where "map_of m v = Some e0" "clone e0 = Inr e"
      by (auto simp: replacement_of_def split: option.splits)
    then have "(v, e0) \<in> set m" "set (expr_vars e) \<subseteq> set (expr_vars e0)"
      by (auto dest: map_of_SomeD clone_vars)
    with None show ?thesis by force
  next
    case (Some s)
    with that obtain c where "clone s = Inr c" "e = GetAttribute c v"
      by (auto simp: scoped_def bindE_eq_Inr)
    with Some clone_vars [of s c] show ?thesis by simp
  qed
  then show ?thesis by (rule rewrite_reads [OF _ resolve_include_free [OF b] r])
qed (use assms in simp)

theorem include_reads_witness:
  "reads_within {''d''} (Statements [RawBlock ''t'', PrintBlock (GetAttribute (VariableReference ''d'') ''v'')])"
  using include_reads_only_what_it_is_given [where base = "''b''" and n = 3 and name = "''x''" and
      parse = "\<lambda>_. Inr (Statements [RawBlock ''t'', PrintBlock (VariableReference ''v'')])" and
      scope = "Some (VariableReference ''d'')" and m = "[]" and
      r = "Statements [RawBlock ''t'', PrintBlock (GetAttribute (VariableReference ''d'') ''v'')]"]
  by (simp add: eval_nat_numeral resolve_Suc process_include_eq rewrite_ast_def wrapper_walk
      fold_singleton_def scoped_def)

section \<open>Refused inclusions\<close>

lemma subst_failure:
  "subst_expr f e = Inl k \<Longrightarrow> (\<exists>v \<in> set (expr_vars e). f v = Inl k) \<or> k = Undefined NullDeref"
proof (induction e)
  case (MethodCall m args)
  then have "walk_arguments (subst_expr f) args = Inl k" by (auto simp: bindE_eq_Inl)
  from walk_arguments_failure [OF this] show ?case
  proof
    assume "\<exists>e. Some e \<in> set args \<and> subst_expr f e = Inl k"
    then obtain e where e: "Some e \<in> set args" "subst_expr f e = Inl k" by blast
    have "set (expr_vars e) \<subseteq> set (expr_vars (MethodCall m args))"
      using e(1) args_vars_subset [of m args "set (expr_vars (MethodCall m args))"] by blast
    with MethodCall.IH [OF e(1) _ e(2)] show ?thesis by (auto simp del: expr_vars.simps)
  qed simp
next
  case (BinaryOperation l r op)
  then show ?case by (auto simp: bindE_eq_Inl)
next
  case (Comparison l r op)
  then show ?case by (auto simp: bindE_eq_Inl)
qed (auto simp: bindE_eq_Inl)

fun ast_exprs :: "ast \<Rightarrow> expr list" where
  "ast_exprs (Statements xs) = concat (map ast_exprs xs)"
| "ast_exprs (IfBlock c th el) =
     c # (case th of None \<Rightarrow> [] | Some t \<Rightarrow> ast_exprs t) @
     (case el of None \<Rightarrow> [] | Some e \<Rightarrow> ast_exprs e)"
| "ast_exprs (ForBlock k v i b el) =
     i # (case b of None \<Rightarrow> [] | Some t \<Rightarrow> ast_exprs t) @
     (case el of None \<Rightarrow> [] | Some e \<Rightarrow> ast_exprs e)"
| "ast_exprs a = node_exprs a"

abbreviation reads :: "ast \<Rightarrow> string set" where
  "reads a \<equiv> \<Union> (set ` expr_vars ` set (ast_exprs a))"

lemma merge_failure:
  "merge_statements self walked xs = Inl k \<Longrightarrow>
     k = Undefined IteratorBeforeBegin \<or> (\<exists>x \<in> set xs. self x = Inl k)"
proof (induction xs arbitrary: walked)
  case (Cons x xs)
  then show ?case
  proof (cases "self x")
    case (Inr r)
    with Cons show ?thesis by (cases r) (auto split: if_splits)
  qed auto
qed simp

lemma optE_failure: "optE f p = Inl k \<Longrightarrow> \<exists>x. p = Some x \<and> f x = Inl k"
  by (cases p) (auto simp: bindE_eq_Inl)

lemma walk_mapping_failure: "walk_mapping f m = Inl k \<Longrightarrow> \<exists>e \<in> snd ` set m. f e = Inl k"
  unfolding walk_mapping_def by (drule mapE_eq_Inl) (force simp: bindE_eq_Inl)

lemma wrapper_failure:
  "ast_process (\<lambda>_. wrapper_node f) a = Inl k \<Longrightarrow>
     k = Undefined IteratorBeforeBegin \<or> (\<exists>e \<in> set (ast_exprs a). f e = Inl k)"
proof (induction a)
  case (Statements xs)
  then show ?case by (auto simp: wrapper_walk bindE_eq_Inl dest!: merge_failure)
next
  case (IfBlock c th el)
  then show ?case by (auto simp: wrapper_walk bindE_eq_Inl dest!: optE_failure)
next
  case (ForBlock kv vv i b el)
  then show ?case by (auto simp: wrapper_walk bindE_eq_Inl dest!: optE_failure)
next
  case (IncludeBlock n s m)
  then show ?case
    by (cases s) (auto simp: wrapper_walk bindE_eq_Inl dest!: walk_mapping_failure)
qed (auto simp: wrapper_walk bindE_eq_Inl)

text \<open>
  (refused inclusions) Replacing the variables of an included tree throws one exception only:
  the missing variable error for a variable that the tree reads and the mapping does not pass.
\<close>

theorem refused_inclusion_names_an_unmapped_variable:
  assumes "replaceVariableReferences includeFilename m a = Inl (Throws x)"
  shows "\<exists>v \<in> reads a. v \<notin> fst ` set m \<and> x = MissingVariableReferenceError includeFilename v"
proof -
  from assms have "ast_process (\<lambda>_. wrapper_node (subst_expr (replacement_of includeFilename m))) a
      = Inl (Throws x)"
    by (simp add: replace_rewrite rewrite_ast_def)
  from wrapper_failure [OF this] obtain e where e: "e \<in> set (ast_exprs a)"
    and "subst_expr (replacement_of includeFilename m) e = Inl (Throws x)" by auto
  from subst_failure [OF this(2)] obtain v where
    v: "v \<in> set (expr_vars e)" "replacement_of includeFilename m v = Inl (Throws x)" by auto
  then have "map_of m v = None" "x = MissingVariableReferenceError includeFilename v"
    by (auto simp: replacement_of_def dest: clone_failure split: option.splits)
  with e v(1) show ?thesis by (force simp: map_of_eq_None_iff)
qed

theorem refused_inclusion_witness:
  "\<exists>v \<in> reads (Statements [RawBlock ''a'', PrintBlock (VariableReference ''x'')]).
     v \<notin> fst ` set [(''y'', BooleanLiteral True)] \<and>
     MissingVariableReferenceError ''f'' ''x'' = MissingVariableReferenceError ''f'' v"
  by (rule refused_inclusion_names_an_unmapped_variable)
    (simp add: replace_rewrite rewrite_ast_def wrapper_walk replacement_of_def)

section \<open>Accepted inclusions\<close>

lemma walk_arguments_total:
  "(\<And>p. p \<in> set args \<Longrightarrow> \<exists>e r. p = Some e \<and> f e = Inr r) \<Longrightarrow>
     \<exists>as. walk_arguments f args = Inr as"
proof (induction args)
  case (Cons p ps)
  from Cons.prems [of p] obtain e r where "p = Some e" "f e = Inr r" by auto
  moreover have "\<exists>as. walk_arguments f ps = Inr as" using Cons.prems by (intro Cons.IH) auto
  ultimately show ?case by (auto simp: walk_arguments_Cons)
qed simp

lemma walk_arguments_Inr:
  "walk_arguments f args = Inr as \<Longrightarrow> Some e \<in> set args \<Longrightarrow> \<exists>r. f e = Inr r"
proof (induction args arbitrary: as)
  case (Cons p ps)
  then show ?case by (cases p) (auto simp: walk_arguments_Cons bindE_eq_Inr)
qed simp

lemma subst_total:
  "wf_expr e \<Longrightarrow> \<forall>v \<in> set (expr_vars e). \<exists>r. f v = Inr r \<Longrightarrow> \<exists>r. subst_expr f e = Inr r"
proof (induction e)
  case (MethodCall m args)
  have "\<exists>as. walk_arguments (subst_expr f) args = Inr as"
  proof (rule walk_arguments_total)
    fix p assume p: "p \<in> set args"
    with MethodCall.prems(1) obtain e where e: "p = Some e" "wf_expr e"
      unfolding wf_MethodCall_iff by (cases p rule: option.exhaust) auto
    have "set (expr_vars e) \<subseteq> set (expr_vars (MethodCall m args))"
      using p e(1) args_vars_subset [of m args "set (expr_vars (MethodCall m args))"] by blast
    with MethodCall p e have "\<exists>r. subst_expr f e = Inr r" by (intro MethodCall.IH) auto
    with e(1) show "\<exists>e r. p = Some e \<and> subst_expr f e = Inr r" by blast
  qed
  then show ?case by auto
qed (auto simp: bindE_eq_Inr)

lemma subst_defined:
  "subst_expr f e = Inr r \<Longrightarrow> v \<in> set (expr_vars e) \<Longrightarrow> \<exists>x. f v = Inr x"
proof (induction e arbitrary: r)
  case (MethodCall m args)
  from MethodCall.prems(1) obtain as where as: "walk_arguments (subst_expr f) args = Inr as"
    by (auto simp: bindE_eq_Inr)
  from MethodCall.prems(2) obtain e where e: "Some e \<in> set args" "v \<in> set (expr_vars e)"
    by (auto split: option.splits)
  from walk_arguments_Inr [OF as e(1)] MethodCall.IH [OF e(1)] e(2) show ?case by auto
qed (auto simp: bindE_eq_Inr)

lemma optE_total: "(\<And>x. p = Some x \<Longrightarrow> \<exists>r. f x = Inr r) \<Longrightarrow> \<exists>q. optE f p = Inr q"
  by (cases p) fastforce+

lemma walk_mapping_total: "\<forall>e \<in> snd ` set m. \<exists>r. f e = Inr r \<Longrightarrow> \<exists>m'. walk_mapping f m = Inr m'"
  unfolding walk_mapping_def by (induction m) (fastforce simp: bindE_eq_Inr)+

lemma walk_mapping_defined: "walk_mapping f m = Inr m' \<Longrightarrow> e \<in> snd ` set m \<Longrightarrow> \<exists>r. f e = Inr r"
  unfolding walk_mapping_def by (induction m arbitrary: m') (auto simp: bindE_eq_Inr)

lemma merge_total:
  assumes "\<forall>x \<in> set xs. \<exists>r. self x = Inr r \<and> \<not> is_statements r"
  shows "\<exists>zs. merge_statements self walked xs = Inr zs"
  using assms
proof (induction xs arbitrary: walked)
  case (Cons x xs)
  then obtain r where "self x = Inr r" "\<not> is_statements r" by auto
  with Cons show ?case by (cases r) auto
qed simp

lemma wrapper_keeps_kind:
  "ast_process (\<lambda>_. wrapper_node f) a = Inr r \<Longrightarrow> \<not> is_statements a \<Longrightarrow> \<not> is_statements r"
  by (cases a) (auto simp: wrapper_walk bindE_eq_Inr)

lemma wrapper_total:
  "flat a \<Longrightarrow> \<forall>e \<in> set (ast_exprs a). \<exists>r. f e = Inr r \<Longrightarrow>
     \<exists>r. ast_process (\<lambda>_. wrapper_node f) a = Inr r"
proof (induction a)
  case (Statements xs)
  have "\<exists>zs. merge_statements (ast_process (\<lambda>_. wrapper_node f)) [] xs = Inr zs"
  proof (rule merge_total, intro ballI)
    fix x assume x: "x \<in> set xs"
    with Statements have "flat x" "\<not> is_statements x" by (auto simp: list_all_iff)
    moreover have "\<exists>r. ast_process (\<lambda>_. wrapper_node f) x = Inr r"
      using Statements.prems x by (intro Statements.IH) (auto simp: list_all_iff)
    ultimately show "\<exists>r. ast_process (\<lambda>_. wrapper_node f) x = Inr r \<and> \<not> is_statements r"
      using wrapper_keeps_kind by blast
  qed
  then show ?case by (auto simp: wrapper_walk)
next
  case (IfBlock c th el)
  have "\<exists>q. optE (ast_process (\<lambda>_. wrapper_node f)) p = Inr q" if "p \<in> {th, el}" for p
    using that IfBlock by (intro optE_total) auto
  then obtain th' el' where "optE (ast_process (\<lambda>_. wrapper_node f)) th = Inr th'"
    "optE (ast_process (\<lambda>_. wrapper_node f)) el = Inr el'" by blast
  then show ?case using IfBlock.prems by (auto simp: wrapper_walk bindE_eq_Inr)
next
  case (ForBlock kv vv i b el)
  have "\<exists>q. optE (ast_process (\<lambda>_. wrapper_node f)) p = Inr q" if "p \<in> {b, el}" for p
    using that ForBlock by (intro optE_total) auto
  then obtain b' el' where "optE (ast_process (\<lambda>_. wrapper_node f)) b = Inr b'"
    "optE (ast_process (\<lambda>_. wrapper_node f)) el = Inr el'" by blast
  then show ?case using ForBlock.prems by (auto simp: wrapper_walk bindE_eq_Inr)
next
  case (IncludeBlock n s m)
  have "\<exists>s'. optE f s = Inr s'" using IncludeBlock by (intro optE_total) auto
  moreover have "\<exists>m'. walk_mapping f m = Inr m'"
    using IncludeBlock by (intro walk_mapping_total) auto
  ultimately show ?case by (auto simp: wrapper_walk)
qed (auto simp: wrapper_walk bindE_eq_Inr)

lemma optE_defined: "optE f p = Inr q \<Longrightarrow> p = Some x \<Longrightarrow> \<exists>r. f x = Inr r"
  by (auto simp: bindE_eq_Inr)

lemma merge_defined: "merge_statements self walked xs = Inr zs \<Longrightarrow> x \<in> set xs \<Longrightarrow> \<exists>r. self x = Inr r"
proof -
  assume m: "merge_statements self walked xs = Inr zs" and x: "x \<in> set xs"
  from merge_statements_result [OF m] obtain rs where "mapE self xs = Inr rs" by blast
  with x show ?thesis by (auto simp: mapE_eq_Inr list_all2_conv_all_nth in_set_conv_nth)
qed

lemma wrapper_defined:
  "ast_process (\<lambda>_. wrapper_node f) a = Inr r \<Longrightarrow> e \<in> set (ast_exprs a) \<Longrightarrow> \<exists>r. f e = Inr r"
proof (induction a arbitrary: r)
  case (Statements xs)
  then show ?case by (fastforce simp: wrapper_walk bindE_eq_Inr dest: merge_defined)
next
  case (IfBlock c th el)
  then show ?case
    by (fastforce simp: wrapper_walk bindE_eq_Inr split: option.splits dest: optE_defined)
next
  case (ForBlock kv vv i b el)
  then show ?case
    by (fastforce simp: wrapper_walk bindE_eq_Inr split: option.splits dest: optE_defined)
next
  case (IncludeBlock n s m)
  then show ?case
    by (cases s) (auto simp: wrapper_walk bindE_eq_Inr dest: walk_mapping_defined)
qed (auto simp: wrapper_walk bindE_eq_Inr)

text \<open>
  C34: (accepted inclusions) For a tree as the parser and the resolver build them, without nested
  statement lists, the replacement of variables succeeds exactly when the mapping passes every variable
  that the tree reads, if neither the expressions of the tree nor those of the mapping have a null
  argument.  (A method call that was copied has null arguments, and fails although its variables are
  passed.)  A variable that a loop of
  the included file binds is read in the loop's body, so it has to be passed, too.
\<close>

theorem accepted_inclusion_iff_all_variables_mapped:
  assumes "flat a" and "\<forall>e \<in> set (ast_exprs a). wf_expr e" and "\<forall>e \<in> snd ` set m. wf_expr e"
  shows "(\<exists>r. replaceVariableReferences includeFilename m a = Inr r) \<longleftrightarrow> reads a \<subseteq> fst ` set m"
proof
  assume "\<exists>r. replaceVariableReferences includeFilename m a = Inr r"
  then obtain r where
    r: "ast_process (\<lambda>_. wrapper_node (subst_expr (replacement_of includeFilename m))) a = Inr r"
    by (auto simp: replace_rewrite rewrite_ast_def)
  show "reads a \<subseteq> fst ` set m"
  proof
    fix v assume "v \<in> reads a"
    then obtain e where "e \<in> set (ast_exprs a)" and v: "v \<in> set (expr_vars e)" by auto
    from wrapper_defined [OF r this(1)] obtain e' where
      "subst_expr (replacement_of includeFilename m) e = Inr e'" by blast
    from subst_defined [OF this v] show "v \<in> fst ` set m"
      by (force simp: replacement_of_def split: option.splits dest: map_of_SomeD)
  qed
next
  assume mapped: "reads a \<subseteq> fst ` set m"
  have "\<exists>r. replacement_of includeFilename m v = Inr r" if "v \<in> reads a" for v
  proof -
    from that mapped have "v \<in> fst ` set m" by blast
    then have "map_of m v \<noteq> None" by (simp add: map_of_eq_None_iff)
    then obtain e where e: "map_of m v = Some e" by blast
    then have "e \<in> snd ` set m" by (force dest: map_of_SomeD)
    with assms(3) have "wf_expr e" by blast
    with e clone_total show ?thesis by (simp add: replacement_of_def)
  qed
  then have "\<forall>e \<in> set (ast_exprs a). \<exists>r. subst_expr (replacement_of includeFilename m) e = Inr r"
    using assms(2) by (intro ballI subst_total) auto
  from wrapper_total [OF assms(1) this] show "\<exists>r. replaceVariableReferences includeFilename m a = Inr r"
    by (simp add: replace_rewrite rewrite_ast_def)
qed

theorem accepted_inclusion_witness:
  "\<not> (\<exists>r. replaceVariableReferences ''f'' [(''xs'', VariableReference ''items'')]
        (ForBlock None (Some (VariableReference ''x'')) (VariableReference ''xs'')
           (Some (PrintBlock (VariableReference ''x''))) None) = Inr r)"
  by (subst accepted_inclusion_iff_all_variables_mapped) simp_all

text \<open>
  (loops of included files) With a scope, the use of a loop variable in the loop's body is
  turned into an attribute of the scope, whatever the loop binds: the body of an included loop
  does not see the element it is at.
\<close>

theorem scope_captures_loop_variable:
  assumes "call_free scope" and "subst_expr (scoped scope) iterable = Inr i"
  shows "prependScope scope
      (ForBlock None (Some (VariableReference x)) iterable (Some (PrintBlock (VariableReference x))) None)
    = Inr (ForBlock None (Some (VariableReference x)) i
             (Some (PrintBlock (GetAttribute scope x))) None)"
  using assms
  by (simp add: prependScope_rewrite rewrite_ast_def wrapper_walk scoped_def clone_call_free)

theorem scope_captures_loop_variable_witness:
  "prependScope (VariableReference ''o'')
      (ForBlock None (Some (VariableReference ''x'')) (VariableReference ''xs'')
         (Some (PrintBlock (VariableReference ''x''))) None)
    = Inr (ForBlock None (Some (VariableReference ''x''))
             (GetAttribute (VariableReference ''o'') ''xs'')
             (Some (PrintBlock (GetAttribute (VariableReference ''o'') ''x''))) None)"
  by (rule scope_captures_loop_variable) (simp_all add: scoped_def)

section \<open>Files that include each other\<close>

text \<open>
  C5: (result of resolution) A resolved tree has no inclusion left, whatever the included files
  held, and no statement list of it stands directly inside another one or has a single child.
\<close>

theorem resolved_tree_is_flat_and_include_free:
  assumes "resolve base parse n a = Inr r"
  shows "include_free r \<and> flat r"
  using resolve_include_free [OF assms] resolve_flat [OF assms] by simp

theorem resolved_tree_witness:
  "include_free (Statements [RawBlock ''a'', RawBlock ''b'', PrintBlock (BooleanLiteral True)]) \<and>
   flat (Statements [RawBlock ''a'', RawBlock ''b'', PrintBlock (BooleanLiteral True)])"
  by (rule resolved_tree_is_flat_and_include_free [where n = 4 and base = "''d''" and
        parse = "\<lambda>f. Inr (if f = ''d/x'' then Statements [RawBlock ''a'', RawBlock ''b'']
                       else RawBlock ''c'')" and
        a = "Statements [IncludeBlock ''x'' None [], PrintBlock (BooleanLiteral True)]"])
    (simp add: eval_nat_numeral resolve_Suc process_include_eq resolvePath_def rewrite_ast_def
      wrapper_walk fold_singleton_def)

text \<open>
  C33: (termination) If the files can be ranked so that every file includes files of lower rank
  only, and parsing returns, then the resolution of every tree returns: some fuel is enough, and
  by \<open>resolve_fuel\<close> the outcome is then the same for all larger amounts.
\<close>

theorem resolution_of_ranked_files_returns:
  assumes "ranked base parse rank" and "\<And>f. parse f \<noteq> Inl Diverges"
  shows "\<exists>n. resolve base parse n a \<noteq> Inl Diverges"
  by (rule resolve_tree_returns, rule resolve_ranked_returns [OF assms])

theorem resolution_returns_witness:
  "\<exists>n. resolve ''d'' (\<lambda>f. if f = ''d/x'' then Inr (IncludeBlock ''y'' None []) else Inr (RawBlock ''c'')) n
     (IncludeBlock ''x'' None []) \<noteq> Inl Diverges"
  by (rule resolution_of_ranked_files_returns [where rank = "\<lambda>f. if f = ''d/x'' then 1 else 0"])
    (auto simp: ranked_def resolvePath_def)

text \<open>\<open>circular base parse C\<close>: every file of \<open>C\<close> includes a file of \<open>C\<close>.\<close>

definition circular :: "string \<Rightarrow> (string \<Rightarrow> ast res) \<Rightarrow> string list \<Rightarrow> bool" where
  "circular base parse C \<longleftrightarrow>
     (\<forall>f \<in> set C. case parse f of Inl _ \<Rightarrow> True
        | Inr a \<Rightarrow> list_ex (\<lambda>n. resolvePath base n \<in> set C) (include_names a))"

lemma resolve_circular:
  assumes C: "circular base parse C"
  shows "name \<in> set (include_names a) \<Longrightarrow> resolvePath base name \<in> set C \<Longrightarrow>
    resolve base parse n a \<noteq> Inr r"
proof (induction n arbitrary: a name r)
  case (Suc n)
  show ?case
  proof (cases a)
    case (Statements xs)
    with Suc.prems obtain x where x: "x \<in> set xs" "name \<in> set (include_names x)" by auto
    from Suc.IH [OF x(2) Suc.prems(2)] merge_defined [OF _ x(1), of "resolve base parse n" "[]"]
    show ?thesis using Statements by (auto simp: resolve_Suc bindE_eq_Inr)
  next
    case (IfBlock c th el)
    with Suc.prems obtain x where "th = Some x \<or> el = Some x" "name \<in> set (include_names x)"
      by (auto split: option.splits)
    with Suc.IH [OF this(2) Suc.prems(2)] IfBlock show ?thesis
      by (auto simp: resolve_Suc bindE_eq_Inr)
  next
    case (ForBlock kv vv i b el)
    with Suc.prems obtain x where "b = Some x \<or> el = Some x" "name \<in> set (include_names x)"
      by (auto split: option.splits)
    with Suc.IH [OF this(2) Suc.prems(2)] ForBlock show ?thesis
      by (auto simp: resolve_Suc bindE_eq_Inr)
  next
    case (IncludeBlock nm s m)
    have "resolve base parse n b \<noteq> Inr r'" if "parse (resolvePath base name) = Inr b" for b r'
    proof -
      from C that Suc.prems(2) obtain name' where
        "name' \<in> set (include_names b)" "resolvePath base name' \<in> set C"
        by (fastforce simp: circular_def list_ex_iff)
      then show ?thesis by (rule Suc.IH)
    qed
    with IncludeBlock Suc.prems show ?thesis
      by (auto simp: resolve_Suc process_include_eq bindE_eq_Inr)
  qed (use Suc.prems in auto)
qed simp

text \<open>
  C40: (circular inclusion) If every file of a set includes a file of the set, no inclusion of one
  of them is ever resolved, at any fuel: the pass has no check for a file that is already being
  included, so the program recurses until it fails in some other way.
\<close>

theorem circular_inclusion_is_never_resolved:
  assumes "circular base parse C" and "resolvePath base name \<in> set C"
  shows "resolve base parse n (IncludeBlock name scope m) \<noteq> Inr r"
  by (rule resolve_circular [OF assms(1) _ assms(2)]) simp

theorem circular_inclusion_witness:
  "resolve ''d'' (\<lambda>f. Inr (if f = ''d/x'' then Statements [RawBlock ''a'', IncludeBlock ''y'' None []]
                         else IncludeBlock ''x'' None [])) 9
     (IncludeBlock ''x'' None []) \<noteq> Inr (RawBlock ''a'')"
  by (rule circular_inclusion_is_never_resolved [where C = "[''d/x'', ''d/y'']"])
    (simp_all add: circular_def resolvePath_def)

section \<open>Exceptions and ownership\<close>

lemma resolve_throws:
  assumes "\<And>f x. parse f = Inl (Throws x) \<Longrightarrow> Q x"
  shows "resolve base parse n a = Inl (Throws x) \<Longrightarrow> Q x"
proof (induction n arbitrary: a)
  case (Suc n)
  have opt: "optE (resolve base parse n) p = Inl (Throws x) \<Longrightarrow> Q x" for p
    using Suc.IH by (auto dest: optE_failure)
  show ?case
  proof (cases a)
    case (Statements xs)
    with Suc.prems show ?thesis
      by (auto simp: resolve_Suc bindE_eq_Inl dest!: merge_failure intro: Suc.IH)
  next
    case (IncludeBlock name s m)
    with Suc.prems show ?thesis
      by (auto simp: resolve_Suc process_include_eq bindE_eq_Inl intro: Suc.IH assms)
  qed (use Suc.prems opt in \<open>auto simp: resolve_Suc bindE_eq_Inl\<close>)
qed simp

text \<open>
  C19: (the missing variable error is lost) No missing variable error ever comes out of the
  resolution of a template, if the parser throws none: the pass manager has deleted the included
  tree when the exception passes the owner of that tree, so the inclusion ends in a double delete.
\<close>

theorem missing_variable_is_never_reported:
  assumes "\<forall>f x. parse f = Inl (Throws x) \<longrightarrow> (\<nexists>fname v. x = MissingVariableReferenceError fname v)"
  shows "resolve base parse n a \<noteq> Inl (Throws (MissingVariableReferenceError fname v))"
  using resolve_throws [of parse "\<lambda>x. \<nexists>fname v. x = MissingVariableReferenceError fname v"] assms
  by blast

theorem missing_variable_witness:
  "resolve ''b'' (\<lambda>_. Inr (PrintBlock (VariableReference ''v''))) 3 (IncludeBlock ''x'' None [])
     \<noteq> Inl (Throws (MissingVariableReferenceError ''b/x'' ''v'')) \<and>
   resolve ''b'' (\<lambda>_. Inr (PrintBlock (VariableReference ''v''))) 3 (IncludeBlock ''x'' None [])
     = Inl (Undefined DoubleDelete)"
  using missing_variable_is_never_reported
    [of "\<lambda>_. Inr (PrintBlock (VariableReference ''v''))" "''b''" 3 "IncludeBlock ''x'' None []" "''b/x''" "''v''"]
  by (simp add: eval_nat_numeral resolve_Suc process_include_eq rewrite_ast_def wrapper_walk
      resolvePath_def replacement_of_def unwound_def)

end
