(* ===== verification/Fold_Laws.thy ===== *)
theory Fold_Laws
  imports Include_Laws
begin

text \<open>
  What constant folding guarantees: it is one bottom-up traversal, a second run changes nothing,
  it commutes with the substitution of include parameters, integer folding is exact arithmetic,
  and the ways it can fail.
\<close>

section \<open>The pass as a function\<close>

text \<open>
  C3: (equivalence) The walk of \<open>FoldConstantExpressionsPass\<close>, in which every overload folds its
  operands through the walker and the walker then visits them again, gives the outcome of the
  single bottom-up traversal \<open>fold_ref\<close>; in particular it returns.
\<close>

theorem folding_is_one_traversal:
  "expr_process FoldConstantExpressionsPass e = fold_ref e"
  by (rule fold.process_spec)

lemma folding_eq: "expr_process FoldConstantExpressionsPass = fold_ref"
  by (rule ext) (rule fold.process_spec)

text \<open>
  (idempotence) Folding a folded expression gives the same expression, and the folded
  expression is not larger than the original.
\<close>

theorem folding_idempotent:
  assumes "expr_process FoldConstantExpressionsPass e = Inr e'"
  shows "expr_process FoldConstantExpressionsPass e' = Inr e' \<and> size e' \<le> size e"
  using fold_ref_settled [of e e'] assms by (simp add: folding_eq)

theorem folding_idempotent_witness:
  "expr_process FoldConstantExpressionsPass
      (BinaryOperation (VariableReference ''x'') (IntegerLiteral 6) Addition)
    = Inr (BinaryOperation (VariableReference ''x'') (IntegerLiteral 6) Addition) \<and>
   size (BinaryOperation (VariableReference ''x'') (IntegerLiteral 6) Addition)
    \<le> size (BinaryOperation (VariableReference ''x'')
         (BinaryOperation (IntegerLiteral 2) (IntegerLiteral 3) Multiplication) Addition)"
  by (rule folding_idempotent)
    (simp add: folding_eq fold_node_defs long_mul_def long_of_int_def)

section \<open>Folding and substitution\<close>

lemma folded_binary_literal:
  "fold_binary_node l r op = Inr e' \<Longrightarrow> isLiteralExpression e' \<Longrightarrow>
     isLiteralExpression l \<and> isLiteralExpression r"
  by (auto simp: fold_binary_node_def split: if_splits)

lemma folded_unary_literal:
  "fold_unary_node l uop = Inr e' \<Longrightarrow> isLiteralExpression e' \<Longrightarrow> isLiteralExpression l"
  by (cases l) (auto simp: fold_node_defs Let_def split: if_splits)

lemma folded_comparison_literal:
  "fold_comparison_node l r cop = Inr e' \<Longrightarrow> isLiteralExpression e' \<Longrightarrow>
     isLiteralExpression l \<and> isLiteralExpression r"
  by (auto simp: fold_comparison_node_def split: if_splits)

lemma subst_literal [simp]: "isLiteralExpression e \<Longrightarrow> subst_expr f e = Inr e"
  by (cases e) auto

text \<open>
  The relation between an expression and its folding that substitution keeps: both substitutions
  fail alike, and their results fold alike.
\<close>

definition folds_alike :: "(string \<Rightarrow> expr res) \<Rightarrow> expr \<Rightarrow> expr \<Rightarrow> bool" where
  "folds_alike f e e' \<longleftrightarrow>
     (case subst_expr f e of
        Inl k \<Rightarrow> subst_expr f e' = Inl k
      | Inr s \<Rightarrow> \<exists>s'. subst_expr f e' = Inr s' \<and> fold_ref s' = fold_ref s)"

lemma folds_alike_refl: "folds_alike f e e"
  by (simp add: folds_alike_def split: sum.split)

lemma folds_alike_literal:
  "folds_alike f e l \<Longrightarrow> isLiteralExpression l \<Longrightarrow> \<exists>s. subst_expr f e = Inr s \<and> fold_ref s = Inr l"
  by (auto simp: folds_alike_def split: sum.splits)

lemma folds_alike_arguments:
  assumes "\<And>e e'. Some e \<in> set args \<Longrightarrow> fold_ref e = Inr e' \<Longrightarrow> folds_alike f e e'"
    and "walk_arguments fold_ref args = Inr as"
  shows "case walk_arguments (subst_expr f) args of
           Inl k \<Rightarrow> walk_arguments (subst_expr f) as = Inl k
         | Inr ss \<Rightarrow> \<exists>ss'. walk_arguments (subst_expr f) as = Inr ss' \<and>
             walk_arguments fold_ref ss' = walk_arguments fold_ref ss"
  using assms
proof (induction args arbitrary: as)
  case (Cons p ps)
  from Cons.prems(2) obtain e e' as' where p: "p = Some e" and e': "fold_ref e = Inr e'"
    and as': "walk_arguments fold_ref ps = Inr as'" and as: "as = Some e' # as'"
    by (cases p) (auto simp: walk_arguments_Cons bindE_eq_Inr)
  have "folds_alike f e e'" using Cons.prems(1) p e' by simp
  moreover have "case walk_arguments (subst_expr f) ps of
           Inl k \<Rightarrow> walk_arguments (subst_expr f) as' = Inl k
         | Inr ss \<Rightarrow> \<exists>ss'. walk_arguments (subst_expr f) as' = Inr ss' \<and>
             walk_arguments fold_ref ss' = walk_arguments fold_ref ss"
    using Cons.prems(1) as' by (intro Cons.IH) auto
  ultimately show ?case
    by (auto simp: p as walk_arguments_Cons folds_alike_def split: sum.splits)
qed simp

lemma fold_ref_folds_alike: "fold_ref e = Inr e' \<Longrightarrow> folds_alike f e e'"
proof (induction e arbitrary: e')
  case (GetAttribute v a)
  then obtain v' where v': "fold_ref v = Inr v'" and e': "e' = GetAttribute v' a"
    by (auto simp: bindE_eq_Inr)
  from GetAttribute.IH [OF v'] e' show ?case by (auto simp: folds_alike_def split: sum.splits)
next
  case (MethodCall m args)
  then obtain as where as: "walk_arguments fold_ref args = Inr as" and e': "e' = MethodCall m as"
    by (auto simp: bindE_eq_Inr)
  have "folds_alike f e x" if "Some e \<in> set args" "fold_ref e = Inr x" for e x
    using MethodCall.IH that by auto
  from folds_alike_arguments [OF this as] e' show ?case
    by (auto simp: folds_alike_def split: sum.splits)
next
  case (BinaryOperation l r op)
  then obtain l' r' where l': "fold_ref l = Inr l'" and r': "fold_ref r = Inr r'"
    and e': "fold_binary_node l' r' op = Inr e'" by (auto simp: bindE_eq_Inr)
  note IH = BinaryOperation.IH(1) [OF l'] BinaryOperation.IH(2) [OF r']
  from fold_binary_node_cases [OF e'] show ?case
  proof
    assume lit: "isLiteralExpression e'"
    with folded_binary_literal [OF e'] IH folds_alike_literal obtain sl sr where
      "subst_expr f l = Inr sl" "fold_ref sl = Inr l'" "subst_expr f r = Inr sr" "fold_ref sr = Inr r'"
      by meson
    with e' lit show ?thesis by (simp add: folds_alike_def)
  next
    assume "e' = BinaryOperation l' r' op"
    with IH show ?thesis by (auto simp: folds_alike_def split: sum.splits)
  qed
next
  case (UnaryOperation u op)
  then obtain u' where u': "fold_ref u = Inr u'" and e': "fold_unary_node u' op = Inr e'"
    by (auto simp: bindE_eq_Inr)
  note IH = UnaryOperation.IH [OF u']
  from fold_unary_node_cases [OF e'] show ?case
  proof
    assume lit: "isLiteralExpression e'"
    with folded_unary_literal [OF e'] IH folds_alike_literal obtain su where
      "subst_expr f u = Inr su" "fold_ref su = Inr u'" by meson
    with e' lit show ?thesis by (simp add: folds_alike_def)
  next
    assume "e' = UnaryOperation u' op"
    with IH show ?thesis by (auto simp: folds_alike_def split: sum.splits)
  qed
next
  case (Comparison l r op)
  then obtain l' r' where l': "fold_ref l = Inr l'" and r': "fold_ref r = Inr r'"
    and e': "fold_comparison_node l' r' op = Inr e'" by (auto simp: bindE_eq_Inr)
  note IH = Comparison.IH(1) [OF l'] Comparison.IH(2) [OF r']
  from fold_comparison_node_cases [OF e'] show ?case
  proof
    assume lit: "isLiteralExpression e'"
    with folded_comparison_literal [OF e'] IH folds_alike_literal obtain sl sr where
      "subst_expr f l = Inr sl" "fold_ref sl = Inr l'" "subst_expr f r = Inr sr" "fold_ref sr = Inr r'"
      by meson
    with e' lit show ?thesis by (simp add: folds_alike_def)
  next
    assume "e' = Comparison l' r' op"
    with IH show ?thesis by (auto simp: folds_alike_def split: sum.splits)
  qed
qed (auto simp: folds_alike_refl)

text \<open>
  C4: (soundness of folding) Folding does not depend on what the variables will be: if the folding of an
  expression succeeds, then replacing the variables of its result by any expressions, values included,
  and folding again gives the outcome of replacing first and folding once, also where that outcome is a
  failure.  (If the first folding fails nothing is said: the other order may fail by another error, of a
  variable that is not mapped.)
\<close>

theorem folding_commutes_with_replacement:
  assumes "expr_process FoldConstantExpressionsPass e = Inr e'"
  shows "bindE (expr_process (ReplaceVariableReferencesPass fname m) e')
           (expr_process FoldConstantExpressionsPass)
       = bindE (expr_process (ReplaceVariableReferencesPass fname m) e)
           (expr_process FoldConstantExpressionsPass)"
  using fold_ref_folds_alike [of e e' "replacement_of fname m"] assms
  by (auto simp: folding_eq expr_process_replace folds_alike_def split: sum.splits)

theorem folding_commutes_witness:
  "bindE (expr_process (ReplaceVariableReferencesPass ''f'' [(''x'', IntegerLiteral 4)])
        (BinaryOperation (VariableReference ''x'') (IntegerLiteral 6) Addition))
      (expr_process FoldConstantExpressionsPass)
   = bindE (expr_process (ReplaceVariableReferencesPass ''f'' [(''x'', IntegerLiteral 4)])
        (BinaryOperation (VariableReference ''x'')
           (BinaryOperation (IntegerLiteral 2) (IntegerLiteral 3) Multiplication) Addition))
      (expr_process FoldConstantExpressionsPass)"
  by (rule folding_commutes_with_replacement)
    (simp add: folding_eq fold_node_defs long_mul_def long_of_int_def)

section \<open>Integer folding\<close>

text \<open>
  The exact value of an expression of integer literals and arithmetic operators, over the
  unbounded integers; division truncates towards zero, and has no value for a zero divisor.
\<close>

fun exact_binary :: "binary_op \<Rightarrow> int \<Rightarrow> int \<Rightarrow> int option" where
  "exact_binary Addition a b = Some (a + b)"
| "exact_binary Subtraction a b = Some (a - b)"
| "exact_binary Multiplication a b = Some (a * b)"
| "exact_binary Division a b = (if b = 0 then None else Some (a sdiv b))"
| "exact_binary Modulus a b = (if b = 0 then None else Some (a smod b))"

fun exact_value :: "expr \<Rightarrow> int option" where
  "exact_value (IntegerLiteral v) = Some (sint v)"
| "exact_value (BinaryOperation l r op) =
     (case exact_value l of None \<Rightarrow> None
      | Some a \<Rightarrow> (case exact_value r of None \<Rightarrow> None | Some b \<Rightarrow> exact_binary op a b))"
| "exact_value (UnaryOperation e op) =
     (case exact_value e of None \<Rightarrow> None
      | Some a \<Rightarrow> (case op of NumericPositive \<Rightarrow> Some a | NumericNegative \<Rightarrow> Some (- a)
                  | BooleanNegation \<Rightarrow> None))"
| "exact_value _ = None"

text \<open>
  Every operation of the expression has a representable result; the remainder also needs a
  representable quotient, since C++ defines it through the quotient.
\<close>

fun in_long :: "int option \<Rightarrow> bool" where
  "in_long None = False"
| "in_long (Some i) = (- (2 ^ 63) \<le> i \<and> i < 2 ^ 63)"

fun no_overflow :: "expr \<Rightarrow> bool" where
  "no_overflow (BinaryOperation l r op) =
     (no_overflow l \<and> no_overflow r \<and> in_long (exact_value (BinaryOperation l r op)) \<and>
      in_long (exact_value (BinaryOperation l r (if op = Modulus then Division else op))))"
| "no_overflow (UnaryOperation e op) =
     (no_overflow e \<and> in_long (exact_value (UnaryOperation e op)))"
| "no_overflow _ = True"

lemma sint_eq_0 [simp]: "sint (w :: long) = 0 \<longleftrightarrow> w = 0"
  by (metis sint_0 signed_word_eqI)

lemma sint_multiplier [simp]: "sint (word_of_int (- 1) :: long) = - 1" "sint (1 :: long) = 1"
  by (simp_all add: sint_sbintrunc')

lemma sint_eq_iff [simp]: "sint (v :: long) = sint w \<longleftrightarrow> v = w"
  by (rule signed_word_eqI [THEN iffI]) simp_all

lemma in_long_iff: "in_long (Some i) \<longleftrightarrow> (\<exists>w :: long. i = sint w)"
  by (metis in_long.simps(2) long_of_int_def long_of_int_eq_Inr_iff sint_long_bounds)

lemma long_of_int_returns_iff: "(\<exists>w. long_of_int i = Inr w) \<longleftrightarrow> in_long (Some i)"
  by (auto simp: long_of_int_def)

lemma in_long_sint [simp]: "in_long (Some (sint (w :: long)))"
  using sint_long_bounds [of w] by simp

definition exact_result :: "binary_op \<Rightarrow> long \<Rightarrow> long \<Rightarrow> long \<Rightarrow> bool" where
  "exact_result op a b w \<longleftrightarrow>
     exact_binary op (sint a) (sint b) = Some (sint w) \<and>
     in_long (exact_binary (if op = Modulus then Division else op) (sint a) (sint b))"

lemma fold_integers_iff:
  "fold_integer_binary (IntegerLiteral a) (IntegerLiteral b) op = Inr (IntegerLiteral w) \<longleftrightarrow>
     exact_result op a b w"
  by (cases op)
    (auto simp: exact_result_def fold_integer_binary_def long_add_def long_sub_def long_mul_def long_div_def
      long_mod_def bindE_eq_Inr long_of_int_eq_Inr_iff in_long_iff simp del: in_long.simps(2))

lemma fold_binary_integer_iff:
  "fold_binary_node l r op = Inr (IntegerLiteral w) \<longleftrightarrow>
     (\<exists>a b. l = IntegerLiteral a \<and> r = IntegerLiteral b \<and>
        exact_result op a b w)"
proof (cases "\<exists>a b. l = IntegerLiteral a \<and> r = IntegerLiteral b")
  case True
  then show ?thesis by (auto simp: fold_binary_node_def fold_integers_iff)
next
  case False
  then show ?thesis
    by (cases l; cases r) (auto simp: fold_binary_node_def fold_double_binary_def split: binary_op.splits)
qed

lemma fold_unary_integer_iff:
  "fold_unary_node u op = Inr (IntegerLiteral w) \<longleftrightarrow>
     (\<exists>a. u = IntegerLiteral a \<and> op \<noteq> BooleanNegation \<and>
        sint w = (if op = NumericNegative then - sint a else sint a))"
  by (cases u; cases op)
    (auto simp: fold_node_defs long_mul_def bindE_eq_Inr long_of_int_eq_Inr_iff Let_def)

lemma fold_comparison_not_integer: "fold_comparison_node l r op \<noteq> Inr (IntegerLiteral w)"
  by (auto simp: fold_node_defs bindE_eq_Inr Let_def split: if_splits)

lemma no_overflow_representable:
  "no_overflow e \<Longrightarrow> exact_value e = Some i \<Longrightarrow> \<exists>w :: long. i = sint w"
  by (induction e rule: no_overflow.induct) (auto simp flip: in_long_iff simp del: in_long.simps(2))

lemma exact_binary_no_overflow_iff:
  "no_overflow (BinaryOperation l r op) \<and> exact_value (BinaryOperation l r op) = Some (sint (w :: long)) \<longleftrightarrow>
     (\<exists>a b :: long. (no_overflow l \<and> exact_value l = Some (sint a)) \<and>
        (no_overflow r \<and> exact_value r = Some (sint b)) \<and>
        exact_result op a b w)"
proof (cases "no_overflow l \<and> no_overflow r")
  case True
  show ?thesis
  proof (cases "exact_value l = None \<or> exact_value r = None")
    case False
    then obtain i j where ij: "exact_value l = Some i" "exact_value r = Some j" by auto
    with True no_overflow_representable obtain a b :: long where "i = sint a" "j = sint b" by blast
    with True ij in_long_sint [of w] show ?thesis
      by (auto simp: exact_result_def simp del: in_long.simps)
  qed (auto split: option.splits)
qed auto

lemma exact_unary_no_overflow_iff:
  "no_overflow (UnaryOperation u op) \<and> exact_value (UnaryOperation u op) = Some (sint (w :: long)) \<longleftrightarrow>
     (\<exists>a :: long. (no_overflow u \<and> exact_value u = Some (sint a)) \<and> op \<noteq> BooleanNegation \<and>
        sint w = (if op = NumericNegative then - sint a else sint a))"
  using no_overflow_representable [of u] in_long_sint [of w]
  by (cases "exact_value u"; cases op) (auto simp: in_long_iff simp del: in_long.simps(2) intro: exI [of _ w] sym)

text \<open>
  C7: (exact arithmetic) Folding gives an integer literal exactly for the expressions of integer
  literals and arithmetic operators in which no operation overflows and no divisor is zero, and
  the literal is then the exact value of the expression.
\<close>

theorem integer_folding_exact:
  "expr_process FoldConstantExpressionsPass e = Inr (IntegerLiteral w) \<longleftrightarrow>
     no_overflow e \<and> exact_value e = Some (sint w)"
  unfolding folding_eq
proof (induction e arbitrary: w)
  case (BinaryOperation l r op)
  have "fold_ref (BinaryOperation l r op) = Inr (IntegerLiteral w) \<longleftrightarrow>
    (\<exists>a b. fold_ref l = Inr (IntegerLiteral a) \<and> fold_ref r = Inr (IntegerLiteral b) \<and>
        exact_result op a b w)"
    by (auto simp: bindE_eq_Inr fold_binary_integer_iff)
  then show ?case by (simp only: exact_binary_no_overflow_iff BinaryOperation.IH simp_thms)
next
  case (UnaryOperation u op)
  have "fold_ref (UnaryOperation u op) = Inr (IntegerLiteral w) \<longleftrightarrow>
    (\<exists>a. fold_ref u = Inr (IntegerLiteral a) \<and> op \<noteq> BooleanNegation \<and>
        sint w = (if op = NumericNegative then - sint a else sint a))"
    by (auto simp: bindE_eq_Inr fold_unary_integer_iff)
  then show ?case by (simp only: exact_unary_no_overflow_iff UnaryOperation.IH)
next
  case (Comparison l r op)
  then show ?case by (auto simp: bindE_eq_Inr fold_comparison_not_integer)
qed (auto simp: bindE_eq_Inr)

section \<open>Comparisons of literals\<close>

fun compare_ints :: "comparison_op \<Rightarrow> int \<Rightarrow> int \<Rightarrow> bool" where
  "compare_ints Equal a b = (a = b)"
| "compare_ints NotEqual a b = (a \<noteq> b)"
| "compare_ints GreaterThan a b = (a > b)"
| "compare_ints GreaterOrEqual a b = (a \<ge> b)"
| "compare_ints LessThan a b = (a < b)"
| "compare_ints LessOrEqual a b = (a \<le> b)"
| "compare_ints _ a b = False"

text \<open>
  (comparison of integers) The comparison of two integer literals goes through \<open>double\<close>; below
  \<open>2 ^ 53\<close> in magnitude, where every integer has its own double, the folded truth value is that of
  the integers.
\<close>

theorem integer_comparison_exact_below_2_53:
  assumes "\<bar>sint a\<bar> < 2 ^ 53" and "\<bar>sint b\<bar> < 2 ^ 53" and "op \<noteq> Or" and "op \<noteq> And"
  shows "expr_process FoldConstantExpressionsPass
      (Comparison (IntegerLiteral a) (IntegerLiteral b) op)
    = Inr (BooleanLiteral (compare_ints op (sint a) (sint b)))"
  using assms small_integers_compare_exactly [OF assms(1,2)]
    small_integers_compare_exactly [OF assms(2,1)]
  by (cases op) (simp_all add: folding_eq fold_node_defs double_of_long_def Let_def)

theorem integer_comparison_witness:
  "expr_process FoldConstantExpressionsPass
      (Comparison (IntegerLiteral 9007199254740991) (IntegerLiteral 9007199254740990) GreaterThan)
    = Inr (BooleanLiteral (compare_ints GreaterThan 9007199254740991 9007199254740990))"
  using integer_comparison_exact_below_2_53
    [of "9007199254740991" "9007199254740990" GreaterThan] by simp

text \<open>
  (comparison of large integers) From \<open>2 ^ 53 + 1\<close> on it is not: the integer literals
  9007199254740993 and 9007199254740992 are folded to equal.
\<close>

theorem large_integers_fold_to_equal:
  "expr_process FoldConstantExpressionsPass
     (Comparison (IntegerLiteral 9007199254740993) (IntegerLiteral 9007199254740992) Equal)
   = Inr (BooleanLiteral True) \<and> (9007199254740993 :: long) \<noteq> 9007199254740992"
  unfolding folding_eq by (intro conjI; code_simp)

text \<open>
  (ordering of mixed literals) Folding an ordering comparison of two literals of which exactly
  one is a number reads the other one as a double through a wrong cast; the guard meant to
  exclude it tests that neither is a number.  Two non-numbers are left as they are.
\<close>

theorem ordering_of_mixed_literals_is_undefined:
  assumes "isLiteralExpression l" and "isLiteralExpression r"
    and "op \<in> {GreaterThan, GreaterOrEqual, LessThan, LessOrEqual}"
  shows "expr_process FoldConstantExpressionsPass (Comparison l r op) = Inl (Undefined TypeConfusion)
    \<longleftrightarrow> isNumericLiteralExpression l \<noteq> isNumericLiteralExpression r"
  using assms
  by (cases l; cases r) (auto simp: folding_eq fold_comparison_node_def fold_relational_def)

theorem ordering_of_mixed_literals_witness:
  "expr_process FoldConstantExpressionsPass
     (Comparison (IntegerLiteral 1) (StringLiteral ''a'') LessThan) = Inl (Undefined TypeConfusion)
   \<longleftrightarrow> isNumericLiteralExpression (IntegerLiteral 1) \<noteq> isNumericLiteralExpression (StringLiteral ''a'')"
  by (rule ordering_of_mixed_literals_is_undefined) simp_all

section \<open>Errors\<close>

definition fold_errors :: "failure list" where
  "fold_errors = [Throws (RuntimeError ''Division by zero''), Throws (RuntimeError ''Modulo by zero''),
     Undefined SignedOverflow, Undefined TypeConfusion]"

lemma long_of_int_failure: "long_of_int i = Inl k \<Longrightarrow> k = Undefined SignedOverflow"
  by (auto simp: long_of_int_def split: if_splits)

lemma fold_node_failure:
  "fold_binary_node l r op = Inl k \<Longrightarrow> k \<in> set fold_errors"
  "fold_unary_node u uop = Inl k \<Longrightarrow> k \<in> set fold_errors"
  "fold_comparison_node l r cop = Inl k \<Longrightarrow> k \<in> set fold_errors"
proof -
  show "fold_binary_node l r op = Inl k \<Longrightarrow> k \<in> set fold_errors"
    by (cases l; cases r; cases op)
      (auto simp: fold_errors_def fold_binary_node_def fold_double_binary_def fold_integer_binary_def
        long_add_def long_sub_def long_mul_def long_div_def long_mod_def bindE_eq_Inl
        dest!: long_of_int_failure split: if_splits)
  show "fold_unary_node u uop = Inl k \<Longrightarrow> k \<in> set fold_errors"
    by (cases u) (auto simp: fold_errors_def fold_unary_node_def fold_unary_numeric_def
        fold_unary_boolean_def long_mul_def bindE_eq_Inl Let_def
        dest!: long_of_int_failure split: if_splits)
  show "fold_comparison_node l r cop = Inl k \<Longrightarrow> k \<in> set fold_errors"
    by (cases l; cases r) (auto simp: fold_errors_def fold_comparison_node_def fold_equality_def
        fold_relational_def fold_logical_def Let_def split: if_splits)
qed

text \<open>
  The failures of an expression in the order in which they come up, operands first.  An operator has a
  failure of its own when its operands fold to literals it cannot deal with.
\<close>

definition folded :: "expr \<Rightarrow> expr option" where
  "folded e = (case expr_process FoldConstantExpressionsPass e of Inl k \<Rightarrow> None | Inr e' \<Rightarrow> Some e')"

definition overflow_failures :: "int \<Rightarrow> failure list" where
  "overflow_failures i = (if in_long (Some i) then [] else [Undefined SignedOverflow])"

fun binary_failures :: "binary_op \<Rightarrow> expr option \<Rightarrow> expr option \<Rightarrow> failure list" where
  "binary_failures op (Some (IntegerLiteral a)) (Some (IntegerLiteral b)) =
     (if op = Division \<and> b = 0 then [Throws (RuntimeError ''Division by zero'')]
      else if op = Modulus \<and> b = 0 then [Throws (RuntimeError ''Modulo by zero'')]
      else overflow_failures (the (exact_binary (if op = Modulus then Division else op) (sint a) (sint b))))"
| "binary_failures op l r = []"

fun unary_failures :: "unary_op \<Rightarrow> expr option \<Rightarrow> failure list" where
  "unary_failures NumericNegative (Some (IntegerLiteral a)) = overflow_failures (- sint a)"
| "unary_failures op e = []"

text \<open>
  An ordering comparison needs two numbers or none among two literals, a logical operator a boolean on
  the left, and one on the right if the left one does not decide, or no boolean at all.
\<close>

definition wrong_literals :: "comparison_op \<Rightarrow> expr \<Rightarrow> expr \<Rightarrow> bool" where
  "wrong_literals op l r \<longleftrightarrow>
     (if op \<in> {Equal, NotEqual} then False
      else if op \<in> {Or, And}
      then (isBooleanLiteralExpression l \<or> isBooleanLiteralExpression r) \<and>
        \<not> (isBooleanLiteralExpression l \<and> (isBooleanLiteralExpression r \<or> l = BooleanLiteral (op = Or)))
      else isNumericLiteralExpression l \<noteq> isNumericLiteralExpression r)"

fun comparison_failures :: "comparison_op \<Rightarrow> expr option \<Rightarrow> expr option \<Rightarrow> failure list" where
  "comparison_failures op (Some l) (Some r) =
     (if isLiteralExpression l \<and> isLiteralExpression r \<and> wrong_literals op l r
      then [Undefined TypeConfusion] else [])"
| "comparison_failures op l r = []"

fun fold_failures :: "expr \<Rightarrow> failure list" where
  "fold_failures (GetAttribute v a) = fold_failures v"
| "fold_failures (MethodCall m args) =
     concat (map (\<lambda>p. case p of None \<Rightarrow> [Undefined NullDeref] | Some e \<Rightarrow> fold_failures e) args)"
| "fold_failures (BinaryOperation l r op) =
     fold_failures l @ fold_failures r @ binary_failures op (folded l) (folded r)"
| "fold_failures (UnaryOperation e op) = fold_failures e @ unary_failures op (folded e)"
| "fold_failures (Comparison l r op) =
     fold_failures l @ fold_failures r @ comparison_failures op (folded l) (folded r)"
| "fold_failures e = []"

lemma folded_eq [simp]: "fold_ref e = Inl k \<Longrightarrow> folded e = None" "fold_ref e = Inr e' \<Longrightarrow> folded e = Some e'"
  by (simp_all add: folded_def folding_eq)

abbreviation first_failure :: "'a res \<Rightarrow> failure list \<Rightarrow> bool" where
  "first_failure m ks \<equiv> (\<forall>k. m = Inl k \<longleftrightarrow> (\<exists>ks'. ks = k # ks'))"

lemma first_failure_bindE:
  assumes "first_failure m ks" and "\<And>x. m = Inr x \<Longrightarrow> first_failure (f x) ls"
  shows "first_failure (bindE m f) (ks @ ls)"
proof (cases m)
  case (Inl k)
  with assms(1) obtain ks' where "ks = k # ks'" by blast
  with Inl show ?thesis by auto
next
  case (Inr x)
  with assms(1) have "ks = []" by (cases ks) auto
  with assms(2) [OF Inr] Inr show ?thesis by simp
qed

lemma long_of_int_overflow: "first_failure (long_of_int i) (overflow_failures i)"
  by (auto simp: long_of_int_def overflow_failures_def)

lemma remainder_fits:
  assumes "b \<noteq> 0"
  shows "overflow_failures (sint (a :: long) smod sint (b :: long)) = []"
proof -
  have "sint a smod sint b \<in> {- \<bar>sint b\<bar> + 1..\<bar>sint b\<bar> - 1}"
    using assms by (intro smod_int_range) simp
  then have "- (2 ^ 63) \<le> sint a smod sint b" "sint a smod sint b < 2 ^ 63"
    using sint_long_bounds [of b] unfolding atLeastAtMost_iff by linarith+
  then show ?thesis by (simp only: overflow_failures_def in_long.simps simp_thms if_True)
qed

lemmas long_operation_defs = long_add_def long_sub_def long_mul_def long_div_def long_mod_def

lemma fold_integers_first_failure:
  "first_failure (fold_integer_binary (IntegerLiteral a) (IntegerLiteral b) op)
     (binary_failures op (Some (IntegerLiteral a)) (Some (IntegerLiteral b)))"
  by (cases op)
    (auto simp: fold_integer_binary_def long_operation_defs bindE_eq_Inl long_of_int_overflow remainder_fits)

lemma fold_binary_first_failure:
  "first_failure (fold_binary_node l r op) (binary_failures op (Some l) (Some r))"
proof (cases "\<exists>a b. l = IntegerLiteral a \<and> r = IntegerLiteral b")
  case True
  then show ?thesis using fold_integers_first_failure by (fastforce simp: fold_binary_node_def)
next
  case False
  then show ?thesis
    by (cases l; cases r) (auto simp: fold_binary_node_def fold_double_binary_def split: binary_op.splits)
qed

lemma fold_unary_first_failure: "first_failure (fold_unary_node u op) (unary_failures op (Some u))"
  by (cases u; cases op)
    (auto simp: fold_unary_node_def fold_unary_numeric_def fold_unary_boolean_def long_mul_def bindE_eq_Inl
      Let_def long_of_int_overflow)

lemma fold_comparison_first_failure:
  "first_failure (fold_comparison_node l r op) (comparison_failures op (Some l) (Some r))"
  by (cases l; cases r; cases op)
    (auto simp: fold_comparison_node_def fold_equality_def fold_relational_def fold_logical_def
      wrong_literals_def Let_def)

lemma fold_arguments_first_failure:
  assumes "\<And>e. Some e \<in> set args \<Longrightarrow> first_failure (f e) (g e)"
  shows "first_failure (walk_arguments f args)
    (concat (map (\<lambda>p. case p of None \<Rightarrow> [Undefined NullDeref] | Some e \<Rightarrow> g e) args))"
  using assms
proof (induction args)
  case (Cons p ps)
  note tail = Cons.IH [OF Cons.prems]
  show ?case
  proof (cases p)
    case (Some e)
    have "first_failure (bindE (walk_arguments f ps) (\<lambda>qs. Inr (Some e' # qs)))
        (concat (map (\<lambda>p. case p of None \<Rightarrow> [Undefined NullDeref] | Some e \<Rightarrow> g e) ps) @ [])" for e'
      by (rule first_failure_bindE [OF tail]) simp_all
    from first_failure_bindE [OF Cons.prems [of e] this] Some show ?thesis
      by (simp add: walk_arguments_Cons)
  qed (auto simp: walk_arguments_Cons)
qed simp

lemma fold_ref_first_failure: "first_failure (fold_ref e) (fold_failures e)"
proof (induction e)
  case (GetAttribute v a)
  from first_failure_bindE [OF this, where f = "\<lambda>v. Inr (GetAttribute v a)" and ls = "[]"] show ?case by simp
next
  case (MethodCall m args)
  have "first_failure (walk_arguments fold_ref args)
      (concat (map (\<lambda>p. case p of None \<Rightarrow> [Undefined NullDeref] | Some e \<Rightarrow> fold_failures e) args))"
    by (rule fold_arguments_first_failure) (use MethodCall.IH in simp)
  from first_failure_bindE [OF this, where f = "\<lambda>as. Inr (MethodCall m as)" and ls = "[]"]
  show ?case by simp
next
  case (BinaryOperation l r op)
  have "first_failure (bindE (fold_ref r) (\<lambda>r. fold_binary_node l' r op))
      (fold_failures r @ binary_failures op (folded l) (folded r))" if "fold_ref l = Inr l'" for l'
    using that fold_binary_first_failure by (intro first_failure_bindE [OF BinaryOperation.IH(2)]) simp
  from first_failure_bindE [OF BinaryOperation.IH(1) this] show ?case by simp
next
  case (UnaryOperation u op)
  from first_failure_bindE [OF UnaryOperation.IH,
      where f = "\<lambda>u. fold_unary_node u op" and ls = "unary_failures op (folded u)"]
    fold_unary_first_failure show ?case by simp
next
  case (Comparison l r op)
  have "first_failure (bindE (fold_ref r) (\<lambda>r. fold_comparison_node l' r op))
      (fold_failures r @ comparison_failures op (folded l) (folded r))" if "fold_ref l = Inr l'" for l'
    using that fold_comparison_first_failure by (intro first_failure_bindE [OF Comparison.IH(2)]) simp
  from first_failure_bindE [OF Comparison.IH(1) this] show ?case by simp
qed simp_all

text \<open>
  C35: (errors of folding) Folding fails exactly if its expression has a failure, with the first one in
  the order of evaluation: the division or the modulus of two integers by zero, which throw; an integer
  operation or negation whose exact result does not fit, and a modulus whose quotient does not; the
  ordering of a number and another literal; a logical operator on literals of which one is a boolean
  and one that it needs is not; a null argument, which copied method calls have.
\<close>

theorem folding_errors:
  "expr_process FoldConstantExpressionsPass e = Inl k \<longleftrightarrow> (\<exists>ks. fold_failures e = k # ks)"
  using fold_ref_first_failure [of e] by (simp add: folding_eq)

end
