(* ===== verification/Raw_Laws.thy ===== *)
theory Raw_Laws
  imports Fold_Laws
begin

text \<open>
  What the passes on raw text guarantee: the buffer of the joined text is filled exactly, no two
  raw blocks stay neighbours, a second run changes nothing, and no print block of a literal
  remains.
\<close>

section \<open>The joined buffer\<close>

text \<open>
  C38: (memory safety) \<open>concat\<close> never writes outside of the block it allocates, fills every byte
  of it, and the C string in it is the concatenation of its arguments.
\<close>

theorem concat_fills_its_buffer:
  assumes "\<And>s. s \<in> set strings \<Longrightarrow> nul_free s"
  shows "\<exists>buf. concat_strings garbage strings = Inr buf \<and>
    length buf = Suc (sum_list (map length strings)) \<and> c_string buf = concat strings"
proof -
  have "nul_free (concat strings)" using assms by (auto simp: nul_free_def)
  then show ?thesis by (simp add: concat_strings_spec c_string_terminated length_concat)
qed

theorem concat_fills_its_buffer_witness:
  "\<exists>buf. concat_strings (\<lambda>_. CHR ''?'') [''ab'', [], ''c''] = Inr buf \<and>
    length buf = Suc (sum_list (map length [''ab'', [], ''c''])) \<and>
    c_string buf = concat [''ab'', [], ''c'']"
  by (rule concat_fills_its_buffer) (auto simp: nul_free_def)

section \<open>Neighbouring raw blocks\<close>

definition not_both_raw :: "ast \<Rightarrow> ast \<Rightarrow> bool" where
  "not_both_raw x y \<longleftrightarrow> \<not> (is_raw x \<and> is_raw y)"

fun separated_node :: "ast \<Rightarrow> bool" where
  "separated_node (Statements xs) = successively not_both_raw xs"
| "separated_node _ = True"

abbreviation separated :: "ast \<Rightarrow> bool" where
  "separated \<equiv> all_nodes separated_node"

lemma successively_raw_kinds:
  "successively not_both_raw xs \<longleftrightarrow> successively (\<lambda>a b. \<not> (a \<and> b)) (map is_raw xs)"
  by (simp add: successively_map not_both_raw_def)

lemma dropWhile_raw_hd: "dropWhile is_raw xs = y # ys \<Longrightarrow> \<not> is_raw y"
  by (simp add: dropWhile_eq_Cons_conv)

lemma coalesce_separated: "successively not_both_raw (coalesce_statements xs)"
proof (induction xs rule: coalesce_induct)
  case (Raw t rest)
  show ?case
  proof (cases "dropWhile is_raw rest")
    case Nil
    show ?thesis unfolding coalesce_raw_run Nil by simp
  next
    case (Cons y ys)
    with Raw dropWhile_raw_hd [OF Cons] show ?thesis
      by (simp add: coalesce_raw_run coalesce_other not_both_raw_def del: coalesce_statements.simps(2))
  qed
next
  case (Other x rest)
  then show ?case
    by (simp add: coalesce_other successively_Cons not_both_raw_def del: coalesce_statements.simps(2))
qed simp

lemma coalesce_settled: "successively not_both_raw xs \<Longrightarrow> coalesce_statements xs = xs"
proof (induction xs)
  case (Cons x xs)
  then have IH: "coalesce_statements xs = xs" by (auto simp: successively_Cons)
  show ?case
  proof (cases x)
    case (RawBlock t)
    with Cons.prems have "gather_raw xs = []" "dropWhile is_raw xs = xs"
      by (cases xs; auto simp: gather_raw_def not_both_raw_def)+
    with RawBlock IH show ?thesis by (simp add: coalesce_raw_run del: coalesce_statements.simps(2))
  qed (simp_all add: coalesce_other IH del: coalesce_statements.simps(2))
qed simp

section \<open>The walk of the coalescing pass\<close>

abbreviation coalesce_all :: "ast \<Rightarrow> ast res" where
  "coalesce_all \<equiv> ast_process CoalesceRawBlocksPass"

lemma coalesce_walk:
  "coalesce_all (Statements xs) =
     bindE (merge_statements coalesce_all [] (coalesce_statements xs)) (\<lambda>zs. Inr (fold_singleton zs))"
  "coalesce_all (RawBlock t) = Inr (RawBlock t)"
  "coalesce_all (PrintBlock e) = Inr (PrintBlock e)"
  "coalesce_all (IfBlock c th el) =
     bindE (optE coalesce_all th) (\<lambda>th'. bindE (optE coalesce_all el) (\<lambda>el'. Inr (IfBlock c th' el')))"
  "coalesce_all (ForBlock k v i b el) =
     bindE (optE coalesce_all b) (\<lambda>b'. bindE (optE coalesce_all el) (\<lambda>el'. Inr (ForBlock k v i b' el')))"
  "coalesce_all (IncludeBlock n s m) = Inr (IncludeBlock n s m)"
  by (simp_all add: CoalesceRawBlocksPass_def coalesce.process_simps)

lemma raw_iff: "is_raw x \<longleftrightarrow> (\<exists>t. x = RawBlock t)"
  by (cases x) auto

lemma merge_keeps_list:
  assumes "\<forall>x \<in> set xs. \<exists>r. self x = Inr r \<and> \<not> is_statements r"
  shows "\<exists>rs. merge_statements self walked xs = Inr (walked @ rs) \<and>
    list_all2 (\<lambda>x r. self x = Inr r) xs rs"
  using assms
proof (induction xs arbitrary: walked)
  case (Cons x xs)
  then obtain r where r: "self x = Inr r" "\<not> is_statements r" by auto
  from Cons.prems obtain rs where "merge_statements self (walked @ [r]) xs = Inr ((walked @ [r]) @ rs)"
    "list_all2 (\<lambda>x r. self x = Inr r) xs rs"
    using Cons.IH [of "walked @ [r]"] by auto
  with r show ?case by (cases r) (auto intro!: exI [of _ "r # rs"])
qed simp

lemma fold_singleton_separated:
  "successively not_both_raw zs \<Longrightarrow> \<forall>z \<in> set zs. separated z \<Longrightarrow> separated (fold_singleton zs)"
  by (auto simp: fold_singleton_def list_all_iff split: list.split)

definition coalesced :: "ast \<Rightarrow> ast \<Rightarrow> bool" where
  "coalesced a r \<longleftrightarrow> flat r \<and> separated r \<and>
     (\<not> is_statements a \<longrightarrow> \<not> is_statements r \<and> is_raw r = is_raw a)"

lemma optE_coalesced:
  assumes "\<And>x. p = Some x \<Longrightarrow> \<exists>r. f x = Inr r \<and> coalesced x r"
  shows "\<exists>q. optE f p = Inr q \<and> pred_option flat q \<and> pred_option separated q"
  using assms by (cases p) (fastforce simp: coalesced_def)+

lemma coalesce_flat: "flat a \<Longrightarrow> \<exists>r. coalesce_all a = Inr r \<and> coalesced a r"
proof (induction a)
  case (Statements xs)
  let ?ys = "coalesce_statements xs"
  have each: "\<exists>r. coalesce_all y = Inr r \<and> \<not> is_statements r \<and> coalesced y r" if y: "y \<in> set ?ys" for y
  proof (cases "is_raw y")
    case True
    then show ?thesis by (auto simp: raw_iff coalesce_walk coalesced_def)
  next
    case False
    with coalesce_member [OF y] have "y \<in> set xs" by simp
    with Statements have "\<exists>r. coalesce_all y = Inr r \<and> coalesced y r" "\<not> is_statements y"
      by (auto simp: list_all_iff)
    then show ?thesis by (auto simp: coalesced_def)
  qed
  have nst: "\<not> is_statements y" if "y \<in> set ?ys" for y
    using coalesce_member [OF that] Statements.prems by (cases y) (auto simp: list_all_iff)
  from merge_keeps_list [of ?ys coalesce_all "[]"] each obtain rs where
    rs: "merge_statements coalesce_all [] ?ys = Inr rs" "list_all2 (\<lambda>x r. coalesce_all x = Inr r) ?ys rs"
    by auto
  have all: "list_all2 coalesced ?ys rs"
    using rs(2) by (rule list.rel_mono_strong) (use each in fastforce)
  have "list_all2 (\<lambda>x r. is_raw x = is_raw r) ?ys rs"
    using all by (rule list.rel_mono_strong) (use nst in \<open>auto simp: coalesced_def\<close>)
  then have "map is_raw ?ys = map is_raw rs" by (simp add: list_all2_conv_all_nth list_eq_iff_nth_eq)
  with coalesce_separated [of xs] have "successively not_both_raw rs"
    by (simp only: successively_raw_kinds)
  moreover have "\<forall>z \<in> set rs. flat_child z \<and> separated z"
    using all nst by (fastforce simp: list_all2_conv_all_nth in_set_conv_nth coalesced_def flat_child_def)
  ultimately have "flat (fold_singleton rs)" "separated (fold_singleton rs)"
    by (auto intro: fold_singleton_flat fold_singleton_separated)
  with rs(1) show ?case by (auto simp: coalesce_walk coalesced_def)
next
  case (IfBlock c th el)
  have "\<exists>q. optE coalesce_all p = Inr q \<and> pred_option flat q \<and> pred_option separated q"
    if "p \<in> {th, el}" for p
    using that IfBlock by (intro optE_coalesced) auto
  then obtain th' el' where
    "optE coalesce_all th = Inr th'" "pred_option flat th'" "pred_option separated th'"
    "optE coalesce_all el = Inr el'" "pred_option flat el'" "pred_option separated el'" by blast
  then show ?case by (auto simp: coalesce_walk coalesced_def)
next
  case (ForBlock kv vv i b el)
  have "\<exists>q. optE coalesce_all p = Inr q \<and> pred_option flat q \<and> pred_option separated q"
    if "p \<in> {b, el}" for p
    using that ForBlock by (intro optE_coalesced) auto
  then obtain b' el' where
    "optE coalesce_all b = Inr b'" "pred_option flat b'" "pred_option separated b'"
    "optE coalesce_all el = Inr el'" "pred_option flat el'" "pred_option separated el'" by blast
  then show ?case by (auto simp: coalesce_walk coalesced_def)
qed (auto simp: coalesce_walk coalesced_def)

text \<open>
  On a tree without nested statement lists, as the parser and the other passes
  build it, the coalescing pass returns a tree of the same kind in which no two raw blocks of a
  statement list are neighbours, at any depth.
\<close>

theorem coalescing_separates_raw_blocks:
  assumes "flat a"
  shows "\<exists>r. ast_process CoalesceRawBlocksPass a = Inr r \<and> flat r \<and> separated r"
  using coalesce_flat [OF assms] by (auto simp: coalesced_def)

theorem coalescing_witness:
  "\<exists>r. ast_process CoalesceRawBlocksPass
      (Statements [RawBlock ''a'', RawBlock ''b'', PrintBlock (BooleanLiteral True), RawBlock ''c''])
    = Inr r \<and> flat r \<and> separated r"
  by (rule coalescing_separates_raw_blocks) simp

lemma coalesce_stable: "flat a \<Longrightarrow> separated a \<Longrightarrow> coalesce_all a = Inr a"
proof (induction a)
  case (Statements xs)
  then have "coalesce_statements xs = xs" by (simp add: coalesce_settled)
  moreover have xs: "coalesce_all x = Inr x \<and> \<not> is_statements x" if "x \<in> set xs" for x
    using Statements that by (simp add: list_all_iff)
  moreover from merge_keeps_list [of xs coalesce_all "[]"] xs obtain rs where
    rs: "merge_statements coalesce_all [] xs = Inr rs" "list_all2 (\<lambda>x r. coalesce_all x = Inr r) xs rs"
    by auto
  moreover have "rs = xs"
    using rs(2) xs by (auto simp: list_all2_conv_all_nth list_eq_iff_nth_eq)
  moreover have "fold_singleton xs = Statements xs"
    using Statements.prems(1) by (auto simp: fold_singleton_def split: list.split)
  ultimately show ?case by (simp add: coalesce_walk)
next
  case (IfBlock c th el)
  then show ?case by (cases th; cases el) (simp_all add: coalesce_walk)
next
  case (ForBlock kv vv i b el)
  then show ?case by (cases b; cases el) (simp_all add: coalesce_walk)
qed (simp_all add: coalesce_walk)

text \<open>(idempotence) Coalescing a coalesced tree changes nothing.\<close>

theorem coalescing_idempotent:
  assumes "flat a"
  shows "\<exists>r. ast_process CoalesceRawBlocksPass a = Inr r \<and> ast_process CoalesceRawBlocksPass r = Inr r"
  using coalesce_flat [OF assms] coalesce_stable by (auto simp: coalesced_def)

theorem coalescing_idempotent_witness:
  "\<exists>r. ast_process CoalesceRawBlocksPass (Statements [RawBlock ''a'', RawBlock ''b'']) = Inr r \<and>
     ast_process CoalesceRawBlocksPass r = Inr r"
  by (rule coalescing_idempotent) simp

section \<open>Print blocks of literals\<close>

fun prints_literal :: "ast \<Rightarrow> bool" where
  "prints_literal (PrintBlock e) = isLiteralExpression e"
| "prints_literal _ = False"

lemma all_nodes_True: "all_nodes (\<lambda>_. True) a"
  by (induction a) (auto simp: list_all_iff option.pred_set)

lemma converted_prints_no_literal:
  assumes "ast_process ConvertLiteralPrintBlockToRawBlockPass a = Inr r"
  shows "all_nodes (\<lambda>x. \<not> prints_literal x) r"
proof (rule convert.process_all_nodes [where q = "\<lambda>_. True" and p = "\<lambda>x. \<not> prints_literal x"])
  show "ast_process (\<lambda>_. convert_node) a = Inr r"
    using assms by (simp add: ConvertLiteralPrintBlockToRawBlockPass_def)
qed (auto simp: all_nodes_True)

end
