(* ===== verification/Escaping.thy ===== *)
theory Escaping
  imports Raw_Laws
begin

text \<open>
  The in-place escaping loops of \<open>PrintVisitor::escape\<close> (\<open>lib/utils/print_visitor.hpp\<close>) and of the
  JavaScript backend's \<open>escape\<close> (\<open>lib/backends/javascript/javascript_visitor.cpp\<close>).  Both walk an
  index over a string and replace the character at the index, if its switch says so; the index
  then moves on by one, into the replacement.
\<close>

section \<open>Replacements\<close>

text \<open>
  The default branch of the two switches.  \<open>snprintf(buf, 5, ...)\<close> with the format backslash,
  \<open>x\<close>, two decimal digits stores at most four bytes and a terminator, but returns the
  length of the whole text, and \<open>replace(i, 1, buf, buf_len)\<close> inserts that many bytes of the
  buffer.
\<close>

definition decimal_escape :: "char \<Rightarrow> string" where
  "decimal_escape c =
     (let text = [backslash, CHR ''x''] @ pad_left 2 (digits_of (code_of_char c));
          buf = take 4 text @ [nul];
          buf_len = length text
      in take buf_len buf)"

definition is_control :: "char \<Rightarrow> bool" where
  "is_control c \<longleftrightarrow> (0 < code_of_char c \<and> code_of_char c < 0x20) \<or> code_of_char c = 0x7F"

definition print_replacement :: "char \<Rightarrow> string option" where
  "print_replacement c =
     (if c = CHR 0x07 then Some [backslash, CHR ''a'']
      else if c = CHR 0x08 then Some [backslash, CHR ''b'']
      else if c = CHR 0x0C then Some [backslash, CHR ''f'']
      else if c = CHR 0x0A then Some [backslash, CHR ''n'']
      else if c = CHR 0x0D then Some [backslash, CHR ''r'']
      else if c = CHR 0x09 then Some [backslash, CHR ''t'']
      else if c = CHR 0x0B then Some [backslash, CHR ''v'']
      else if is_control c then Some (decimal_escape c)
      else None)"

definition js_replacement :: "char \<Rightarrow> string option" where
  "js_replacement c =
     (if c = CHR 0x07 then Some [backslash, CHR ''a'']
      else if c = CHR 0x08 then Some [backslash, CHR ''b'']
      else if c = CHR 0x0C then Some [backslash, CHR ''f'']
      else if c = CHR 0x0A then Some [backslash, CHR ''n'']
      else if c = CHR 0x0D then Some [backslash, CHR ''r'']
      else if c = CHR 0x09 then Some [backslash, CHR ''t'']
      else if c = CHR 0x0B then Some [backslash, CHR ''x'', CHR ''0'', CHR ''B'']
      else if c = squote then Some [backslash, squote]
      else if is_control c then Some (decimal_escape c)
      else None)"

section \<open>The loop\<close>

text \<open>
  \<open>walked\<close> holds the characters before the index, the second argument those from it on.  The
  result is \<open>None\<close> when the loop does not end.
\<close>

partial_function (option) escape_loop ::
    "(char \<Rightarrow> string option) \<Rightarrow> string \<Rightarrow> string \<Rightarrow> string option" where
  "escape_loop replacement walked rest =
     (case rest of
        [] \<Rightarrow> Some walked
      | c # cs \<Rightarrow>
          (case replacement c of
             None \<Rightarrow> escape_loop replacement (walked @ [c]) cs
           | Some r \<Rightarrow>
               (case r @ cs of
                  [] \<Rightarrow> Some walked
                | d # ds \<Rightarrow> escape_loop replacement (walked @ [d]) ds)))"

declare escape_loop.simps [code]

definition outcome_of :: "'a option \<Rightarrow> 'a res" where
  "outcome_of p = (case p of None \<Rightarrow> Inl Diverges | Some x \<Rightarrow> Inr x)"

lemma outcome_of_simps [simp]: "outcome_of None = Inl Diverges" "outcome_of (Some x) = Inr x"
  by (simp_all add: outcome_of_def)

definition escape :: "string \<Rightarrow> string res" where
  "escape raw = outcome_of (escape_loop print_replacement [] raw)"

definition js_escape :: "string \<Rightarrow> string res" where
  "js_escape text = outcome_of (escape_loop js_replacement [] text)"

section \<open>The loops as character maps\<close>

definition replaced :: "(char \<Rightarrow> string option) \<Rightarrow> char \<Rightarrow> string" where
  "replaced replacement c = (case replacement c of None \<Rightarrow> [c] | Some r \<Rightarrow> r)"

text \<open>A character whose replacement is left alone by the rest of the loop.\<close>

definition settles :: "(char \<Rightarrow> string option) \<Rightarrow> char \<Rightarrow> bool" where
  "settles replacement c \<longleftrightarrow>
     (case replacement c of None \<Rightarrow> True
      | Some r \<Rightarrow> r \<noteq> [] \<and> list_all (\<lambda>d. replacement d = None) (tl r))"

lemma escape_loop_step:
  "escape_loop replacement walked [] = Some walked"
  "replacement c = None \<Longrightarrow>
     escape_loop replacement walked (c # cs) = escape_loop replacement (walked @ [c]) cs"
  "replacement c = Some (d # ds) \<Longrightarrow>
     escape_loop replacement walked (c # cs) = escape_loop replacement (walked @ [d]) (ds @ cs)"
  by (subst escape_loop.simps, simp)+

lemma escape_loop_plain:
  "list_all (\<lambda>d. replacement d = None) ds \<Longrightarrow>
     escape_loop replacement walked (ds @ cs) = escape_loop replacement (walked @ ds) cs"
  by (induction ds arbitrary: walked) (simp_all add: escape_loop_step)

lemma escape_loop_settles:
  "list_all (settles replacement) str \<Longrightarrow>
     escape_loop replacement walked str = Some (walked @ concat (map (replaced replacement) str))"
proof (induction str arbitrary: walked)
  case Nil
  then show ?case by (simp add: escape_loop_step)
next
  case (Cons c cs)
  show ?case
  proof (cases "replacement c")
    case None
    with Cons show ?thesis by (simp add: escape_loop_step replaced_def)
  next
    case (Some r)
    with Cons.prems obtain d ds where r: "r = d # ds" "list_all (\<lambda>d. replacement d = None) ds"
      by (cases r) (auto simp: settles_def)
    with Cons Some show ?thesis by (simp add: escape_loop_step escape_loop_plain replaced_def)
  qed
qed

text \<open>A character that comes back in the tail of its own replacement is never passed.\<close>

definition recurs :: "(char \<Rightarrow> string option) \<Rightarrow> char \<Rightarrow> bool" where
  "recurs replacement q \<longleftrightarrow> (case replacement q of Some (d # ds) \<Rightarrow> q \<in> set ds | _ \<Rightarrow> False)"

lemma escape_loop_returns_without:
  "escape_loop replacement walked str = Some y \<Longrightarrow>
     recurs replacement q \<longrightarrow> (\<forall>c. replacement c \<noteq> Some []) \<longrightarrow> q \<notin> set str"
proof (induction replacement walked str y rule: escape_loop.raw_induct [rotated, consumes 1, case_names step])
  case (step loop replacement walked str y)
  show ?case
  proof (intro impI)
    assume q: "recurs replacement q" and nonempty: "\<forall>c. replacement c \<noteq> Some []"
    have IH: "q \<notin> set str'" if "loop replacement walked' str' = Some y" for walked' str'
      using step(1) [OF that] q nonempty by blast
    show "q \<notin> set str"
    proof (cases str)
      case str: (Cons c cs)
      show ?thesis
      proof (cases "replacement c")
        case None
        with step(2) str have "loop replacement (walked @ [c]) cs = Some y" by simp
        from IH [OF this] str None q show ?thesis by (auto simp: recurs_def)
      next
        case (Some r)
        with nonempty obtain d ds where r: "r = d # ds" by (cases r) auto
        with step(2) str Some have "loop replacement (walked @ [d]) (ds @ cs) = Some y" by simp
        from IH [OF this] str Some r q show ?thesis by (auto simp: recurs_def)
      qed
    qed simp
  qed
qed

section \<open>The replacements settle\<close>

lemma decimal_escape_set:
  assumes "d \<in> set (decimal_escape c)"
  shows "d = backslash \<or> d = CHR ''x'' \<or> d = nul \<or> char_digit d \<noteq> None"
proof -
  define t where "t = [backslash, CHR ''x''] @ pad_left 2 (digits_of (code_of_char c))"
  have "d \<in> set (take 4 t @ [nul])"
    using assms unfolding decimal_escape_def Let_def t_def by (rule in_set_takeD)
  then have "d \<in> set t \<or> d = nul" by (auto dest: in_set_takeD)
  then have "d = backslash \<or> d = CHR ''x'' \<or> d = nul \<or> d = CHR ''0'' \<or> d \<in> set (digits_of (code_of_char c))"
    by (auto simp: t_def pad_left_def split: if_splits)
  moreover have "char_digit (CHR ''0'') \<noteq> None" by (simp add: char_digit_def)
  moreover have "0 \<le> code_of_char c"
    unfolding code_of_char_def by (metis of_nat_0_le_iff of_nat_of_char)
  ultimately show ?thesis using digits_of_digits by blast
qed

lemma decimal_escape_nonempty: "decimal_escape c \<noteq> []"
  by (simp add: decimal_escape_def Let_def)

lemma plain_chars:
  "list_all (\<lambda>d. print_replacement d = None \<and> js_replacement d = None)
     (backslash # CHR ''x'' # nul # ''0123456789abfnrtvB'')"
  by code_simp

lemma char_digit_listed: "char_digit d \<noteq> None \<Longrightarrow> d \<in> set ''0123456789''"
  by (auto simp: char_digit_def split: if_splits)

lemma no_replacement:
  "d = backslash \<or> d = CHR ''x'' \<or> d = nul \<or> char_digit d \<noteq> None \<Longrightarrow>
     print_replacement d = None \<and> js_replacement d = None"
  using plain_chars char_digit_listed [of d] unfolding list_all_iff by auto

lemma decimal_escape_plain:
  "d \<in> set (decimal_escape c) \<Longrightarrow> print_replacement d = None \<and> js_replacement d = None"
  by (rule no_replacement [OF decimal_escape_set])

lemma decimal_escape_settles:
  "list_all (\<lambda>d. print_replacement d = None) (tl (decimal_escape c))"
  "list_all (\<lambda>d. js_replacement d = None) (tl (decimal_escape c))"
  using decimal_escape_plain list.set_sel(2) [OF decimal_escape_nonempty]
  by (auto simp: list_all_iff)

lemma if_E_Some:
  assumes "(if b then p else q) = Some r" and "b \<Longrightarrow> p = Some r \<Longrightarrow> R" and "q = Some r \<Longrightarrow> R"
  shows R
  using assms by (cases b) simp_all

lemma print_replacement_cases:
  "print_replacement c = Some r \<Longrightarrow>
     (\<exists>l \<in> set ''abfnrtv''. r = [backslash, l]) \<or> r = decimal_escape c"
  unfolding print_replacement_def by (elim if_E_Some) simp_all

lemma js_replacement_cases:
  "js_replacement c = Some r \<Longrightarrow> c \<noteq> squote \<Longrightarrow>
     (\<exists>l \<in> set ''abfnrt''. r = [backslash, l]) \<or> r = backslash # ''x0B'' \<or> r = decimal_escape c"
  unfolding js_replacement_def by (elim if_E_Some) simp_all

lemma print_settles: "settles print_replacement c"
proof (cases "print_replacement c")
  case (Some r)
  from print_replacement_cases [OF this] show ?thesis
    using Some plain_chars decimal_escape_nonempty decimal_escape_settles(1)
    by (auto simp: settles_def)
qed (simp add: settles_def)

lemma js_settles:
  assumes "c \<noteq> squote"
  shows "settles js_replacement c"
proof (cases "js_replacement c")
  case (Some r)
  from js_replacement_cases [OF this assms] show ?thesis
    using Some plain_chars decimal_escape_nonempty decimal_escape_settles(2)
    by (auto simp: settles_def)
qed (simp add: settles_def)

section \<open>The two functions\<close>

lemma escape_eq: "escape raw = Inr (concat (map (replaced print_replacement) raw))"
  by (simp add: escape_def escape_loop_settles list_all_iff print_settles)

lemma replaced_no_control: "d \<in> set (replaced print_replacement c) \<Longrightarrow> \<not> is_control d"
proof -
  assume d: "d \<in> set (replaced print_replacement c)"
  have none: "print_replacement x = None \<Longrightarrow> \<not> is_control x" for x
    by (auto simp: print_replacement_def split: if_splits)
  show ?thesis
  proof (cases "print_replacement c")
    case None
    with d none show ?thesis by (simp add: replaced_def)
  next
    case (Some r)
    have "print_replacement d = None"
      using print_replacement_cases [OF Some]
    proof
      assume "r = decimal_escape c"
      with d Some show ?thesis by (simp add: replaced_def decimal_escape_plain)
    next
      assume "\<exists>l \<in> set ''abfnrtv''. r = [backslash, l]"
      with d Some plain_chars show ?thesis by (auto simp: replaced_def)
    qed
    then show ?thesis by (rule none)
  qed
qed

text \<open>
  (escaping of the dump) \<open>PrintVisitor::escape\<close> ends for every text; it puts the replacement of
  each character in its place, and its result holds no control character but possibly NUL bytes.
\<close>

theorem escape_is_a_character_map:
  "\<exists>s. escape raw = Inr s \<and> s = concat (map (replaced print_replacement) raw) \<and>
     filter is_control s = []"
  using replaced_no_control by (fastforce simp: escape_eq filter_empty_conv)

text \<open>
  (defects of escaping) Three texts show what it does not do: a DEL is written as a truncated
  number with a NUL byte, the code of a control character is written in decimal after the prefix
  of a hexadecimal escape, and a line feed looks like a backslash before an n.
\<close>

theorem escape_defects:
  "escape [CHR 0x7F] = Inr [backslash, CHR ''x'', CHR ''1'', CHR ''2'', nul] \<and>
   escape [CHR 0x10] = Inr (backslash # ''x16'') \<and>
   escape [newline] = escape [backslash, CHR ''n'']"
  unfolding escape_eq by (intro conjI; code_simp)

lemma js_recurs: "recurs js_replacement squote"
  by code_simp

lemma js_nonempty: "js_replacement c \<noteq> Some []"
proof (cases "c = squote")
  case False
  then show ?thesis using js_settles [OF False] by (auto simp: settles_def)
qed (simp add: js_replacement_def)

lemma member_neq: "x \<in> A \<Longrightarrow> y \<notin> A \<Longrightarrow> x \<noteq> y"
  by blast

lemma js_escape_unquoted:
  assumes "squote \<notin> set str"
  shows "js_escape str = Inr (concat (map (replaced js_replacement) str))"
proof -
  have "\<forall>c \<in> set str. settles js_replacement c"
  proof
    fix c assume "c \<in> set str"
    then have "c \<noteq> squote" using assms by (rule member_neq)
    then show "settles js_replacement c" by (rule js_settles)
  qed
  then have "list_all (settles js_replacement) str" unfolding list_all_iff .
  from escape_loop_settles [OF this, of "[]"] show ?thesis by (simp only: js_escape_def outcome_of_simps append_Nil)
qed

lemma js_escape_quoted:
  assumes "squote \<in> set str"
  shows "js_escape str = Inl Diverges"
proof (cases "escape_loop js_replacement [] str")
  case None
  then show ?thesis by (simp only: js_escape_def outcome_of_simps)
next
  case (Some y)
  have "\<forall>c. js_replacement c \<noteq> Some []" by (rule allI) (rule js_nonempty)
  with escape_loop_returns_without [OF Some, THEN mp, OF js_recurs] have "squote \<notin> set str"
    by (rule mp)
  with assms have False by (rule notE [rotated])
  then show ?thesis ..
qed

text \<open>
  C36: (escaping for JavaScript) The JavaScript backend's \<open>escape\<close> never ends on a text with a
  single quote: the replacement ends in a quote again, at which the index arrives next.  On
  any other text it ends, with the replacement of each character in its place.
\<close>

theorem js_escape_ends_iff_no_quote:
  "js_escape str = (if squote \<in> set str then Inl Diverges
                    else Inr (concat (map (replaced js_replacement) str)))"
  by (simp add: js_escape_unquoted js_escape_quoted)

end
