(* ===== verification/Print_Visitor.thy ===== *)
theory Print_Visitor
  imports Escaping "HOL-Library.Char_ord" "HOL-Library.List_Lexorder"
begin

text \<open>
  The tree dump of \<open>lib/utils/print_visitor.hpp\<close> and \<open>print_visitor.cpp\<close>: a visitor with an
  indentation counter that writes to an output stream.  Every method takes the state of the
  visitor and returns it updated; \<open>dump\<close> is the specification, a list of lines with their depth.
\<close>

section \<open>The visitor\<close>

record print_visitor =
  m_indentation :: int
  m_output :: string

type_synonym pv_step = "print_visitor \<Rightarrow> print_visitor res"

definition new_print_visitor :: print_visitor where
  "new_print_visitor = \<lparr>m_indentation = 0, m_output = []\<rparr>"

definition emit :: "string \<Rightarrow> pv_step" where
  "emit s st = Inr (st\<lparr>m_output := m_output st @ s\<rparr>)"

fun seq :: "pv_step list \<Rightarrow> pv_step" where
  "seq [] st = Inr st"
| "seq (f # fs) st = bindE (f st) (seq fs)"

text \<open>\<open>std::string(m_indentation, '\t')\<close>, written to the stream.\<close>

definition indentation :: pv_step where
  "indentation st = emit (replicate (nat (m_indentation st)) tabulator) st"

definition indent :: pv_step where
  "indent st = Inr (st\<lparr>m_indentation := m_indentation st + 1\<rparr>)"

definition outdent :: pv_step where
  "outdent st = Inr (st\<lparr>m_indentation := m_indentation st - 1\<rparr>)"

definition emit_escaped :: "string \<Rightarrow> pv_step" where
  "emit_escaped raw st = bindE (escape raw) (\<lambda>s. emit s st)"

abbreviation emit_line :: "string \<Rightarrow> pv_step" where
  "emit_line s \<equiv> seq [indentation, emit (s @ [newline])]"

definition comparison_text :: "comparison_op \<Rightarrow> string" where
  "comparison_text op =
     (let k = comparison_code op; hi = drop_bit 8 k; lo = k AND 0xFF
      in (if hi \<noteq> 0 then [char_of hi] else []) @ (if lo \<noteq> 0 then [char_of lo] else []))"

fun pv_expression :: "expr \<Rightarrow> pv_step" and pv_arguments :: "bool \<Rightarrow> expr option list \<Rightarrow> pv_step" where
  "pv_expression (VariableReference v) st =
     emit (''{VARIABLE name='' @ [dquote] @ v @ [dquote] @ ''}'') st"
| "pv_expression (GetAttribute v a) st =
     bindE (emit ''{GET_ATTRIBUTE variable='' st) (\<lambda>st.
       bindE (pv_expression v st) (\<lambda>st.
         emit ('' attributeName='' @ [dquote] @ a @ [dquote] @ ''}'') st))"
| "pv_expression (MethodCall m args) st =
     bindE (emit (''{METHOD_CALL name='' @ [dquote] @ m @ [dquote] @ '', args=['') st) (\<lambda>st.
       bindE (pv_arguments True args st) (\<lambda>st. emit '']}'' st))"
| "pv_expression (DoubleLiteral v) st = emit (''{DOUBLE value='' @ format_g v @ ''}'') st"
| "pv_expression (IntegerLiteral v) st = emit (''{INT value='' @ string_of_long v @ ''}'') st"
| "pv_expression (BooleanLiteral v) st =
     emit (''{BOOL value='' @ (if v then ''true'' else ''false'') @ ''}'') st"
| "pv_expression (StringLiteral v) st =
     bindE (emit (''{STRING value='' @ [dquote]) st) (\<lambda>st.
       bindE (emit_escaped v st) (\<lambda>st. emit ([dquote] @ ''}'') st))"
| "pv_expression (BinaryOperation l r op) st =
     bindE (emit ''{BINOP left='' st) (\<lambda>st. bindE (pv_expression l st) (\<lambda>st.
       bindE (emit '' right='' st) (\<lambda>st. bindE (pv_expression r st) (\<lambda>st.
         emit ('' op='' @ [squote, char_of (binary_code op), squote] @ ''}'') st))))"
| "pv_expression (UnaryOperation e op) st =
     bindE (emit ''{UNOP expr='' st) (\<lambda>st. bindE (pv_expression e st) (\<lambda>st.
       emit ('' op='' @ [squote, unary_char op, squote] @ ''}'') st))"
| "pv_expression (Comparison l r op) st =
     bindE (emit ''{CMP left='' st) (\<lambda>st. bindE (pv_expression l st) (\<lambda>st.
       bindE (emit '' right='' st) (\<lambda>st. bindE (pv_expression r st) (\<lambda>st.
         emit ('' op='' @ [dquote] @ comparison_text op @ [dquote] @ ''}'') st))))"
| "pv_arguments first [] st = Inr st"
| "pv_arguments first (p # ps) st =
     bindE (if first then Inr st else emit '', '' st) (\<lambda>st.
       bindE (derefE p (\<lambda>e. pv_expression e st))
         (pv_arguments False ps))"

section \<open>Blocks\<close>

text \<open>The copy of the mapping into a \<open>std::map\<close>, which iterates in the order of the keys.\<close>

definition sorted_mapping :: "string_expression_map \<Rightarrow> string_expression_map" where
  "sorted_mapping m = sort_key fst m"

fun pv_mapping :: "bool \<Rightarrow> string_expression_map \<Rightarrow> pv_step" where
  "pv_mapping first [] st = Inr st"
| "pv_mapping first ((k, e) # m) st =
     seq [if first then Inr else emit '', '', emit ([dquote] @ k @ '' => ''), pv_expression e,
          pv_mapping False m] st"

fun pv_optional :: "string \<Rightarrow> expr option \<Rightarrow> string \<Rightarrow> pv_step" where
  "pv_optional label None after st = Inr st"
| "pv_optional label (Some e) after st = seq [emit label, pv_expression e, emit after] st"

definition pv_include_block :: "string \<Rightarrow> expr option \<Rightarrow> string_expression_map \<Rightarrow> pv_step" where
  "pv_include_block includeName scope variableMapping =
     seq [indentation, emit (''[INCLUDE_BLOCK includeName='' @ [dquote] @ includeName @ [dquote]),
          pv_optional '' scope='' scope [],
          if variableMapping \<noteq> []
          then seq [emit '' variableMapping={'', pv_mapping True (sorted_mapping variableMapping),
                    emit ''}'']
          else Inr,
          emit ('']'' @ [newline])]"

fun pv_ast :: "ast \<Rightarrow> pv_step" and pv_body :: "ast option \<Rightarrow> pv_step" and
    pv_statements :: "ast list \<Rightarrow> pv_step" where
  "pv_ast (Statements xs) st =
     bindE (emit_line ''[STATEMENTS]'' st) (\<lambda>st. bindE (indent st) (\<lambda>st.
       bindE (pv_statements xs st) (\<lambda>st. bindE (outdent st) (emit_line ''[END_STATEMENTS]''))))"
| "pv_ast (RawBlock t) st =
     seq [indentation, emit (''[RAW] '' @ [dquote]), emit_escaped t, emit [dquote, newline]] st"
| "pv_ast (PrintBlock e) st =
     seq [indentation, emit ''[PRINT_BLOCK '', pv_expression e, emit ('']'' @ [newline])] st"
| "pv_ast (IfBlock c th el) st =
     bindE (seq [indentation, emit ''[IF_BLOCK '', pv_expression c, emit ('']'' @ [newline])] st) (\<lambda>st.
       bindE (pv_body th st) (\<lambda>st.
         bindE (case el of None \<Rightarrow> Inr st | Some _ \<Rightarrow> emit_line ''[ELSE_BLOCK]'' st) (\<lambda>st.
           bindE (pv_body el st) (emit_line ''[ENDIF_BLOCK]''))))"
| "pv_ast (ForBlock k v i b el) st =
     bindE (seq [indentation, emit ''[FOR_BLOCK '', pv_optional ''keyVariable='' k '' '',
                 pv_optional ''valueVariable='' v '' '', pv_optional ''iterable='' (Some i) [],
                 emit ('']'' @ [newline])] st) (\<lambda>st.
       bindE (pv_body b st) (\<lambda>st.
         bindE (case el of None \<Rightarrow> Inr st | Some _ \<Rightarrow> emit_line ''[ELSEFOR_BLOCK]'' st) (\<lambda>st.
           bindE (pv_body el st) (emit_line ''[ENDFOR_BLOCK]''))))"
| "pv_ast (IncludeBlock n s m) st = pv_include_block n s m st"
| "pv_body None st = Inr st"
| "pv_body (Some a) st = bindE (indent st) (\<lambda>st. bindE (pv_ast a st) outdent)"
| "pv_statements [] st = Inr st"
| "pv_statements (x # xs) st = bindE (pv_ast x st) (pv_statements xs)"

definition pv_visit :: "ast \<Rightarrow> pv_step" where
  "pv_visit a = seq [emit_line ''[SOF]'', indent, pv_ast a, outdent, emit_line ''[EOF]'']"

section \<open>The specification: lines with a depth\<close>

fun expr_text :: "expr \<Rightarrow> string res" and arguments_text :: "bool \<Rightarrow> expr option list \<Rightarrow> string res" where
  "expr_text (VariableReference v) = Inr (''{VARIABLE name='' @ [dquote] @ v @ [dquote] @ ''}'')"
| "expr_text (GetAttribute v a) = bindE (expr_text v) (\<lambda>s.
     Inr (''{GET_ATTRIBUTE variable='' @ s @ '' attributeName='' @ [dquote] @ a @ [dquote] @ ''}''))"
| "expr_text (MethodCall m args) = bindE (arguments_text True args) (\<lambda>s.
     Inr (''{METHOD_CALL name='' @ [dquote] @ m @ [dquote] @ '', args=['' @ s @ '']}''))"
| "expr_text (DoubleLiteral v) = Inr (''{DOUBLE value='' @ format_g v @ ''}'')"
| "expr_text (IntegerLiteral v) = Inr (''{INT value='' @ string_of_long v @ ''}'')"
| "expr_text (BooleanLiteral v) = Inr (''{BOOL value='' @ (if v then ''true'' else ''false'') @ ''}'')"
| "expr_text (StringLiteral v) = bindE (escape v) (\<lambda>s.
     Inr (''{STRING value='' @ [dquote] @ s @ [dquote] @ ''}''))"
| "expr_text (BinaryOperation l r op) = bindE (expr_text l) (\<lambda>s. bindE (expr_text r) (\<lambda>t.
     Inr (''{BINOP left='' @ s @ '' right='' @ t @ '' op='' @ [squote, char_of (binary_code op), squote] @ ''}'')))"
| "expr_text (UnaryOperation e op) = bindE (expr_text e) (\<lambda>s.
     Inr (''{UNOP expr='' @ s @ '' op='' @ [squote, unary_char op, squote] @ ''}''))"
| "expr_text (Comparison l r op) = bindE (expr_text l) (\<lambda>s. bindE (expr_text r) (\<lambda>t.
     Inr (''{CMP left='' @ s @ '' right='' @ t @ '' op='' @ [dquote] @ comparison_text op @ [dquote] @ ''}'')))"
| "arguments_text first [] = Inr []"
| "arguments_text first (p # ps) =
     bindE (derefE p expr_text) (\<lambda>s. bindE (arguments_text False ps) (\<lambda>t.
       Inr ((if first then [] else '', '') @ s @ t)))"

text \<open>The lines of the dump of a tree, each with its depth below the tree's own.\<close>

definition deeper :: "(nat \<times> string) list \<Rightarrow> (nat \<times> string) list" where
  "deeper = map (\<lambda>(d, s). (Suc d, s))"

fun optional_text :: "string \<Rightarrow> expr option \<Rightarrow> string \<Rightarrow> string res" where
  "optional_text label None after = Inr []"
| "optional_text label (Some e) after = bindE (expr_text e) (\<lambda>s. Inr (label @ s @ after))"

fun mapping_text :: "bool \<Rightarrow> string_expression_map \<Rightarrow> string res" where
  "mapping_text first [] = Inr []"
| "mapping_text first ((k, e) # m) =
     bindE (expr_text e) (\<lambda>s. bindE (mapping_text False m) (\<lambda>t.
       Inr ((if first then [] else '', '') @ [dquote] @ k @ '' => '' @ s @ t)))"

fun dump :: "ast \<Rightarrow> (nat \<times> string) list res" and
    dump_body :: "ast option \<Rightarrow> (nat \<times> string) list res" and
    dump_statements :: "ast list \<Rightarrow> (nat \<times> string) list res" where
  "dump (Statements xs) = bindE (dump_statements xs) (\<lambda>ls.
     Inr ((0, ''[STATEMENTS]'') # deeper ls @ [(0, ''[END_STATEMENTS]'')]))"
| "dump (RawBlock t) = bindE (escape t) (\<lambda>s. Inr [(0, ''[RAW] '' @ [dquote] @ s @ [dquote])])"
| "dump (PrintBlock e) = bindE (expr_text e) (\<lambda>s. Inr [(0, ''[PRINT_BLOCK '' @ s @ '']'')])"
| "dump (IfBlock c th el) =
     bindE (expr_text c) (\<lambda>s. bindE (dump_body th) (\<lambda>ls. bindE (dump_body el) (\<lambda>ms.
       Inr ((0, ''[IF_BLOCK '' @ s @ '']'') # ls @
            (if el = None then [] else [(0, ''[ELSE_BLOCK]'')]) @ ms @ [(0, ''[ENDIF_BLOCK]'')]))))"
| "dump (ForBlock k v i b el) =
     bindE (optional_text ''keyVariable='' k '' '') (\<lambda>sk.
     bindE (optional_text ''valueVariable='' v '' '') (\<lambda>sv. bindE (expr_text i) (\<lambda>si.
     bindE (dump_body b) (\<lambda>ls. bindE (dump_body el) (\<lambda>ms.
       Inr ((0, ''[FOR_BLOCK '' @ sk @ sv @ ''iterable='' @ si @ '']'') # ls @
            (if el = None then [] else [(0, ''[ELSEFOR_BLOCK]'')]) @ ms @ [(0, ''[ENDFOR_BLOCK]'')]))))))"
| "dump (IncludeBlock n s m) =
     bindE (optional_text '' scope='' s []) (\<lambda>ss. bindE (mapping_text True (sorted_mapping m)) (\<lambda>sm.
       Inr [(0, ''[INCLUDE_BLOCK includeName='' @ [dquote] @ n @ [dquote] @ ss @
                (if m = [] then [] else '' variableMapping={'' @ sm @ ''}'') @ '']'')]))"
| "dump_body None = Inr []"
| "dump_body (Some a) = bindE (dump a) (\<lambda>ls. Inr (deeper ls))"
| "dump_statements [] = Inr []"
| "dump_statements (x # xs) = bindE (dump x) (\<lambda>ls. bindE (dump_statements xs) (\<lambda>ms. Inr (ls @ ms)))"

definition render_lines :: "int \<Rightarrow> (nat \<times> string) list \<Rightarrow> string" where
  "render_lines depth ls =
     concat (map (\<lambda>(d, s). replicate (nat (depth + int d)) tabulator @ s @ [newline]) ls)"

section \<open>The visitor implements the specification\<close>

definition append_output :: "print_visitor \<Rightarrow> string \<Rightarrow> print_visitor" where
  "append_output st s = st\<lparr>m_output := m_output st @ s\<rparr>"

lemma append_output_simps [simp]:
  "append_output (append_output st s) t = append_output st (s @ t)"
  "append_output st [] = st"
  "m_indentation (append_output st s) = m_indentation st"
  "m_indentation_update f (append_output st s) = append_output (m_indentation_update f st) s"
  by (simp_all add: append_output_def)

lemma indentation_restored [simp]:
  "m_indentation_update ((\<lambda>n. n - 1) \<circ> (\<lambda>n. n + 1)) st = st"
  by (cases st) simp

lemma step_simps [simp]:
  "emit s st = Inr (append_output st s)"
  "indentation st = Inr (append_output st (replicate (nat (m_indentation st)) tabulator))"
  "indent st = Inr (m_indentation_update (\<lambda>n. n + 1) st)"
  "outdent st = Inr (m_indentation_update (\<lambda>n. n - 1) st)"
  "emit_escaped raw st = bindE (escape raw) (\<lambda>s. Inr (append_output st s))"
  by (simp_all add: emit_def indentation_def indent_def outdent_def emit_escaped_def append_output_def)

lemma seq_Nil [simp]: "seq [] = Inr"
  by (rule ext) simp

lemma pv_expression_text:
  "pv_expression e st = bindE (expr_text e) (\<lambda>s. Inr (append_output st s))"
  "pv_arguments first ps st = bindE (arguments_text first ps) (\<lambda>s. Inr (append_output st s))"
proof (induction e and first ps arbitrary: st and st rule: expr_text_arguments_text.induct)
  case (12 first p ps)
  then show ?case by (cases p) (simp_all add: bindE_assoc cong: bindE_cong)
qed (simp_all add: bindE_assoc cong: bindE_cong)

lemma pv_optional_text:
  "pv_optional label p after st = bindE (optional_text label p after) (\<lambda>s. Inr (append_output st s))"
  by (cases p) (simp_all add: pv_expression_text bindE_assoc cong: bindE_cong)

lemma pv_mapping_text:
  "pv_mapping first m st = bindE (mapping_text first m) (\<lambda>s. Inr (append_output st s))"
  by (induction first m arbitrary: st rule: mapping_text.induct)
    (simp_all add: pv_expression_text bindE_assoc cong: bindE_cong)

lemma render_lines_simps [simp]:
  "render_lines d [] = []"
  "render_lines d ((k, s) # ls) = replicate (nat (d + int k)) tabulator @ s @ newline # render_lines d ls"
  "render_lines d (ls @ ms) = render_lines d ls @ render_lines d ms"
  "render_lines d (deeper ls) = render_lines (d + 1) ls"
  by (auto simp: render_lines_def deeper_def o_def split_def ac_simps intro!: arg_cong [where f = concat])

lemma pv_ast_dump:
  "pv_ast a st = bindE (dump a) (\<lambda>ls. Inr (append_output st (render_lines (m_indentation st) ls)))"
  "pv_body p st = bindE (dump_body p) (\<lambda>ls. Inr (append_output st (render_lines (m_indentation st) ls)))"
  "pv_statements xs st =
     bindE (dump_statements xs) (\<lambda>ls. Inr (append_output st (render_lines (m_indentation st) ls)))"
proof (induction a and p and xs arbitrary: st and st and st rule: dump_dump_body_dump_statements.induct)
  case (4 c th el)
  then show ?case
    by (cases el) (simp_all add: pv_expression_text bindE_assoc cong: bindE_cong
        del: pv_body.simps dump_body.simps)
next
  case (5 k v i b el)
  then show ?case
    by (cases el) (simp_all add: pv_expression_text pv_optional_text bindE_assoc cong: bindE_cong
        del: pv_body.simps dump_body.simps)
next
  case (6 n s m)
  then show ?case
    by (cases "m = []") (simp_all add: pv_include_block_def pv_expression_text pv_optional_text
      pv_mapping_text bindE_assoc sorted_mapping_def)
qed (simp_all add: pv_expression_text bindE_assoc cong: bindE_cong)

lemma pv_visit_dump:
  "pv_visit a st = bindE (dump a) (\<lambda>ls. Inr (append_output st
     (render_lines (m_indentation st) ((0, ''[SOF]'') # deeper ls @ [(0, ''[EOF]'')]))))"
  by (simp add: pv_visit_def pv_ast_dump bindE_assoc)

text \<open>
  C12: (the dump) Visiting a tree appends the lines of its specification to the output, each
  with as many tabulators as the indentation and its depth, between the start and the end marker,
  and leaves the indentation as it was; when the specification fails, so does the visit.
\<close>

theorem visit_writes_the_dump:
  "pv_visit a st = bindE (dump a) (\<lambda>ls. Inr (append_output st
     (render_lines (m_indentation st) ((0, ''[SOF]'') # deeper ls @ [(0, ''[EOF]'')]))))"
  by (rule pv_visit_dump)

text \<open>
  (order of a mapping) The dump of an inclusion does not depend on the order in which the hash
  table holds the variable mapping.
\<close>

theorem dump_ignores_mapping_order:
  assumes "distinct (map fst m)" and "distinct (map fst m')" and "set m = set m'"
  shows "pv_ast (IncludeBlock n scope m) st = pv_ast (IncludeBlock n scope m') st"
proof -
  have "sorted_mapping m = sorted_mapping m'"
    unfolding sorted_mapping_def
  proof (rule map_sorted_distinct_set_unique [where f = fst])
    show "inj_on fst (set (sort_key fst m) \<union> set (sort_key fst m'))"
      using assms by (simp add: distinct_map)
    show "distinct (map fst (sort_key fst m))" "distinct (map fst (sort_key fst m'))"
      using assms by (simp_all add: distinct_map)
  qed (simp_all add: assms(3))
  moreover have "m = [] \<longleftrightarrow> m' = []" using assms(3) by (metis set_empty2)
  ultimately show ?thesis by (simp add: pv_include_block_def)
qed

theorem dump_ignores_mapping_order_witness:
  "pv_ast (IncludeBlock ''f'' None [(''b'', VariableReference ''x''), (''a'', IntegerLiteral 1)])
     new_print_visitor
   = pv_ast (IncludeBlock ''f'' None [(''a'', IntegerLiteral 1), (''b'', VariableReference ''x'')])
       new_print_visitor"
  by (rule dump_ignores_mapping_order) auto

lemma expr_text_failure:
  "expr_text e = Inl k \<Longrightarrow> k = Undefined NullDeref"
  "arguments_text first ps = Inl k \<Longrightarrow> k = Undefined NullDeref"
proof (induction e and first ps rule: expr_text_arguments_text.induct)
  case (12 first p ps)
  then show ?case by (cases p) (auto simp: bindE_eq_Inl)
qed (auto simp: bindE_eq_Inl escape_eq)

lemma mapping_text_failure: "mapping_text first m = Inl k \<Longrightarrow> k = Undefined NullDeref"
  by (induction first m rule: mapping_text.induct) (auto simp: bindE_eq_Inl expr_text_failure)

lemma optional_text_failure: "optional_text label p after = Inl k \<Longrightarrow> k = Undefined NullDeref"
  by (cases p) (auto simp: bindE_eq_Inl expr_text_failure)

lemma dump_failure:
  "dump a = Inl k \<Longrightarrow> k = Undefined NullDeref"
  "dump_body p = Inl k \<Longrightarrow> k = Undefined NullDeref"
  "dump_statements xs = Inl k \<Longrightarrow> k = Undefined NullDeref"
  by (induction a and p and xs rule: dump_dump_body_dump_statements.induct)
    (auto simp: bindE_eq_Inl escape_eq expr_text_failure mapping_text_failure optional_text_failure)

text \<open>
  (failures of the dump) The visit fails in one way only, by reading a null pointer in the
  argument list of a method call; such lists come from \<open>cloneExpressionList\<close>.
\<close>

theorem dump_fails_on_null_arguments_only:
  "(\<exists>st'. pv_visit a st = Inr st') \<or> pv_visit a st = Inl (Undefined NullDeref)"
  using dump_failure(1) [of a] by (cases "dump a") (auto simp: pv_visit_dump)

end
