(* ===== verification/Js_Visitor.thy ===== *)
theory Js_Visitor
  imports Print_Visitor
begin

text \<open>
  The JavaScript backend: \<open>lib/backends/javascript/code_emitter.hpp\<close> and
  \<open>javascript_visitor.cpp\<close>.  The state holds the members of the emitter and of the visitor; the
  hash table \<open>m_shadowValues\<close> is a map.

  An insertion chain \<open>out << a << this->expression(e) << b\<close> writes \<open>a\<close>, the expression and \<open>b\<close> in
  this order here, as the tests of the program expect and as C++17 guarantees.
\<close>

section \<open>State\<close>

record js_state =
  js_output :: string
  m_indentationCount :: int
  m_undefinedCheck :: bool
  m_forCounter :: int
  m_shadowValues :: "string \<Rightarrow> string option"

type_synonym js_step = "js_state \<Rightarrow> js_state res"

definition new_javascript_visitor :: js_state where
  "new_javascript_visitor = \<lparr>js_output = [], m_indentationCount = 0, m_undefinedCheck = False,
     m_forCounter = 0, m_shadowValues = (\<lambda>_. None)\<rparr>"

definition performUndefinedCheck :: "bool \<Rightarrow> js_state \<Rightarrow> js_state" where
  "performUndefinedCheck undefined_check st = st\<lparr>m_undefinedCheck := undefined_check\<rparr>"

section \<open>The code emitter\<close>

definition js_emit :: "string \<Rightarrow> js_step" where
  "js_emit s st = Inr (st\<lparr>js_output := js_output st @ s\<rparr>)"

definition js_indent :: js_step where
  "js_indent st = Inr (st\<lparr>m_indentationCount := m_indentationCount st + 1\<rparr>)"

definition js_outdent :: js_step where
  "js_outdent st = Inr (st\<lparr>m_indentationCount := m_indentationCount st - 1\<rparr>)"

definition start_line :: js_step where
  "start_line st = js_emit (replicate (nat (m_indentationCount st)) tabulator) st"

definition end_line :: js_step where
  "end_line = js_emit [newline]"

definition blankline :: js_step where
  "blankline = js_emit [newline]"

fun steps :: "js_step list \<Rightarrow> js_step" where
  "steps [] st = Inr st"
| "steps (f # fs) st = bindE (f st) (steps fs)"

definition line :: "string \<Rightarrow> js_step" where
  "line s = steps [start_line, js_emit s, end_line]"

definition emit_js_escaped :: "string \<Rightarrow> js_step" where
  "emit_js_escaped s st = bindE (js_escape s) (\<lambda>t. js_emit t st)"

section \<open>Expressions\<close>

text \<open>\<open>std::string op = {(char) (op >> 8), (char) (op & 0xFF)}\<close>: two characters, always.\<close>

definition two_chars :: "int \<Rightarrow> string" where
  "two_chars k = [char_of (drop_bit 8 k), char_of (k AND 0xFF)]"

fun js_expression :: "expr \<Rightarrow> js_step" and js_arguments :: "bool \<Rightarrow> expr option list \<Rightarrow> js_step" where
  "js_expression (VariableReference v) st =
     (case m_shadowValues st v of
        Some shadowValue \<Rightarrow> js_emit shadowValue st
      | None \<Rightarrow> steps [js_emit (''data['' @ [squote]), emit_js_escaped v, js_emit ([squote] @ '']'')] st)"
| "js_expression (GetAttribute v a) st =
     bindE (js_expression v st)
       (steps [js_emit (''['' @ [squote]), emit_js_escaped a, js_emit ([squote] @ '']'')])"
| "js_expression (MethodCall m args) st =
     bindE (js_emit (''helpers['' @ [squote] @ m @ [squote] @ ''](''  ) st) (\<lambda>st.
       bindE (js_arguments True args st) (js_emit '')''))"
| "js_expression (DoubleLiteral v) st = js_emit (format_f v) st"
| "js_expression (IntegerLiteral v) st = js_emit (string_of_long v) st"
| "js_expression (BooleanLiteral v) st = js_emit (if v then ''true'' else ''false'') st"
| "js_expression (StringLiteral v) st = steps [js_emit [squote], emit_js_escaped v, js_emit [squote]] st"
| "js_expression (BinaryOperation l r op) st =
     bindE (js_expression l st) (\<lambda>st.
       bindE (js_emit ('' '' @ two_chars (binary_code op) @ '' '') st) (js_expression r))"
| "js_expression (UnaryOperation e op) st =
     bindE (js_emit [unary_char op] st) (js_expression e)"
| "js_expression (Comparison l r op) st =
     bindE (js_expression l st) (\<lambda>st.
       bindE (js_emit ('' '' @ two_chars (comparison_code op) @ '' '') st) (js_expression r))"
| "js_arguments first [] st = Inr st"
| "js_arguments first (p # ps) st =
     bindE (if first then Inr st else js_emit '', '' st) (\<lambda>st.
       bindE (derefE p (\<lambda>e. js_expression e st)) (js_arguments False ps))"

section \<open>Blocks\<close>

definition for_id :: "string \<Rightarrow> int \<Rightarrow> string" where
  "for_id prefix n = prefix @ string_of_int n"

text \<open>The name of a loop variable; an absent one has the empty name.\<close>

fun loop_variable_name :: "expr option \<Rightarrow> string res" where
  "loop_variable_name None = Inr []"
| "loop_variable_name (Some e) = variable_name_of e"

definition old_shadow :: "string \<Rightarrow> js_state \<Rightarrow> string" where
  "old_shadow name st = (case m_shadowValues st name of None \<Rightarrow> [] | Some s \<Rightarrow> s)"

definition set_shadow :: "bool \<Rightarrow> string \<Rightarrow> string \<Rightarrow> js_state \<Rightarrow> js_state" where
  "set_shadow has_variable name i st =
     (if has_variable then st\<lparr>m_shadowValues := (m_shadowValues st)(name \<mapsto> i)\<rparr> else st)"

definition restore_shadow :: "bool \<Rightarrow> string \<Rightarrow> string \<Rightarrow> js_state \<Rightarrow> js_state" where
  "restore_shadow has_variable name old st =
     (if has_variable
      then st\<lparr>m_shadowValues := (m_shadowValues st)(name := (if old \<noteq> [] then Some old else None))\<rparr>
      else st)"

text \<open>The part of \<open>for_block\<close> before the body is walked.\<close>

definition for_header :: "int \<Rightarrow> bool \<Rightarrow> bool \<Rightarrow> expr \<Rightarrow> js_step" where
  "for_header n has_else_body has_value_variable iterable =
     steps [blankline,
       start_line, js_emit (''var '' @ for_id ''iterable_'' n @ '' = ''), js_expression iterable,
       js_emit '';'', end_line,
       if has_else_body
       then steps [start_line, js_emit (''var '' @ for_id ''is_empty_'' n @ '' = true;''), end_line]
       else Inr,
       start_line,
       js_emit (''for (var '' @ for_id ''key_'' n @ '' in '' @ for_id ''iterable_'' n @ '') {''),
       end_line, js_indent,
       start_line,
       js_emit (''if (!'' @ for_id ''iterable_'' n @ ''.hasOwnProperty('' @ for_id ''key_'' n @ '')) continue;''),
       end_line,
       if has_value_variable
       then steps [start_line,
              js_emit (''var '' @ for_id ''value_'' n @ '' = '' @ for_id ''iterable_'' n @ ''['' @
                for_id ''key_'' n @ ''];''), end_line]
       else Inr,
       blankline]"

text \<open>The part between the body and the else body.\<close>

definition for_footer :: "int \<Rightarrow> bool \<Rightarrow> js_step" where
  "for_footer n has_else_body =
     steps [if has_else_body
            then steps [start_line, js_emit (for_id ''is_empty_'' n @ '' = false;''), end_line]
            else Inr,
       js_outdent, line ''}'', blankline]"

text \<open>The flag of \<open>js_ast\<close> is \<open>is_elseif\<close>, which only the chain of if blocks sets.\<close>

fun js_ast :: "bool \<Rightarrow> ast \<Rightarrow> js_step" and js_statements :: "ast list \<Rightarrow> js_step" where
  "js_ast is_elseif (Statements xs) st = js_statements xs st"
| "js_ast is_elseif (RawBlock t) st =
     steps [start_line, js_emit (''buffer += '' @ [squote]), emit_js_escaped t,
       js_emit ([squote] @ '';''), end_line] st"
| "js_ast is_elseif (PrintBlock e) st =
     steps [start_line, js_emit ''buffer += '', js_expression e,
       \<lambda>st. if m_undefinedCheck st then js_emit ('' || '' @ [squote, squote]) st else Inr st,
       js_emit '';'', end_line] st"
| "js_ast is_elseif (IfBlock c th el) st =
     bindE (steps [if \<not> is_elseif then blankline else Inr, start_line,
              js_emit ((if is_elseif then ''} else '' else []) @ ''if (''), js_expression c,
              js_emit '') {'', end_line, js_indent] st) (\<lambda>st.
       bindE (derefE th (\<lambda>a. js_ast False a st)) (\<lambda>st.
         bindE (js_outdent st) (\<lambda>st.
           case el of
             None \<Rightarrow> steps [line ''}'', blankline] st
           | Some e \<Rightarrow>
               (case e of
                  IfBlock _ _ _ \<Rightarrow> js_ast True e st
                | _ \<Rightarrow> bindE (steps [line ''} else {'', js_indent] st) (\<lambda>st.
                         bindE (js_ast False e st) (steps [js_outdent, line ''}'', blankline]))))))"
| "js_ast is_elseif (ForBlock k v iterable b el) st =
     (let st = st\<lparr>m_forCounter := m_forCounter st + 1\<rparr>; n = m_forCounter st;
          has_key = k \<noteq> None; has_value = v \<noteq> None; has_else_body = el \<noteq> None
      in bindE (loop_variable_name k) (\<lambda>key_name. bindE (loop_variable_name v) (\<lambda>value_name.
         bindE (for_header n has_else_body has_value iterable st) (\<lambda>st.
         (let oldKey = old_shadow key_name st; oldValue = old_shadow value_name st;
              st = set_shadow has_value value_name (for_id ''value_'' n)
                     (set_shadow has_key key_name (for_id ''key_'' n) st)
          in bindE (derefE b (\<lambda>a. js_ast False a st)) (\<lambda>st.
             bindE (for_footer n has_else_body
                      (restore_shadow has_value value_name oldValue
                        (restore_shadow has_key key_name oldKey st))) (\<lambda>st.
             (case el of
                None \<Rightarrow> Inr st
              | Some e \<Rightarrow>
                  bindE (steps [start_line, js_emit (''if ('' @ for_id ''is_empty_'' n @ '') {''),
                           end_line, js_indent] st) (\<lambda>st.
                    bindE (js_ast False e st) (steps [js_outdent, line ''}'', blankline]))))))))))"
| "js_ast is_elseif (IncludeBlock n s m) st = Inl (Throws (RuntimeError ''Unsupported''))"
| "js_statements [] st = Inr st"
| "js_statements (x # xs) st = bindE (js_ast False x st) (js_statements xs)"

definition printHeader :: js_step where
  "printHeader = steps [line ''function(helpers, data) {'', js_indent,
     line ''data = data || {};'', line (''var buffer = '' @ [squote, squote] @ '';''), blankline]"

definition printFooter :: js_step where
  "printFooter = steps [blankline, line ''return buffer;'', js_outdent, line ''}'']"

definition js_visit :: "ast \<Rightarrow> js_step" where
  "js_visit a = steps [printHeader, js_ast False a, printFooter]"

end
