(* ===== verification/Drivers.thy ===== *)
theory Drivers
  imports Syntax_Actions Include_Laws Js_Visitor
begin

text \<open>
  The two command line programs: \<open>src/ast_print/print.cpp\<close>, which prints the tree of a template,
  and \<open>src/js_precompiler/compiler.cpp\<close>, which prints its JavaScript code.

  Parameters: \<open>parse\<close> is \<open>Parser::parse\<close> (instantiated by \<open>parse_file\<close> in the laws), \<open>dirname\<close> the
  function of \<open>libgen.h\<close>, which returns the directory part and may change its argument, so it
  also yields what the argument holds after the call.  The function \<open>getopt_long\<close> of the C library
  is applied to the options one at a time: an option is the entry of the table that it matches,
  a short option, or neither.  \<open>fuel\<close> bounds the recursion through included files.
\<close>

section \<open>Options\<close>

text \<open>The four static variables, the local variables of \<open>main\<close>, and the flag of the visitor.\<close>

record options =
  enable_resolve_includes_pass :: bool
  enable_constant_folding_pass :: bool
  enable_literal_print_block_to_raw_block_conversion_pass :: bool
  enable_raw_block_coalescing_pass :: bool
  basepath :: string
  undefined_check :: bool

definition initial_options :: options where
  "initial_options =
     \<lparr>enable_resolve_includes_pass = True, enable_constant_folding_pass = True,
      enable_literal_print_block_to_raw_block_conversion_pass = True,
      enable_raw_block_coalescing_pass = True, basepath = [], undefined_check = False\<rparr>"

text \<open>A pointer to one of the four variables.\<close>

datatype pass_flag = Resolve_includes | Constant_folding | Literal_print_conversion | Raw_coalescing

fun set_flag :: "pass_flag \<Rightarrow> bool \<Rightarrow> options \<Rightarrow> options" where
  "set_flag Resolve_includes v opts = opts\<lparr>enable_resolve_includes_pass := v\<rparr>"
| "set_flag Constant_folding v opts = opts\<lparr>enable_constant_folding_pass := v\<rparr>"
| "set_flag Literal_print_conversion v opts =
     opts\<lparr>enable_literal_print_block_to_raw_block_conversion_pass := v\<rparr>"
| "set_flag Raw_coalescing v opts = opts\<lparr>enable_raw_block_coalescing_pass := v\<rparr>"

datatype argument = Long nat string | Short char string | Unrecognised

text \<open>A \<open>struct option\<close>: the name, the flag with the value to store in it, and \<open>val\<close>.\<close>

type_synonym long_option = "string \<times> (pass_flag \<times> bool) option \<times> char"

text \<open>
  \<open>getopt_long\<close> stores the value of an entry that has a flag and returns 0, which is \<open>None\<close> here;
  else it returns \<open>val\<close>, with the argument of the option.
\<close>

definition getopt_long ::
    "long_option list \<Rightarrow> argument \<Rightarrow> options \<Rightarrow> (char \<times> string) option \<times> options" where
  "getopt_long long_options argument opts =
     (case argument of
        Long i optarg \<Rightarrow>
          (case long_options ! i of
             (_, Some (flag, v), _) \<Rightarrow> (None, set_flag flag v opts)
           | (_, None, val) \<Rightarrow> (Some (val, optarg), opts))
      | Short c optarg \<Rightarrow> (Some (c, optarg), opts)
      | Unrecognised \<Rightarrow> (Some (CHR ''?'', []), opts))"

text \<open>How a program ends: the status with what it wrote, an abort, or a failure it does not catch.\<close>

datatype main_end =
    Exits int (std_out: string) (std_err: string)
  | Aborts
  | Fails failure

definition lines_text :: "string list \<Rightarrow> string" where
  "lines_text ls = concat (map (\<lambda>l. l @ [newline]) ls)"

section \<open>What both programs share\<close>

text \<open>\<open>parseAST\<close>: \<open>Inr (Inl text)\<close> is the null pointer, with the text written to \<open>std::cerr\<close>.\<close>

definition parseAST :: "(string \<Rightarrow> ast res) \<Rightarrow> string \<Rightarrow> (string + ast) res" where
  "parseAST parse path =
     (case parse path of
        Inr a \<Rightarrow> Inr (Inr a)
      | Inl (Throws (SyntaxError msg line_no)) \<Rightarrow>
          Inr (Inl (''syntax error at line '' @ string_of_int (int line_no) @ '': '' @ msg @ [newline]))
      | Inl f \<Rightarrow> Inl f)"

definition optimizeAST :: "nat \<Rightarrow> (string \<Rightarrow> ast res) \<Rightarrow> options \<Rightarrow> string \<Rightarrow> ast \<Rightarrow> ast res" where
  "optimizeAST fuel parse opts base ast =
     (let passManager = new_pass_manager;
          passManager = (if enable_resolve_includes_pass opts
                         then addPass (resolve base parse fuel) passManager else passManager);
          passManager = (if enable_constant_folding_pass opts
                         then addExpressionPass FoldConstantExpressionsPass passManager else passManager);
          passManager = (if enable_literal_print_block_to_raw_block_conversion_pass opts
                         then addPass (ast_process ConvertLiteralPrintBlockToRawBlockPass) passManager
                         else passManager);
          passManager = (if enable_raw_block_coalescing_pass opts
                         then addPass (ast_process CoalesceRawBlocksPass) passManager else passManager)
      in run_passes passManager ast)"

text \<open>The base path and the name of the template, after \<open>dirname\<close> has been at the latter.\<close>

definition template_paths :: "(string \<Rightarrow> string \<times> string) \<Rightarrow> options \<Rightarrow> string \<Rightarrow> string \<times> string" where
  "template_paths dirname opts template =
     (if basepath opts = [] then dirname template else (basepath opts, template))"

section \<open>The tree printer\<close>

definition ast_print_usage :: "string \<Rightarrow> string" where
  "ast_print_usage binary = lines_text
     ([''USAGE: '' @ binary @ '' [options] <template>'', ''OPTIONS:'',
       ''  --enable-all-passes                        Enable all passes [default]'',
       ''  --disable-all-passes                       Disable all passes'',
       ''  --enable-resolve-includes-pass''] @
      concat (map (\<lambda>pass. [''  --enable-'' @ pass, ''  --disable-'' @ pass])
        [''resolve-includes-pass'', ''constant-folding-pass'',
         ''literal-print-to-raw-conversion-pass'', ''raw-block-coalescing-pass'']) @
      [''  --template-basepath | -t                   Template basepath'',
       ''  --help | -h                                Display this message''])"

definition ast_print_options :: "long_option list" where
  "ast_print_options =
     [(''disable-all-passes'', None, CHR ''d''),
      (''enable-all-passes'', None, CHR ''e''),
      (''enable-resolve-includes-pass'', Some (Resolve_includes, True), CHR 0x01),
      (''disable-resolve-includes-pass'', Some (Resolve_includes, False), CHR 0x00),
      (''enable-constant-folding-pass'', Some (Constant_folding, True), CHR 0x01),
      (''disable-constant-folding-pass'', Some (Constant_folding, False), CHR 0x00),
      (''enable-literal-print-to-raw-conversion-pass'', Some (Literal_print_conversion, True), CHR 0x01),
      (''disable-literal-print-to-raw-conversion-pass'', Some (Literal_print_conversion, False), CHR 0x00),
      (''enable-raw-block-coalescing-pass'', Some (Raw_coalescing, True), CHR 0x01),
      (''disable-raw-block-coalescing-pass'', Some (Raw_coalescing, False), CHR 0x00),
      (''template-basepath'', None, CHR ''t''),
      (''help'', None, CHR ''h'')]"

definition set_all_flags :: "bool \<Rightarrow> options \<Rightarrow> options" where
  "set_all_flags v opts =
     set_flag Raw_coalescing v (set_flag Literal_print_conversion v
       (set_flag Constant_folding v (set_flag Resolve_includes v opts)))"

fun ast_print_parse_options :: "string \<Rightarrow> argument list \<Rightarrow> options \<Rightarrow> main_end + options" where
  "ast_print_parse_options binary [] opts = Inr opts"
| "ast_print_parse_options binary (argument # arguments) opts =
     (case getopt_long ast_print_options argument opts of
        (None, opts) \<Rightarrow> ast_print_parse_options binary arguments opts
      | (Some (c, optarg), opts) \<Rightarrow>
          if c = CHR ''d'' then ast_print_parse_options binary arguments (set_all_flags False opts)
          else if c = CHR ''e'' then ast_print_parse_options binary arguments (set_all_flags True opts)
          else if c = CHR ''t'' then ast_print_parse_options binary arguments (opts\<lparr>basepath := optarg\<rparr>)
          else if c = CHR ''h'' \<or> c = CHR ''?'' then Inl (Exits 0 [] (ast_print_usage binary))
          else Inl Aborts)"

text \<open>\<open>what()\<close> of a \<open>std::runtime_error\<close>; a syntax error is not one, nor is
  an exception of the library for an index.\<close>

fun runtime_error_text :: "exn \<Rightarrow> string option" where
  "runtime_error_text (RuntimeError msg) = Some msg"
| "runtime_error_text (MissingVariableReferenceError includeFilename variableName) =
     Some (''No value found for variable '' @ [squote] @ variableName @ [squote] @ '', referenced in '' @
           [squote] @ includeFilename @ [squote])"
| "runtime_error_text (SyntaxError msg line_no) = None"
| "runtime_error_text (OutOfRange msg) = None"

definition printAST :: "ast \<Rightarrow> main_end" where
  "printAST a =
     (case pv_visit a new_print_visitor of
        Inl f \<Rightarrow> Fails f
      | Inr visitor \<Rightarrow> Exits 0 (m_output visitor) [])"

definition ast_print_main ::
    "(string \<Rightarrow> string \<times> string) \<Rightarrow> (string \<Rightarrow> ast res) \<Rightarrow> nat \<Rightarrow> string \<Rightarrow> argument list \<Rightarrow> string list \<Rightarrow>
     main_end" where
  "ast_print_main dirname parse fuel binary arguments argv =
     (case ast_print_parse_options binary arguments initial_options of
        Inl e \<Rightarrow> e
      | Inr opts \<Rightarrow>
          (case argv of
             [template] \<Rightarrow>
               (let (base, path) = template_paths dirname opts template
                in case parseAST parse path of
                     Inl f \<Rightarrow> Fails f
                   | Inr (Inl text) \<Rightarrow> Exits 1 [] text
                   | Inr (Inr a) \<Rightarrow>
                       (case optimizeAST fuel parse opts base a of
                          Inl (Throws e) \<Rightarrow>
                            (case runtime_error_text e of
                               Some what \<Rightarrow> Exits 1 [] (''Runtime error: '' @ what @ [newline])
                             | None \<Rightarrow> Fails (Throws e))
                        | Inl f \<Rightarrow> Fails f
                        | Inr a \<Rightarrow> printAST a))
           | _ \<Rightarrow> Exits 1 [] (ast_print_usage binary)))"

section \<open>The JavaScript compiler\<close>

definition js_usage :: "string \<Rightarrow> string" where
  "js_usage binary = lines_text
     [''USAGE: '' @ binary @ '' [options] <template>'', ''OPTIONS:'',
      ''  --enable-pass=<pass>                       Enable pass (all are enabled by default)'',
      ''  --disable-pass=<pass>                      Disable pass'',
      ''  --list-passes                              Lists all passes'',
      ''  --template-basepath | -t                   Template basepath'',
      ''  --enable-undefined-check                   Checks whether a value is undefined and replaces it with an empty string'',
      ''  --help | -h                                Display this message'']"

definition js_options :: "long_option list" where
  "js_options =
     [(''disable-pass'', None, CHR ''d''), (''enable-pass'', None, CHR ''e''),
      (''list-passes'', None, CHR ''l''), (''template-basepath'', None, CHR ''t''),
      (''help'', None, CHR ''h''), (''enable-undefined-check'', None, CHR ''u'')]"

definition passes :: "(string \<times> pass_flag) list" where
  "passes =
     [(''resolve-includes-pass'', Resolve_includes), (''constant-folding-pass'', Constant_folding),
      (''literal-print-to-raw-conversion-pass'', Literal_print_conversion),
      (''raw-block-coalescing-pass'', Raw_coalescing)]"

definition list_passes :: string where
  "list_passes = lines_text (''Available passes:'' # map (\<lambda>(name, _). ''  '' @ name) passes)"

definition set_pass :: "bool \<Rightarrow> string \<Rightarrow> options \<Rightarrow> options" where
  "set_pass v name opts =
     (case map_of passes name of None \<Rightarrow> opts | Some enabled \<Rightarrow> set_flag enabled v opts)"

fun js_parse_options :: "string \<Rightarrow> argument list \<Rightarrow> options \<Rightarrow> main_end + options" where
  "js_parse_options binary [] opts = Inr opts"
| "js_parse_options binary (argument # arguments) opts =
     (case getopt_long js_options argument opts of
        (None, opts) \<Rightarrow> js_parse_options binary arguments opts
      | (Some (c, optarg), opts) \<Rightarrow>
          if c = CHR ''d'' then js_parse_options binary arguments (set_pass False optarg opts)
          else if c = CHR ''e'' then js_parse_options binary arguments (set_pass True optarg opts)
          else if c = CHR ''l'' then Inl (Exits 0 [] list_passes)
          else if c = CHR ''t'' then js_parse_options binary arguments (opts\<lparr>basepath := optarg\<rparr>)
          else if c = CHR ''u'' then js_parse_options binary arguments (opts\<lparr>undefined_check := True\<rparr>)
          else if c = CHR ''h'' \<or> c = CHR ''?'' then Inl (Exits 0 [] (js_usage binary))
          else Inl Aborts)"

definition js_main ::
    "(string \<Rightarrow> string \<times> string) \<Rightarrow> (string \<Rightarrow> ast res) \<Rightarrow> nat \<Rightarrow> string \<Rightarrow> argument list \<Rightarrow> string list \<Rightarrow>
     main_end" where
  "js_main dirname parse fuel binary arguments argv =
     (case js_parse_options binary arguments initial_options of
        Inl e \<Rightarrow> e
      | Inr opts \<Rightarrow>
          (case argv of
             [template] \<Rightarrow>
               (let (base, path) = template_paths dirname opts template
                in case parseAST parse path of
                     Inl f \<Rightarrow> Fails f
                   | Inr (Inl text) \<Rightarrow> Exits 1 [] text
                   | Inr (Inr a) \<Rightarrow>
                       (case optimizeAST fuel parse opts base a of
                          Inl f \<Rightarrow> Fails f
                        | Inr a \<Rightarrow>
                            (case js_visit a (performUndefinedCheck (undefined_check opts)
                                                new_javascript_visitor) of
                               Inl f \<Rightarrow> Fails f
                             | Inr visitor \<Rightarrow> Exits 0 (js_output visitor) [])))
           | _ \<Rightarrow> Exits 1 [] (js_usage binary)))"

end
