(* ===== verification/Js_Laws.thy ===== *)
theory Js_Laws
  imports Js_Visitor
begin

text \<open>
  What the JavaScript backend guarantees: how it changes its state, for which trees it produces
  code, how it fails, and what is wrong with the operators it writes.
\<close>

section \<open>The text of an expression\<close>

fun js_text :: "(string \<Rightarrow> string option) \<Rightarrow> expr \<Rightarrow> string res" and
    js_args_text :: "(string \<Rightarrow> string option) \<Rightarrow> bool \<Rightarrow> expr option list \<Rightarrow> string res" where
  "js_text \<sigma> (VariableReference v) =
     (case \<sigma> v of Some s \<Rightarrow> Inr s
      | None \<Rightarrow> bindE (js_escape v) (\<lambda>s. Inr (''data['' @ [squote] @ s @ [squote] @ '']'')))"
| "js_text \<sigma> (GetAttribute v a) = bindE (js_text \<sigma> v) (\<lambda>s. bindE (js_escape a) (\<lambda>t.
     Inr (s @ ''['' @ [squote] @ t @ [squote] @ '']'')))"
| "js_text \<sigma> (MethodCall m args) = bindE (js_args_text \<sigma> True args) (\<lambda>s.
     Inr (''helpers['' @ [squote] @ m @ [squote] @ '']('' @ s @ '')''))"
| "js_text \<sigma> (DoubleLiteral v) = Inr (format_f v)"
| "js_text \<sigma> (IntegerLiteral v) = Inr (string_of_long v)"
| "js_text \<sigma> (BooleanLiteral v) = Inr (if v then ''true'' else ''false'')"
| "js_text \<sigma> (StringLiteral v) = bindE (js_escape v) (\<lambda>s. Inr ([squote] @ s @ [squote]))"
| "js_text \<sigma> (BinaryOperation l r op) = bindE (js_text \<sigma> l) (\<lambda>s. bindE (js_text \<sigma> r) (\<lambda>t.
     Inr (s @ '' '' @ two_chars (binary_code op) @ '' '' @ t)))"
| "js_text \<sigma> (UnaryOperation e op) = bindE (js_text \<sigma> e) (\<lambda>s. Inr (unary_char op # s))"
| "js_text \<sigma> (Comparison l r op) = bindE (js_text \<sigma> l) (\<lambda>s. bindE (js_text \<sigma> r) (\<lambda>t.
     Inr (s @ '' '' @ two_chars (comparison_code op) @ '' '' @ t)))"
| "js_args_text \<sigma> first [] = Inr []"
| "js_args_text \<sigma> first (p # ps) = bindE (derefE p (js_text \<sigma>)) (\<lambda>s.
     bindE (js_args_text \<sigma> False ps) (\<lambda>t. Inr ((if first then [] else '', '') @ s @ t)))"

definition js_append :: "js_state \<Rightarrow> string \<Rightarrow> js_state" where
  "js_append st s = st\<lparr>js_output := js_output st @ s\<rparr>"

definition shift :: "int \<Rightarrow> js_state \<Rightarrow> js_state" where
  "shift d st = st\<lparr>m_indentationCount := m_indentationCount st + d\<rparr>"

lemma js_append_simps [simp]:
  "js_append (js_append st s) t = js_append st (s @ t)"
  "js_append st [] = st"
  "m_shadowValues (js_append st s) = m_shadowValues st"
  "m_undefinedCheck (js_append st s) = m_undefinedCheck st"
  "m_forCounter (js_append st s) = m_forCounter st"
  "m_indentationCount (js_append st s) = m_indentationCount st"
  "js_output (js_append st s) = js_output st @ s"
  by (simp_all add: js_append_def)

lemma shift_simps [simp]:
  "shift d (js_append st s) = js_append (shift d st) s"
  "shift d (shift e st) = shift (d + e) st"
  "shift 0 st = st"
  "m_shadowValues (shift d st) = m_shadowValues st"
  "m_undefinedCheck (shift d st) = m_undefinedCheck st"
  "m_forCounter (shift d st) = m_forCounter st"
  "m_indentationCount (shift d st) = m_indentationCount st + d"
  "js_output (shift d st) = js_output st"
  by (simp_all add: shift_def js_append_def ac_simps)

lemma js_step_simps [simp]:
  "js_emit s st = Inr (js_append st s)"
  "emit_js_escaped s st = bindE (js_escape s) (\<lambda>t. Inr (js_append st t))"
  "start_line st = Inr (js_append st (replicate (nat (m_indentationCount st)) tabulator))"
  "end_line st = Inr (js_append st [newline])"
  "blankline st = Inr (js_append st [newline])"
  "line s st = Inr (js_append st (replicate (nat (m_indentationCount st)) tabulator @ s @ [newline]))"
  "js_indent st = Inr (shift 1 st)"
  "js_outdent st = Inr (shift (- 1) st)"
  by (simp_all add: js_emit_def js_append_def emit_js_escaped_def start_line_def end_line_def
      blankline_def line_def js_indent_def js_outdent_def shift_def)

lemma steps_Nil [simp]: "steps [] = Inr"
  by (rule ext) simp

lemma js_expression_text:
  "js_expression e st = bindE (js_text (m_shadowValues st) e) (\<lambda>s. Inr (js_append st s))"
  "js_arguments first ps st =
     bindE (js_args_text (m_shadowValues st) first ps) (\<lambda>s. Inr (js_append st s))"
proof (induction "m_shadowValues st" e and "m_shadowValues st" first ps arbitrary: st and st
    rule: js_text_js_args_text.induct)
  case (1 v)
  then show ?case by (simp add: bindE_assoc split: option.split)
next
  case (12 first p ps)
  then show ?case by (cases p) (simp_all add: bindE_assoc cong: bindE_cong)
qed (simp_all add: bindE_assoc cong: bindE_cong)

section \<open>Changes of state\<close>

text \<open>
  \<open>moves d k st st'\<close>: from \<open>st\<close> to \<open>st'\<close> the indentation changes by \<open>d\<close>, \<open>k\<close> loops are numbered,
  output is only appended, and nothing else changes.
\<close>

definition moves :: "int \<Rightarrow> int \<Rightarrow> js_state \<Rightarrow> js_state \<Rightarrow> bool" where
  "moves d k st st' \<longleftrightarrow>
     m_indentationCount st' = m_indentationCount st + d \<and> m_forCounter st' = m_forCounter st + k \<and>
     m_undefinedCheck st' = m_undefinedCheck st \<and> m_shadowValues st' = m_shadowValues st \<and>
     (\<exists>t. js_output st' = js_output st @ t)"

lemma moves_trans: "moves d k st st1 \<Longrightarrow> moves e l st1 st2 \<Longrightarrow> moves (d + e) (k + l) st st2"
  by (auto simp: moves_def)

lemma moves_append [simp]: "moves 0 0 st (js_append st s)"
  by (simp add: moves_def)

lemma moves_append_shift [simp]: "moves d 0 st (js_append (shift d st) s)"
  by (simp add: moves_def)

lemma moves_header: "for_header n he hv i st = Inr st' \<Longrightarrow> moves 1 0 st st'"
  by (cases he; cases hv)
    (auto simp: for_header_def js_expression_text bindE_eq_Inr moves_def)

lemma moves_footer: "for_footer n he st = Inr st' \<Longrightarrow> moves (- 1) 0 st st'"
  by (cases he) (auto simp: for_footer_def moves_def)

text \<open>No shadow value is empty: the code takes an empty one for an absent one.\<close>

definition shadows_named :: "js_state \<Rightarrow> bool" where
  "shadows_named st \<longleftrightarrow> (\<forall>v. m_shadowValues st v \<noteq> Some [])"

lemma shadows_named_moves: "moves d k st st' \<Longrightarrow> shadows_named st \<Longrightarrow> shadows_named st'"
  by (simp add: moves_def shadows_named_def)

lemma for_id_nonempty [simp]: "prefix \<noteq> [] \<Longrightarrow> for_id prefix n \<noteq> []"
  by (simp add: for_id_def)

lemma shadows_named_set:
  "shadows_named st \<Longrightarrow> i \<noteq> [] \<Longrightarrow> shadows_named (set_shadow has name i st)"
  by (auto simp: shadows_named_def set_shadow_def)

lemma restore_set_shadow:
  assumes "shadows_named st"
    and "m_shadowValues st2 = m_shadowValues (set_shadow hv vn vi (set_shadow hk kn ki st))"
  shows "m_shadowValues (restore_shadow hv vn (old_shadow vn st) (restore_shadow hk kn (old_shadow kn st) st2))
    = m_shadowValues st"
  using assms
  by (auto simp: shadows_named_def set_shadow_def restore_shadow_def old_shadow_def fun_eq_iff
      split: option.splits)

lemma restore_other [simp]:
  "m_indentationCount (restore_shadow has name old st) = m_indentationCount st"
  "m_forCounter (restore_shadow has name old st) = m_forCounter st"
  "m_undefinedCheck (restore_shadow has name old st) = m_undefinedCheck st"
  "js_output (restore_shadow has name old st) = js_output st"
  "m_indentationCount (set_shadow has name i st) = m_indentationCount st"
  "m_forCounter (set_shadow has name i st) = m_forCounter st"
  "m_undefinedCheck (set_shadow has name i st) = m_undefinedCheck st"
  "js_output (set_shadow has name i st) = js_output st"
  by (simp_all add: restore_shadow_def set_shadow_def)

fun loops :: "ast \<Rightarrow> int" where
  "loops (Statements xs) = sum_list (map loops xs)"
| "loops (IfBlock c th el) =
     (case th of None \<Rightarrow> 0 | Some a \<Rightarrow> loops a) + (case el of None \<Rightarrow> 0 | Some a \<Rightarrow> loops a)"
| "loops (ForBlock k v i b el) =
     1 + (case b of None \<Rightarrow> 0 | Some a \<Rightarrow> loops a) + (case el of None \<Rightarrow> 0 | Some a \<Rightarrow> loops a)"
| "loops _ = 0"

text \<open>A successful run of an if block or of a loop, in its parts.\<close>

lemma if_parts:
  assumes "js_ast is_elseif (IfBlock c th el) st = Inr st'"
  obtains a st1 st2 where "th = Some a" "moves 1 0 st st1" "js_ast False a st1 = Inr st2"
    "el = None \<Longrightarrow> moves (- 1) 0 st2 st'"
    "\<And>e. el = Some e \<Longrightarrow> \<exists>b d st3 st4. moves d 0 st2 st3 \<and> js_ast b e st3 = Inr st4 \<and>
       moves (- 1 - d) 0 st4 st'"
proof -
  from assms obtain s a st2 where a: "th = Some a" and
    st2: "js_ast False a (js_append (shift 1 st) s) = Inr st2" and
    rest: "(case el of None \<Rightarrow> steps [line ''}'', blankline] (shift (- 1) st2)
        | Some e \<Rightarrow> (case e of IfBlock _ _ _ \<Rightarrow> js_ast True e (shift (- 1) st2)
           | _ \<Rightarrow> bindE (steps [line ''} else {'', js_indent] (shift (- 1) st2)) (\<lambda>st.
                    bindE (js_ast False e st) (steps [js_outdent, line ''}'', blankline])))) = Inr st'"
    by (cases th; cases is_elseif) (auto simp: js_expression_text bindE_eq_Inr)
  show thesis
  proof (rule that [OF a _ st2])
    show "el = None \<Longrightarrow> moves (- 1) 0 st2 st'" using rest by auto
    fix e assume el: "el = Some e"
    show "\<exists>b d st3 st4. moves d 0 st2 st3 \<and> js_ast b e st3 = Inr st4 \<and> moves (- 1 - d) 0 st4 st'"
    proof (cases "\<exists>c' t' e'. e = IfBlock c' t' e'")
      case True
      with rest el have "js_ast True e (shift (- 1) st2) = Inr st'" by auto
      moreover have "moves (- 1) 0 st2 (shift (- 1) st2)" "moves 0 0 st' st'" by (simp_all add: moves_def)
      ultimately show ?thesis by fastforce
    next
      case False
      with rest el have "bindE (steps [line ''} else {'', js_indent] (shift (- 1) st2)) (\<lambda>st.
          bindE (js_ast False e st) (steps [js_outdent, line ''}'', blankline])) = Inr st'"
        by (cases e) auto
      then obtain t st4 where "js_ast False e (js_append st2 t) = Inr st4"
        "moves (- 1) 0 st4 st'" by (auto simp: bindE_eq_Inr)
      moreover have "moves 0 0 st2 (js_append st2 t)" by simp
      ultimately show ?thesis by fastforce
    qed
  qed simp
qed

lemma for_parts:
  assumes run: "js_ast is_elseif (ForBlock k v iterable b el) st = Inr st'" and named: "shadows_named st"
  obtains a st1 st2 st3 where "b = Some a" "shadows_named st1" "js_ast False a st1 = Inr st2"
    "\<And>n. moves 0 n st1 st2 \<Longrightarrow> moves 0 (1 + n) st st3"
    "el = None \<Longrightarrow> st' = st3"
    "\<And>e. el = Some e \<Longrightarrow> \<exists>s st4. js_ast False e (js_append (shift 1 st3) s) = Inr st4 \<and>
       moves (- 1) 0 st4 st'"
proof -
  define n where "n = m_forCounter st + 1"
  let ?st0 = "st\<lparr>m_forCounter := n\<rparr>"
  let ?he = "el \<noteq> None" and ?hk = "k \<noteq> None" and ?hv = "v \<noteq> None"
  from run obtain kn vn h where names: "loop_variable_name k = Inr kn" "loop_variable_name v = Inr vn"
    and h: "for_header n ?he ?hv iterable ?st0 = Inr h"
    by (auto simp: bindE_eq_Inr Let_def n_def)
  let ?st1 = "set_shadow ?hv vn (for_id ''value_'' n) (set_shadow ?hk kn (for_id ''key_'' n) h)"
  let ?restored = "\<lambda>st2. restore_shadow ?hv vn (old_shadow vn h) (restore_shadow ?hk kn (old_shadow kn h) st2)"
  from run names h obtain a st2 st3 where a: "b = Some a" and st2: "js_ast False a ?st1 = Inr st2"
    and st3: "for_footer n ?he (?restored st2) = Inr st3"
    and rest: "(case el of None \<Rightarrow> Inr st3
        | Some e \<Rightarrow> bindE (steps [start_line, js_emit (''if ('' @ for_id ''is_empty_'' n @ '') {''),
                           end_line, js_indent] st3) (\<lambda>st.
                      bindE (js_ast False e st) (steps [js_outdent, line ''}'', blankline]))) = Inr st'"
    by (cases b; cases el) (auto simp: bindE_eq_Inr Let_def n_def)
  have h_moves: "moves 1 1 st h"
    using moves_header [OF h] by (simp add: moves_def n_def)
  then have "shadows_named h" using named by (rule shadows_named_moves)
  then have named1: "shadows_named ?st1" by (intro shadows_named_set) simp_all
  show thesis
  proof (rule that [OF a named1 st2])
    fix m assume m: "moves 0 m ?st1 st2"
    then have "m_shadowValues st2 = m_shadowValues ?st1" by (simp add: moves_def)
    then have "m_shadowValues (?restored st2) = m_shadowValues h"
      by (rule restore_set_shadow [OF \<open>shadows_named h\<close>])
    with m have "moves 0 m h (?restored st2)" by (simp add: moves_def)
    from moves_trans [OF moves_trans [OF h_moves this] moves_footer [OF st3]]
    show "moves 0 (1 + m) st st3" by simp
  next
    show "el = None \<Longrightarrow> st' = st3" using rest by simp
  next
    fix e assume "el = Some e"
    with rest obtain s st4 where "js_ast False e (js_append (shift 1 st3) s) = Inr st4"
      "moves (- 1) 0 st4 st'" by (auto simp: bindE_eq_Inr)
    then show "\<exists>s st4. js_ast False e (js_append (shift 1 st3) s) = Inr st4 \<and> moves (- 1) 0 st4 st'"
      by blast
  qed
qed

lemma js_ast_moves:
  "js_ast is_elseif a st = Inr st' \<Longrightarrow> shadows_named st \<Longrightarrow> moves 0 (loops a) st st'"
proof (induction a arbitrary: is_elseif st st')
  case (Statements xs)
  have "js_statements ys st = Inr st' \<Longrightarrow> shadows_named st \<Longrightarrow> moves 0 (sum_list (map loops ys)) st st'"
    if "set ys \<subseteq> set xs" for ys st
    using that
  proof (induction ys arbitrary: st)
    case Nil
    then show ?case by (simp add: moves_def)
  next
    case (Cons y ys)
    from Cons.prems(1) obtain st1 where st1: "js_ast False y st = Inr st1" "js_statements ys st1 = Inr st'"
      by (auto simp: bindE_eq_Inr)
    then have y: "moves 0 (loops y) st st1" using Cons.prems by (intro Statements.IH) auto
    with Cons st1 have "moves 0 (sum_list (map loops ys)) st1 st'"
      by (intro Cons.IH) (auto dest: shadows_named_moves)
    from moves_trans [OF y this] show ?case by simp
  qed
  with Statements.prems show ?case by simp
next
  case (IfBlock c th el)
  from IfBlock.prems(1) obtain a st1 st2 where a: "th = Some a" and m1: "moves 1 0 st st1"
    and st2: "js_ast False a st1 = Inr st2" and el: "el = None \<Longrightarrow> moves (- 1) 0 st2 st'"
    "\<And>e. el = Some e \<Longrightarrow> \<exists>b d st3 st4. moves d 0 st2 st3 \<and> js_ast b e st3 = Inr st4 \<and>
       moves (- 1 - d) 0 st4 st'"
    by (rule if_parts) blast
  have named1: "shadows_named st1" using shadows_named_moves [OF m1] IfBlock.prems(2) by simp
  then have m2: "moves 1 (loops a) st st2"
    using moves_trans [OF m1 IfBlock.IH(1) [OF _ st2]] a by simp
  show ?case
  proof (cases el)
    case None
    from moves_trans [OF m2 el(1) [OF this]] show ?thesis using a None by simp
  next
    case (Some e)
    from el(2) [OF this] obtain b d st3 st4 where m3: "moves d 0 st2 st3"
      and st4: "js_ast b e st3 = Inr st4" and m4: "moves (- 1 - d) 0 st4 st'" by blast
    have named3: "shadows_named st3"
      using shadows_named_moves [OF moves_trans [OF m2 m3]] IfBlock.prems(2) by simp
    have "moves 0 (loops e) st3 st4" by (rule IfBlock.IH(2) [OF _ st4 named3]) (simp add: Some)
    from moves_trans [OF m2 moves_trans [OF m3 moves_trans [OF this m4]]] show ?thesis
      using a Some by simp
  qed
next
  case (ForBlock k v i b el)
  from ForBlock.prems obtain a st1 st2 st3 where a: "b = Some a" "shadows_named st1"
    and st2: "js_ast False a st1 = Inr st2"
    and st3: "\<And>n. moves 0 n st1 st2 \<Longrightarrow> moves 0 (1 + n) st st3"
    and el: "el = None \<Longrightarrow> st' = st3"
    "\<And>e. el = Some e \<Longrightarrow> \<exists>s st4. js_ast False e (js_append (shift 1 st3) s) = Inr st4 \<and>
       moves (- 1) 0 st4 st'"
    by (rule for_parts) blast
  have m3: "moves 0 (1 + loops a) st st3"
    by (rule st3, rule ForBlock.IH(1) [OF _ st2]) (simp_all add: a)
  show ?case
  proof (cases el)
    case None
    with m3 el(1) a show ?thesis by simp
  next
    case (Some e)
    from el(2) [OF this] obtain s st4 where st4: "js_ast False e (js_append (shift 1 st3) s) = Inr st4"
      and m4: "moves (- 1) 0 st4 st'" by blast
    have m: "moves 1 (1 + loops a) st (js_append (shift 1 st3) s)"
      using moves_trans [OF m3 moves_append_shift [of 1 st3 s]] by simp
    have "shadows_named (js_append (shift 1 st3) s)"
      using shadows_named_moves [OF m] ForBlock.prems(2) by simp
    then have "moves 0 (loops e) (js_append (shift 1 st3) s) st4"
      by (intro ForBlock.IH(2) [OF _ st4]) (simp_all add: Some)
    from moves_trans [OF m moves_trans [OF this m4]] show ?thesis using a Some by (simp add: ac_simps)
  qed
qed (auto simp: bindE_eq_Inr js_expression_text split: if_splits)

text \<open>
  C11: (state of the backend) Generating the code of a tree appends to the output, restores
  the indentation and every shadowed name, and takes one fresh number for each loop of the tree.
\<close>

theorem code_generation_restores_state:
  assumes "js_ast is_elseif a st = Inr st'" and "shadows_named st"
  shows "m_indentationCount st' = m_indentationCount st \<and> m_shadowValues st' = m_shadowValues st \<and>
    m_undefinedCheck st' = m_undefinedCheck st \<and> m_forCounter st' = m_forCounter st + loops a \<and>
    (\<exists>t. js_output st' = js_output st @ t)"
  using js_ast_moves [OF assms] by (simp add: moves_def)

theorem code_generation_restores_state_witness:
  "\<exists>t. js_output (js_append new_javascript_visitor (''buffer += 7;'' @ [newline])) =
     js_output new_javascript_visitor @ t"
  using code_generation_restores_state [of False "PrintBlock (IntegerLiteral 7)" new_javascript_visitor
      "js_append new_javascript_visitor (''buffer += 7;'' @ [newline])"]
  by (simp add: shadows_named_def new_javascript_visitor_def string_of_long_def string_of_int_def
      digits_of.simps digit_char_def)

section \<open>Trees without code\<close>

abbreviation quote_free :: "ast \<Rightarrow> bool" where
  "quote_free \<equiv> all_nodes (\<lambda>x. squote \<notin> set (raw_text x))"

lemma js_escape_Inr: "js_escape s = Inr t \<Longrightarrow> squote \<notin> set s"
  using js_escape_quoted by fastforce

lemma js_ast_needs:
  "js_ast is_elseif a st = Inr st' \<Longrightarrow> shadows_named st \<Longrightarrow> include_free a \<and> quote_free a"
proof (induction a arbitrary: is_elseif st st')
  case (Statements xs)
  have "js_statements ys st = Inr st' \<Longrightarrow> shadows_named st \<Longrightarrow>
      \<forall>y \<in> set ys. include_free y \<and> quote_free y"
    if "set ys \<subseteq> set xs" for ys st
    using that
  proof (induction ys arbitrary: st)
    case (Cons y ys)
    from Cons.prems(1) obtain st1 where st1: "js_ast False y st = Inr st1" "js_statements ys st1 = Inr st'"
      by (auto simp: bindE_eq_Inr)
    then have "include_free y \<and> quote_free y" using Cons.prems by (intro Statements.IH) auto
    moreover have "shadows_named st1"
      using js_ast_moves [OF st1(1) Cons.prems(2)] Cons.prems(2) by (rule shadows_named_moves)
    ultimately show ?case using Cons st1 by auto
  qed simp
  from this [OF subset_refl] Statements.prems have "\<forall>y \<in> set xs. include_free y \<and> quote_free y"
    by simp
  then show ?case by (simp add: list_all_iff)
next
  case (IfBlock c th el)
  from IfBlock.prems(1) obtain a st1 st2 where a: "th = Some a" and m1: "moves 1 0 st st1"
    and st2: "js_ast False a st1 = Inr st2"
    and el: "\<And>e. el = Some e \<Longrightarrow> \<exists>b d st3 st4. moves d 0 st2 st3 \<and> js_ast b e st3 = Inr st4 \<and>
       moves (- 1 - d) 0 st4 st'"
    by (rule if_parts) blast
  have named1: "shadows_named st1" using shadows_named_moves [OF m1] IfBlock.prems(2) by simp
  have m2: "moves 0 (loops a) st1 st2" by (rule js_ast_moves [OF st2 named1])
  have A: "include_free a \<and> quote_free a" by (rule IfBlock.IH(1) [OF _ st2 named1]) (simp add: a)
  have "include_free e \<and> quote_free e" if "el = Some e" for e
  proof -
    from el [OF that] obtain b d st3 st4 where m3: "moves d 0 st2 st3"
      and st4: "js_ast b e st3 = Inr st4" by blast
    have "shadows_named st3"
      using shadows_named_moves [OF m3] shadows_named_moves [OF m2] named1 by simp
    from IfBlock.IH(2) [OF _ st4 this] that show ?thesis by simp
  qed
  with A a show ?case by (cases el) auto
next
  case (ForBlock k v i b el)
  from ForBlock.prems obtain a st1 st2 st3 where a: "b = Some a" "shadows_named st1"
    and st2: "js_ast False a st1 = Inr st2"
    and st3: "\<And>n. moves 0 n st1 st2 \<Longrightarrow> moves 0 (1 + n) st st3"
    and el: "\<And>e. el = Some e \<Longrightarrow> \<exists>s st4. js_ast False e (js_append (shift 1 st3) s) = Inr st4 \<and>
       moves (- 1) 0 st4 st'"
    by (rule for_parts) blast
  have A: "include_free a \<and> quote_free a" by (rule ForBlock.IH(1) [OF _ st2]) (simp_all add: a)
  have m3: "moves 0 (1 + loops a) st st3" by (rule st3, rule js_ast_moves [OF st2 a(2)])
  have "include_free e \<and> quote_free e" if "el = Some e" for e
  proof -
    from el [OF that] obtain s st4 where st4: "js_ast False e (js_append (shift 1 st3) s) = Inr st4"
      by blast
    have "shadows_named (js_append (shift 1 st3) s)"
      using shadows_named_moves [OF m3] ForBlock.prems(2) by (simp add: shadows_named_def)
    from ForBlock.IH(2) [OF _ st4 this] that show ?thesis by simp
  qed
  with A a show ?case by (cases el) auto
next
  case (RawBlock t)
  then show ?case by (auto simp: bindE_eq_Inr dest!: js_escape_Inr)
qed auto

text \<open>
  (limits of the backend) Code comes out only for trees that have no inclusion and whose raw
  text has no single quote.  Together with \<open>js_escape_ends_iff_no_quote\<close>: an apostrophe in the
  text of a template keeps the compiler from ending.
\<close>

theorem code_only_without_includes_and_quotes:
  assumes "js_visit a new_javascript_visitor = Inr st'"
  shows "include_free a \<and> quote_free a"
proof -
  from assms obtain s st2 where "js_ast False a (js_append (shift 1 new_javascript_visitor) s) = Inr st2"
    by (auto simp: js_visit_def printHeader_def bindE_eq_Inr)
  then show ?thesis
    by (rule js_ast_needs) (simp add: shadows_named_def new_javascript_visitor_def)
qed

theorem code_only_witness:
  "include_free (RawBlock ''a'') \<and> quote_free (RawBlock ''a'')"
proof -
  have "squote \<notin> set ''a''" by simp
  from js_escape_unquoted [OF this] obtain st' where
    "js_visit (RawBlock ''a'') new_javascript_visitor = Inr st'"
    by (simp add: js_visit_def printHeader_def printFooter_def)
  then show ?thesis by (rule code_only_without_includes_and_quotes)
qed

section \<open>Trees with code\<close>

fun js_strings :: "expr \<Rightarrow> string list" where
  "js_strings (VariableReference v) = [v]"
| "js_strings (GetAttribute v a) = a # js_strings v"
| "js_strings (MethodCall _ args) =
     concat (map (\<lambda>p. case p of None \<Rightarrow> [] | Some e \<Rightarrow> js_strings e) args)"
| "js_strings (StringLiteral s) = [s]"
| "js_strings (BinaryOperation l r _) = js_strings l @ js_strings r"
| "js_strings (UnaryOperation e _) = js_strings e"
| "js_strings (Comparison l r _) = js_strings l @ js_strings r"
| "js_strings _ = []"

definition js_safe :: "expr \<Rightarrow> bool" where
  "js_safe e \<longleftrightarrow> wf_expr e \<and> list_all (\<lambda>s. squote \<notin> set s) (js_strings e)"

fun loop_variable_ok :: "expr option \<Rightarrow> bool" where
  "loop_variable_ok None = True"
| "loop_variable_ok (Some (VariableReference _)) = True"
| "loop_variable_ok _ = False"

fun emittable :: "ast \<Rightarrow> bool" where
  "emittable (Statements xs) = list_all emittable xs"
| "emittable (RawBlock t) = (squote \<notin> set t)"
| "emittable (PrintBlock e) = js_safe e"
| "emittable (IfBlock c th el) =
     (js_safe c \<and> (case th of None \<Rightarrow> False | Some a \<Rightarrow> emittable a) \<and>
      (case el of None \<Rightarrow> True | Some a \<Rightarrow> emittable a))"
| "emittable (ForBlock k v i b el) =
     (loop_variable_ok k \<and> loop_variable_ok v \<and> js_safe i \<and>
      (case b of None \<Rightarrow> False | Some a \<Rightarrow> emittable a) \<and>
      (case el of None \<Rightarrow> True | Some a \<Rightarrow> emittable a))"
| "emittable (IncludeBlock n s m) = False"

lemma js_text_total: "js_safe e \<Longrightarrow> \<exists>s. js_text \<sigma> e = Inr s"
proof (induction e)
  case (MethodCall m args)
  have "\<exists>s. js_args_text \<sigma> first ps = Inr s" if "set ps \<subseteq> set args" for first ps
    using that
  proof (induction ps arbitrary: first)
    case (Cons p ps)
    from Cons.prems MethodCall.prems obtain e where e: "p = Some e" "wf_expr e"
      unfolding js_safe_def wf_MethodCall_iff by (cases p rule: option.exhaust) auto
    moreover have "list_all (\<lambda>s. squote \<notin> set s) (js_strings e)"
      using Cons.prems MethodCall.prems e unfolding js_safe_def list_all_iff by force
    ultimately have "\<exists>s. js_text \<sigma> e = Inr s"
      using MethodCall.IH [of p e] Cons.prems by (simp add: js_safe_def)
    with Cons e show ?case by (fastforce simp: bindE_eq_Inr)
  qed simp
  from this [OF subset_refl, of True] show ?case by (auto simp: bindE_eq_Inr)
qed (auto simp: js_safe_def bindE_eq_Inr js_escape_unquoted split: option.split)

lemma loop_variable_total: "loop_variable_ok p \<Longrightarrow> \<exists>s. loop_variable_name p = Inr s"
  by (cases p rule: loop_variable_ok.cases) (auto simp: variable_name_of_def)

lemma for_header_total: "js_safe i \<Longrightarrow> \<exists>st'. for_header n he hv i st = Inr st'"
  using js_text_total [of i "m_shadowValues st"]
  by (cases he; cases hv) (auto simp: for_header_def js_expression_text)

lemma for_footer_total: "\<exists>st'. for_footer n he st = Inr st'"
  by (cases he) (auto simp: for_footer_def)

lemma js_ast_total: "emittable a \<Longrightarrow> \<exists>st'. js_ast is_elseif a st = Inr st'"
proof (induction a arbitrary: is_elseif st)
  case (Statements xs)
  have "\<exists>st'. js_statements ys st = Inr st'" if "set ys \<subseteq> set xs" for ys st
    using that
  proof (induction ys arbitrary: st)
    case (Cons y ys)
    have "\<exists>st1. js_ast False y st = Inr st1"
      using Cons.prems Statements.prems by (intro Statements.IH) (auto simp: list_all_iff)
    with Cons show ?case by fastforce
  qed simp
  then show ?case by simp
next
  case (IfBlock c th el)
  then obtain a where a: "th = Some a" "emittable a" by (auto split: option.splits)
  have body: "\<exists>st'. js_ast e a st = Inr st'" for e st using IfBlock.IH(1) [of a] a by simp
  obtain s where s: "js_text (m_shadowValues st) c = Inr s"
    using IfBlock.prems js_text_total [of c "m_shadowValues st"] by auto
  show ?case
  proof (cases el)
    case None
    with a s body show ?thesis
      by (cases is_elseif) (auto simp: js_expression_text bindE_eq_Inr)
  next
    case (Some b)
    then have els: "\<exists>st'. js_ast e b st = Inr st'" for e st
      using IfBlock.IH(2) [of b] IfBlock.prems by simp
    have "\<exists>st'. (case b of IfBlock _ _ _ \<Rightarrow> js_ast True b st
           | _ \<Rightarrow> bindE (steps [line ''} else {'', js_indent] st) (\<lambda>st.
                    bindE (js_ast False b st) (steps [js_outdent, line ''}'', blankline]))) = Inr st'" for st
      using els by (cases b) (auto simp: bindE_eq_Inr simp del: js_ast.simps)
    with a s body Some show ?thesis
      by (cases is_elseif) (fastforce simp: js_expression_text bindE_eq_Inr)+
  qed
next
  case (ForBlock k v i b el)
  then obtain a where a: "b = Some a" "emittable a" by (auto split: option.splits)
  have body: "\<exists>st'. js_ast e a st = Inr st'" for e st using ForBlock.IH(1) [of a] a by simp
  have els: "\<exists>st'. js_ast e x st = Inr st'" if "el = Some x" for e x st
    using ForBlock.IH(2) [of x] that ForBlock.prems by simp
  obtain kn vn where names: "loop_variable_name k = Inr kn" "loop_variable_name v = Inr vn"
    using ForBlock.prems loop_variable_total [of k] loop_variable_total [of v] by auto
  obtain h where h: "for_header (m_forCounter st + 1) (el \<noteq> None) (v \<noteq> None) i
      (st\<lparr>m_forCounter := m_forCounter st + 1\<rparr>) = Inr h"
    using ForBlock.prems for_header_total by fastforce
  obtain st2 where st2: "js_ast False a (set_shadow (v \<noteq> None) vn (for_id ''value_'' (m_forCounter st + 1))
      (set_shadow (k \<noteq> None) kn (for_id ''key_'' (m_forCounter st + 1)) h)) = Inr st2"
    using body by blast
  obtain st3 where st3: "for_footer (m_forCounter st + 1) (el \<noteq> None)
      (restore_shadow (v \<noteq> None) vn (old_shadow vn h) (restore_shadow (k \<noteq> None) kn (old_shadow kn h) st2))
      = Inr st3"
    using for_footer_total by blast
  show ?case
  proof (cases el)
    case None
    with a names h st2 st3 show ?thesis by (simp add: Let_def)
  next
    case (Some x)
    with a names h st2 st3 els [OF Some] show ?thesis by (fastforce simp: Let_def bindE_eq_Inr)
  qed
next
  case (PrintBlock e)
  then obtain s where "js_text (m_shadowValues st) e = Inr s"
    using js_text_total [of e "m_shadowValues st"] by auto
  then show ?case by (simp add: js_expression_text)
qed (simp_all add: js_escape_unquoted)

text \<open>
  C37: (completeness of the backend) Code comes out for every tree without inclusions in which the
  bodies are there, the loop variables are plain names, no argument is null, and no name, string
  or raw text has a single quote.
\<close>

theorem code_for_emittable_trees:
  assumes "emittable a"
  shows "\<exists>st'. js_visit a st = Inr st'"
  using js_ast_total [OF assms, of False] by (fastforce simp: js_visit_def printHeader_def printFooter_def bindE_eq_Inr)

theorem code_for_emittable_trees_witness:
  "\<exists>st'. js_visit (ForBlock None (Some (VariableReference ''x'')) (VariableReference ''xs'')
      (Some (PrintBlock (VariableReference ''x''))) (Some (RawBlock ''none''))) new_javascript_visitor = Inr st'"
  by (rule code_for_emittable_trees) (simp add: js_safe_def)

text \<open>
  (operators) The text of every arithmetic operator in the generated code starts with a NUL
  byte, and that of the two strict orderings ends in one, since the code of the operator is split
  into two characters whatever its width; the other six operators come out as written.
\<close>

theorem operators_with_nul_bytes:
  "two_chars (binary_code op) = [nul, binary_char op] \<and>
   (nul \<in> set (two_chars (comparison_code cop)) \<longleftrightarrow> cop \<in> {GreaterThan, LessThan})"
proof
  show "two_chars (binary_code op) = [nul, binary_char op]"
    by (cases op; simp only: binary_char.simps; code_simp)
  show "nul \<in> set (two_chars (comparison_code cop)) \<longleftrightarrow> cop \<in> {GreaterThan, LessThan}"
    by (cases cop; simp only: insert_iff empty_iff comparison_op.simps; code_simp)
qed

text \<open>
  (precedence) The backend writes no parentheses: the two ways to nest two operators give the
  same code, so what the generated code computes does not follow the tree.
\<close>

theorem nesting_of_operators_is_lost:
  "js_expression (BinaryOperation (BinaryOperation a b op1) c op2) st =
   js_expression (BinaryOperation a (BinaryOperation b c op2) op1) st"
  by (simp add: js_expression_text bindE_assoc)

end
