(* ===== verification/Parser_Laws.thy ===== *)
theory Parser_Laws
  imports Syntax_Actions Fold_Laws
begin

text \<open>
  What the actions of the grammar build: expressions whose operands have the static types the
  operators ask for, flat statement trees without empty lists, chains of elseif blocks, and which
  errors they report.
\<close>

section \<open>Static types\<close>

abbreviation numeric_operand :: "expr \<Rightarrow> bool" where
  "numeric_operand e \<equiv> valueType e \<in> {IntegerType, DoubleType, VariantType}"

abbreviation boolean_operand :: "expr \<Rightarrow> bool" where
  "boolean_operand e \<equiv> valueType e \<in> {BooleanType, VariantType}"

fun typed :: "expr \<Rightarrow> bool" where
  "typed (GetAttribute v a) = typed v"
| "typed (MethodCall m args) = list_all (pred_option typed) args"
| "typed (BinaryOperation l r op) = (typed l \<and> typed r \<and> numeric_operand l \<and> numeric_operand r)"
| "typed (UnaryOperation e op) =
     (typed e \<and> (if op = BooleanNegation then boolean_operand e else numeric_operand e))"
| "typed (Comparison l r op) =
     (typed l \<and> typed r \<and>
      (if op \<in> {Equal, NotEqual} then True
       else if op \<in> {Or, And} then boolean_operand l \<and> boolean_operand r
       else numeric_operand l \<and> numeric_operand r))"
| "typed e = True"

lemma assertions [simp]:
  "ASSERT_NUMERIC line x = (if numeric_operand x then Inr () else
     Inl (Throws (SyntaxError ''numeric expression expected'' line)))"
  "ASSERT_BOOLEAN line x = (if boolean_operand x then Inr () else
     Inl (Throws (SyntaxError ''boolean expression expected'' line)))"
  "ASSERT_MAP line x = (if valueType x = VariantType then Inr () else
     Inl (Throws (SyntaxError ''map expression expected'' line)))"
  by (auto simp: ASSERT_NUMERIC_def ASSERT_BOOLEAN_def ASSERT_MAP_def ASSERT_THAT_def is_numeric_def
      is_boolean_def is_variant_def Let_def)

fun equality_operation :: "equality_token \<Rightarrow> comparison_op" where
  "equality_operation T_EQ = Equal" | "equality_operation T_NEQ = NotEqual"

fun ordering_operation :: "ordering_token \<Rightarrow> comparison_op" where
  "ordering_operation T_GT = GreaterThan" | "ordering_operation T_GE = GreaterOrEqual"
| "ordering_operation T_LT = LessThan" | "ordering_operation T_LE = LessOrEqual"

fun logical_operation :: "logical_token \<Rightarrow> comparison_op" where
  "logical_operation T_OR = Or" | "logical_operation T_AND = And"

lemmas operator_codes = comparison_of_string_def comparison_of_code_def code_of_char_def pack_uint16_def

lemma comparison_strings:
  "comparison_of_string (equality_string t) = Some (equality_operation t)"
  "comparison_of_string (ordering_string u) = Some (ordering_operation u)"
  "comparison_of_string (logical_string v) = Some (logical_operation v)"
proof -
  show "comparison_of_string (equality_string t) = Some (equality_operation t)"
    by (cases t) (simp_all add: operator_codes)
  show "comparison_of_string (ordering_string u) = Some (ordering_operation u)"
    by (cases u) (simp_all add: operator_codes)
  show "comparison_of_string (logical_string v) = Some (logical_operation v)"
    by (cases v) (simp_all add: operator_codes)
qed

lemma new_comparisons [simp]:
  "new_comparison x y (equality_string t) = Inr (Comparison x y (equality_operation t))"
  "new_comparison x y (ordering_string u) = Inr (Comparison x y (ordering_operation u))"
  "new_comparison x y (logical_string v) = Inr (Comparison x y (logical_operation v))"
  by (simp_all add: new_comparison_def comparison_strings)

lemma sign_not_negation [simp]: "sign_operation t \<noteq> BooleanNegation"
  by (cases t) auto

lemma build_var_good [simp]:
  "typed (build_var v)" "wf_expr (build_var v)" "valueType (build_var v) = VariantType"
  by (induction v) auto

abbreviation good_args :: "expr option list \<Rightarrow> bool" where
  "good_args as \<equiv> (\<forall>p \<in> set as. \<exists>e. p = Some e \<and> typed e \<and> wf_expr e)"

lemma typed_ordering [simp]:
  "typed (Comparison l r (ordering_operation t)) \<longleftrightarrow>
     typed l \<and> typed r \<and> numeric_operand l \<and> numeric_operand r"
  by (cases t) auto

lemma typed_equality [simp]: "typed (Comparison l r (equality_operation t)) \<longleftrightarrow> typed l \<and> typed r"
  by (cases t) auto

lemma typed_logical [simp]:
  "typed (Comparison l r (logical_operation t)) \<longleftrightarrow>
     typed l \<and> typed r \<and> boolean_operand l \<and> boolean_operand r"
  by (cases t) auto

lemma typed_sign [simp]:
  "typed (UnaryOperation e (sign_operation t)) \<longleftrightarrow> typed e \<and> numeric_operand e"
  by (cases t) auto

lemma good_args_call: "good_args as \<Longrightarrow> typed (MethodCall m as) \<and> wf_expr (MethodCall m as)"
  by (auto simp: list_all_iff split: option.split)

lemma build_expr_good:
  "build_expr line d = Inr e \<Longrightarrow> typed e \<and> wf_expr e"
  "build_args line as = Inr es \<Longrightarrow> good_args es"
proof (induction line d and line as arbitrary: e and es rule: build_expr_build_args.induct)
  case (13 line m arguments)
  from 13 obtain es where "build_args line arguments = Inr es" "e = MethodCall m es"
    by (auto simp: bindE_eq_Inr)
  with 13 show ?case using good_args_call by blast
qed (auto simp: bindE_eq_Inr simp del: typed.simps(5) split: if_splits)

text \<open>The errors of the actions: the two assertions on operands.\<close>

definition operand_errors :: "nat \<Rightarrow> failure list" where
  "operand_errors line =
     [Throws (SyntaxError ''numeric expression expected'' line),
      Throws (SyntaxError ''boolean expression expected'' line)]"

lemma build_expr_failure:
  "build_expr line d = Inl k \<Longrightarrow> k \<in> set (operand_errors line)"
  "build_args line as = Inl k \<Longrightarrow> k \<in> set (operand_errors line)"
  by (induction line d and line as rule: build_expr_build_args.induct)
    (auto simp: bindE_eq_Inl operand_errors_def split: if_splits)

section \<open>Folding typed expressions\<close>

definition arithmetic_errors :: "failure list" where
  "arithmetic_errors = [Throws (RuntimeError ''Division by zero''),
     Throws (RuntimeError ''Modulo by zero''), Undefined SignedOverflow]"

lemma long_of_int_arithmetic: "long_of_int i = Inl k \<Longrightarrow> k \<in> set arithmetic_errors"
  by (auto simp: arithmetic_errors_def dest: long_of_int_failure)

lemma fold_binary_typed:
  assumes "typed (BinaryOperation l r op)" and "fold_binary_node l r op = Inr e'"
  shows "typed e' \<and> valueType e' = valueType (BinaryOperation l r op)"
proof (cases "isNumericLiteralExpression l \<and> isNumericLiteralExpression r")
  case True
  with assms show ?thesis
    by (cases l; simp; cases r; simp; cases op) (auto simp: fold_node_defs bindE_eq_Inr split: if_splits)
next
  case False
  with assms show ?thesis by (auto simp: fold_binary_node_def)
qed

lemma fold_unary_typed:
  assumes "typed (UnaryOperation u op)" and "fold_unary_node u op = Inr e'"
  shows "typed e' \<and> valueType e' = valueType (UnaryOperation u op)"
  using assms
  by (cases u; cases op)
    (auto simp: fold_unary_node_def fold_unary_numeric_def fold_unary_boolean_def bindE_eq_Inr Let_def)

lemma fold_comparison_typed:
  assumes "typed (Comparison l r op)"
  shows "\<exists>e'. fold_comparison_node l r op = Inr e' \<and> typed e' \<and> valueType e' = BooleanType"
proof (cases "isLiteralExpression l \<and> isLiteralExpression r")
  case True
  with assms show ?thesis
    by (cases l; cases r) (auto simp: fold_comparison_node_def fold_equality_def fold_relational_def
        fold_logical_def Let_def split: if_splits)
next
  case False
  with assms show ?thesis by (auto simp: fold_comparison_node_def)
qed

lemma fold_node_arithmetic_failure:
  "fold_binary_node l r op = Inl k \<Longrightarrow> k \<in> set arithmetic_errors"
  "fold_unary_node u uop = Inl k \<Longrightarrow> k \<in> set arithmetic_errors"
proof -
  show "fold_binary_node l r op = Inl k \<Longrightarrow> k \<in> set arithmetic_errors"
    by (cases l; cases r; cases op)
      (auto simp: fold_binary_node_def fold_double_binary_def fold_integer_binary_def
        long_add_def long_sub_def long_mul_def long_div_def long_mod_def bindE_eq_Inl
        arithmetic_errors_def dest: long_of_int_failure split: if_splits)
  show "fold_unary_node u uop = Inl k \<Longrightarrow> k \<in> set arithmetic_errors"
    by (cases u) (auto simp: fold_unary_node_def fold_unary_numeric_def fold_unary_boolean_def
        long_mul_def bindE_eq_Inl Let_def arithmetic_errors_def dest: long_of_int_failure split: if_splits)
qed

text \<open>Being typed depends on the static types of the operands only.\<close>

lemma typed_transfer:
  "typed (UnaryOperation u op) \<Longrightarrow> typed u' \<Longrightarrow> valueType u' = valueType u \<Longrightarrow>
     typed (UnaryOperation u' op) \<and> valueType (UnaryOperation u' op) = valueType (UnaryOperation u op)"
  "typed (Comparison l r cop) \<Longrightarrow> typed l' \<Longrightarrow> valueType l' = valueType l \<Longrightarrow>
     typed r' \<Longrightarrow> valueType r' = valueType r \<Longrightarrow> typed (Comparison l' r' cop)"
  by (cases op; simp) (cases cop; simp)

lemma fold_ref_typed:
  "typed e \<Longrightarrow> fold_ref e = Inr e' \<Longrightarrow> typed e' \<and> valueType e' = valueType e"
proof (induction e arbitrary: e')
  case (MethodCall m args)
  from MethodCall.prems(2) obtain as where as: "walk_arguments fold_ref args = Inr as" "e' = MethodCall m as"
    by (auto simp: bindE_eq_Inr)
  have "\<forall>p \<in> set as. \<exists>r. p = Some r \<and> typed r"
    using as(1) by (rule walk_arguments_pred)
      (use MethodCall in \<open>fastforce simp: list_all_iff\<close>)
  then have "\<forall>p \<in> set as. pred_option typed p" by auto
  with as(2) show ?case by (simp add: list_all_iff)
next
  case (BinaryOperation l r op)
  from BinaryOperation.prems(2) obtain l' r' where l: "fold_ref l = Inr l'" and r: "fold_ref r = Inr r'"
    and e': "fold_binary_node l' r' op = Inr e'" by (auto simp: bindE_eq_Inr)
  have "typed l' \<and> valueType l' = valueType l" "typed r' \<and> valueType r' = valueType r"
    using BinaryOperation.IH(1) [OF _ l] BinaryOperation.IH(2) [OF _ r] BinaryOperation.prems(1) by simp_all
  with fold_binary_typed [of l' r' op e'] e' BinaryOperation.prems(1) show ?case by simp
next
  case (UnaryOperation u op)
  from UnaryOperation.prems(2) obtain u' where u: "fold_ref u = Inr u'" and e': "fold_unary_node u' op = Inr e'"
    by (auto simp: bindE_eq_Inr)
  have "typed u' \<and> valueType u' = valueType u"
    using UnaryOperation.IH [OF _ u] UnaryOperation.prems(1) by simp
  with fold_unary_typed [OF _ e'] typed_transfer(1) [OF UnaryOperation.prems(1)] show ?case by metis
next
  case (Comparison l r op)
  from Comparison.prems(2) obtain l' r' where l: "fold_ref l = Inr l'" and r: "fold_ref r = Inr r'"
    and e': "fold_comparison_node l' r' op = Inr e'" by (auto simp: bindE_eq_Inr)
  have "typed l' \<and> valueType l' = valueType l" "typed r' \<and> valueType r' = valueType r"
    using Comparison.IH(1) [OF _ l] Comparison.IH(2) [OF _ r] Comparison.prems(1) by simp_all
  with typed_transfer(2) [OF Comparison.prems(1)] have "typed (Comparison l' r' op)" by blast
  with fold_comparison_typed [of l' r' op] e' show ?case by auto
qed (auto simp: bindE_eq_Inr)

lemma fold_ref_typed_failure:
  "typed e \<Longrightarrow> wf_expr e \<Longrightarrow> fold_ref e = Inl k \<Longrightarrow> k \<in> set arithmetic_errors"
proof (induction e arbitrary: k)
  case (MethodCall m args)
  from MethodCall.prems(3) have "walk_arguments fold_ref args = Inl k" by (auto simp: bindE_eq_Inl)
  then obtain p where p: "p \<in> set args"
    "derefE p (\<lambda>old. bindE (fold_ref old) (\<lambda>new. Inr (Some new))) = Inl k"
    unfolding walk_arguments_def by (blast dest: mapE_eq_Inl)
  with MethodCall.prems(1,2) obtain e where e: "p = Some e" "wf_expr e" "typed e"
    unfolding wf_MethodCall_iff by (cases p rule: option.exhaust) (auto simp: list_all_iff)
  with p have "fold_ref e = Inl k" by (auto simp: bindE_eq_Inl)
  with MethodCall.IH [OF p(1)] e show ?case by simp
next
  case (Comparison l r op)
  show ?case
  proof (cases "\<exists>l' r'. fold_ref l = Inr l' \<and> fold_ref r = Inr r'")
    case True
    then obtain l' r' where l: "fold_ref l = Inr l'" and r: "fold_ref r = Inr r'" by blast
    have "typed l' \<and> valueType l' = valueType l" "typed r' \<and> valueType r' = valueType r"
      using fold_ref_typed [OF _ l] fold_ref_typed [OF _ r] Comparison.prems(1) by simp_all
    with typed_transfer(2) [OF Comparison.prems(1)] have "typed (Comparison l' r' op)" by blast
    with fold_comparison_typed [of l' r' op] l r Comparison.prems(3) show ?thesis by auto
  next
    case False
    with Comparison.prems(3) have "fold_ref l = Inl k \<or> fold_ref r = Inl k"
      by (auto simp: bindE_eq_Inl)
    with Comparison.IH Comparison.prems(1,2) show ?thesis by auto
  qed
qed (auto simp: bindE_eq_Inl dest: fold_node_arithmetic_failure)

text \<open>
  C13: (type soundness of folding) The folding of an expression that the parser accepted either
  returns an expression of the same static type or fails by an arithmetic error; the wrong casts
  of the folding pass are out of reach, because the parser rejects the operands that lead to them.
\<close>

theorem parsed_expressions_fold_at_their_type:
  assumes "build_expr line d = Inr e"
  shows "(\<exists>e'. expr_process FoldConstantExpressionsPass e = Inr e' \<and> typed e' \<and> valueType e' = valueType e) \<or>
    (\<exists>k \<in> set arithmetic_errors. expr_process FoldConstantExpressionsPass e = Inl k)"
proof -
  note good = build_expr_good(1) [OF assms]
  show ?thesis
  proof (cases "fold_ref e")
    case (Inl k)
    with good fold_ref_typed_failure [of e k] show ?thesis by (auto simp: folding_eq)
  next
    case (Inr e')
    with good fold_ref_typed [of e e'] show ?thesis by (auto simp: folding_eq)
  qed
qed

theorem parsed_expressions_fold_witness:
  "(\<exists>e'. expr_process FoldConstantExpressionsPass (BinaryOperation (IntegerLiteral 1) (DoubleLiteral NaN) Addition)
      = Inr e' \<and> typed e' \<and> valueType e' = DoubleType) \<or>
   (\<exists>k \<in> set arithmetic_errors. expr_process FoldConstantExpressionsPass
      (BinaryOperation (IntegerLiteral 1) (DoubleLiteral NaN) Addition) = Inl k)"
  using parsed_expressions_fold_at_their_type
    [of 1 "E_numeric (E_integer 1) T_PLUS (E_paren (E_double NaN))"
      "BinaryOperation (IntegerLiteral 1) (DoubleLiteral NaN) Addition"]
  by simp

end
