(* ===== verification/Statement_Laws.thy ===== *)
theory Statement_Laws
  imports Parser_Laws
begin

text \<open>
  What the actions of statements build: flat trees without empty statement lists, with bodies
  where the later stages dereference them and expressions that pass the assertions, and the chain
  of the elseif blocks of an if block.
\<close>

section \<open>Parsed trees\<close>

abbreviation good_expr :: "expr \<Rightarrow> bool" where
  "good_expr e \<equiv> typed e \<and> wf_expr e"

fun parsed_node :: "ast \<Rightarrow> bool" where
  "parsed_node (Statements xs) = (list_all (\<lambda>x. \<not> is_statements x) xs \<and> 2 \<le> length xs)"
| "parsed_node (RawBlock t) = True"
| "parsed_node (PrintBlock e) = good_expr e"
| "parsed_node (IfBlock c th el) = (good_expr c \<and> th \<noteq> None)"
| "parsed_node (ForBlock k v i b el) =
     (pred_option is_variable k \<and> v \<noteq> None \<and> pred_option is_variable v \<and>
      is_variable i \<and> b \<noteq> None)"
| "parsed_node (IncludeBlock n s m) =
     (pred_option (\<lambda>e. good_expr e \<and> valueType e = VariantType) s \<and>
      list_all good_expr (map snd m) \<and> distinct (map fst m))"

abbreviation parsed :: "ast \<Rightarrow> bool" where
  "parsed \<equiv> all_nodes parsed_node"

abbreviation parsed_list :: "ast list \<Rightarrow> bool" where
  "parsed_list xs \<equiv> xs \<noteq> [] \<and> list_all (\<lambda>x. parsed x \<and> \<not> is_statements x) xs"

lemma from_statements_parsed [simp]: "parsed_list xs \<Longrightarrow> parsed (from_statements_array xs)"
  by (cases xs; cases "tl xs") (auto simp: from_statements_array_def list_all_iff)

lemma add_ast_parsed: "list_all (\<lambda>x. parsed x \<and> \<not> is_statements x) xs \<Longrightarrow> parsed a \<Longrightarrow>
    parsed_list (add_ast_to_statements xs a)"
  by (cases a) (auto simp: add_ast_to_statements_def list_all_iff)

lemma build_raws_parsed: "parsed_list (build_raws r)"
  by (induction r) auto

lemma map_put_values: "list_all P (map snd m) \<Longrightarrow> P v \<Longrightarrow> list_all P (map snd (map_put k v m))"
proof (induction m)
  case (Cons q m)
  then show ?case by (cases q) auto
qed simp

abbreviation parsed_mapping :: "string_expression_map \<Rightarrow> bool" where
  "parsed_mapping m \<equiv> list_all good_expr (map snd m) \<and> distinct (map fst m)"

lemma build_item_parsed: "build_item line m i = Inr m' \<Longrightarrow> parsed_mapping m \<Longrightarrow> parsed_mapping m'"
  by (cases i) (auto simp: add_name_to_stringexprmap_def add_to_stringexprmap_def bindE_eq_Inr
      distinct_map_put intro!: map_put_values dest: build_expr_good(1))

lemma build_mapping_parsed: "build_mapping line d = Inr m \<Longrightarrow> parsed_mapping m"
  by (induction line d arbitrary: m rule: build_mapping.induct)
    (auto simp: bindE_eq_Inr elim!: build_item_parsed [rotated] dest: build_item_parsed)

section \<open>The chain of elseif blocks\<close>

text \<open>The chain a reader of the template sees, and the blocks that are left of it.\<close>

fun chain :: "(expr \<times> ast) list \<Rightarrow> ast option \<Rightarrow> ast option" where
  "chain [] el = el"
| "chain ((c, b) # bs) el = Some (IfBlock c (Some b) (chain bs el))"

definition ends :: "'a list \<Rightarrow> 'a list" where
  "ends bs = (if length bs \<le> 2 then bs else [hd bs, last bs])"

fun elif_blocks :: "nat \<Rightarrow> p_elifs \<Rightarrow> (expr \<times> ast) list res" where
  "elif_blocks line Elif_none = Inr []"
| "elif_blocks line (Elif_more prev_elif c body) =
     bindE (elif_blocks line prev_elif) (\<lambda>bs. bindE (build_expr line c) (\<lambda>cond.
       bindE (build_stmts line body) (\<lambda>b. Inr (bs @ [(cond, from_statements_array b)]))))"

lemma add_elif_chain:
  "add_elif (chain (ends bs) None) c b = Inr (chain (ends (bs @ [(c, b)])) None)"
proof (cases bs)
  case Nil
  then show ?thesis by (simp add: add_elif_def ends_def)
next
  case (Cons p bs')
  then show ?thesis
    by (cases p; cases bs'; cases "last bs") (auto simp: add_elif_def ends_def)
qed

lemma build_elifs_chain:
  "build_elifs line d = bindE (elif_blocks line d) (\<lambda>bs. Inr (chain (ends bs) None))"
proof (induction line d rule: elif_blocks.induct)
  case (1 line)
  then show ?case by (simp add: ends_def)
next
  case (2 line d c body)
  then show ?case by (simp add: bindE_assoc add_elif_chain)
qed

lemma set_last_else_chain:
  "bs \<noteq> [] \<Longrightarrow> set_last_else (the (chain bs None)) el = Inr (the (chain bs el))"
proof (induction bs rule: chain.induct [of "\<lambda>bs el. _ bs"])
  case (2 c b bs el)
  then show ?case by (cases bs rule: list.exhaust) (auto elim: chain.elims)
qed simp

lemma new_if_block_chain:
  "new_if_block c th (chain bs None) = (\<lambda>el. Inr (IfBlock c (Some th) (chain bs el)))"
proof (rule ext)
  fix el
  show "new_if_block c th (chain bs None) el = Inr (IfBlock c (Some th) (chain bs el))"
proof (cases bs)
  case Nil
  then show ?thesis by (simp add: new_if_block_def)
next
  case (Cons p bs')
  obtain x y where "chain bs None = Some x" "chain bs el = Some y" using Cons by (cases p) auto
  with set_last_else_chain [of bs el] Cons show ?thesis by (simp add: new_if_block_def)
qed
qed

text \<open>
  C16: (elseif blocks) The tree of an if block has the chain of its first and its last elseif
  block, followed by the else block: with three or more of them, the ones between are dropped
  with their bodies.  The order of evaluation and the failures are those of the parts.
\<close>

theorem elseif_chain_keeps_the_ends:
  "build_stmt line (S_if c th elifs el) =
     bindE (build_expr line c) (\<lambda>cond. bindE (build_stmts line th) (\<lambda>body.
       bindE (elif_blocks line elifs) (\<lambda>bs. bindE (build_else line el) (\<lambda>e.
         Inr (IfBlock cond (Some (from_statements_array body)) (chain (ends bs) e))))))"
  by (simp add: build_elifs_chain bindE_assoc new_if_block_chain)

section \<open>The invariant of parsed trees\<close>

lemma cast_variable_eq:
  "cast_variable e = Inr e' \<longleftrightarrow> is_variable e \<and> e' = e"
  "cast_variable e = Inl k \<longleftrightarrow> \<not> is_variable e \<and> k = Undefined TypeConfusion"
  by (cases e; auto simp: cast_variable_def)+

fun is_attribute :: "p_var \<Rightarrow> bool" where
  "is_attribute (Var_id s) = False"
| "is_attribute (Var_attribute v a) = True"

lemma is_variable_build_var [simp]: "is_variable (build_var v) \<longleftrightarrow> \<not> is_attribute v"
  by (cases v) auto

text \<open>The derivations with a loop whose key, value or iterable is written with an attribute.\<close>

fun attribute_loop_stmt :: "p_stmt \<Rightarrow> bool"
  and attribute_loop_stmts :: "p_stmts \<Rightarrow> bool"
  and attribute_loop_elifs :: "p_elifs \<Rightarrow> bool"
  and attribute_loop_else :: "p_else \<Rightarrow> bool" where
  "attribute_loop_stmt (S_if c th es el) =
     (attribute_loop_stmts th \<or> attribute_loop_elifs es \<or> attribute_loop_else el)"
| "attribute_loop_stmt (S_for v it body el) =
     (is_attribute v \<or> is_attribute it \<or> attribute_loop_stmts body \<or> attribute_loop_else el)"
| "attribute_loop_stmt (S_for_key k v it body el) =
     (is_attribute k \<or> is_attribute v \<or> is_attribute it \<or> attribute_loop_stmts body \<or>
      attribute_loop_else el)"
| "attribute_loop_stmt _ = False"
| "attribute_loop_stmts (Stmt_first s) = attribute_loop_stmt s"
| "attribute_loop_stmts (Stmt_more ss s) = (attribute_loop_stmts ss \<or> attribute_loop_stmt s)"
| "attribute_loop_elifs Elif_none = False"
| "attribute_loop_elifs (Elif_more es c body) = (attribute_loop_elifs es \<or> attribute_loop_stmts body)"
| "attribute_loop_else Else_none = False"
| "attribute_loop_else (Else_some body) = attribute_loop_stmts body"

fun attribute_loop :: "p_root \<Rightarrow> bool" where
  "attribute_loop Root_empty = False"
| "attribute_loop (Root_statements ss) = attribute_loop_stmts ss"

lemma built_loops_are_plain:
  "build_stmt line s = Inr a \<Longrightarrow> \<not> attribute_loop_stmt s"
  "build_stmts line ss = Inr xs \<Longrightarrow> \<not> attribute_loop_stmts ss"
  "build_elifs line es = Inr e \<Longrightarrow> \<not> attribute_loop_elifs es"
  "build_else line el = Inr b \<Longrightarrow> \<not> attribute_loop_else el"
  by (induction line s and line ss and line es and line el arbitrary: a and xs and e and b
      rule: build_stmt_build_stmts_build_elifs_build_else.induct)
    (fastforce simp: bindE_eq_Inr cast_variable_eq)+

lemma chain_parsed:
  "list_all (\<lambda>(c, b). good_expr c \<and> parsed b) bs \<Longrightarrow> pred_option parsed el \<Longrightarrow>
   pred_option parsed (chain bs el)"
  by (induction bs el rule: chain.induct) auto

lemma ends_all: "list_all P bs \<Longrightarrow> list_all P (ends bs)"
  by (cases bs) (auto simp: ends_def list_all_iff)

abbreviation parsed_blocks :: "(expr \<times> ast) list \<Rightarrow> bool" where
  "parsed_blocks bs \<equiv> list_all (\<lambda>(c, b). good_expr c \<and> parsed b) bs"

lemma build_parsed:
  "build_stmt line s = Inr a \<Longrightarrow> parsed a"
  "build_stmts line ss = Inr xs \<Longrightarrow> parsed_list xs"
  "build_elifs line es = Inr e \<Longrightarrow> \<exists>bs. e = chain (ends bs) None \<and> parsed_blocks bs"
  "build_else line el = Inr b \<Longrightarrow> pred_option parsed b"
proof (induction line s and line ss and line es and line el arbitrary: a and xs and e and b
    rule: build_stmt_build_stmts_build_elifs_build_else.induct)
  case (1 line r)
  with build_raws_parsed [of r] show ?case by auto
next
  case (3 line c th es el)
  from 3(4) obtain cond body elifs e where
    c: "build_expr line c = Inr cond" and th: "build_stmts line th = Inr body"
    and es: "build_elifs line es = Inr elifs" and el: "build_else line el = Inr e"
    and a: "new_if_block cond (from_statements_array body) elifs e = Inr a"
    by (auto simp: bindE_eq_Inr)
  from 3(2) [OF c th es] obtain bs where bs: "elifs = chain (ends bs) None" "parsed_blocks bs" by blast
  have "pred_option parsed (chain (ends bs) e)"
    using chain_parsed [OF ends_all [OF bs(2)]] 3(3) [OF c th es el] by simp
  with a bs(1) build_expr_good(1) [OF c] 3(1) [OF c th] show ?case by (auto simp: new_if_block_chain)
next
  case (8 line n m)
  then show ?case using build_mapping_parsed [of line m] by (auto simp: bindE_eq_Inr)
next
  case (9 line s)
  then show ?case by (auto simp: bindE_eq_Inr intro!: add_ast_parsed)
next
  case (10 line ss s)
  then show ?case by (auto simp: bindE_eq_Inr intro!: add_ast_parsed)
next
  case (11 line)
  then show ?case by (auto intro: exI [of _ "[]"] simp: ends_def)
next
  case (12 line es c body)
  then obtain prev cond b where p: "build_elifs line es = Inr prev" and c: "build_expr line c = Inr cond"
    and b: "build_stmts line body = Inr b" and e: "add_elif prev cond (from_statements_array b) = Inr e"
    by (auto simp: bindE_eq_Inr)
  from 12(1) [OF p] obtain bs where bs: "prev = chain (ends bs) None" "parsed_blocks bs" by blast
  with e have "e = chain (ends (bs @ [(cond, from_statements_array b)])) None"
    by (simp add: add_elif_chain)
  moreover have "parsed_blocks (bs @ [(cond, from_statements_array b)])"
    using bs(2) build_expr_good(1) [OF c] 12(2) [OF p c b] by simp
  ultimately show ?case by blast
qed (auto simp: bindE_eq_Inr cast_variable_eq dest: build_expr_good(1) split: if_splits)

text \<open>The failures: the assertions on operands and the one on the scope of an inclusion.\<close>

definition parse_errors :: "nat \<Rightarrow> failure list" where
  "parse_errors line = Throws (SyntaxError ''map expression expected'' line) # operand_errors line"

lemma build_mapping_failure: "build_mapping line m = Inl k \<Longrightarrow> k \<in> set (operand_errors line)"
proof (induction line m rule: build_mapping.induct)
  case (1 line i)
  then show ?case by (cases i) (auto simp: bindE_eq_Inl dest: build_expr_failure(1))
next
  case (2 line m i)
  then show ?case by (cases i) (auto simp: bindE_eq_Inl dest: build_expr_failure(1))
qed

lemma chain_actions_succeed:
  assumes "build_elifs line es = Inr e"
  shows "\<exists>a. new_if_block c th e el = Inr a" and "\<exists>b. add_elif e c th = Inr b"
proof -
  obtain bs where "e = chain (ends bs) None" using build_parsed(3) [OF assms] by blast
  then show "\<exists>a. new_if_block c th e el = Inr a" and "\<exists>b. add_elif e c th = Inr b"
    by (simp_all add: new_if_block_chain add_elif_chain)
qed

text \<open>The failures of a derivation with or without such a loop.\<close>

abbreviation build_failed :: "nat \<Rightarrow> bool \<Rightarrow> failure \<Rightarrow> bool" where
  "build_failed line attribute k \<equiv> k \<in> set (parse_errors line) \<or> attribute \<and> k = Undefined TypeConfusion"

lemma build_failure:
  "build_stmt line s = Inl k \<Longrightarrow> build_failed line (attribute_loop_stmt s) k"
  "build_stmts line ss = Inl k \<Longrightarrow> build_failed line (attribute_loop_stmts ss) k"
  "build_elifs line es = Inl k \<Longrightarrow> build_failed line (attribute_loop_elifs es) k"
  "build_else line el = Inl k \<Longrightarrow> build_failed line (attribute_loop_else el) k"
proof (induction line s and line ss and line es and line el
    rule: build_stmt_build_stmts_build_elifs_build_else.induct)
  case (3 line c th es el)
  show ?case
  proof (cases "build_elifs line es")
    case (Inr e)
    have "new_if_block cond x e el' \<noteq> Inl k" for cond x el'
      using chain_actions_succeed(1) [OF Inr, of cond x el'] by auto
    with 3 Inr show ?thesis
      by (auto simp: bindE_eq_Inl parse_errors_def dest: build_expr_failure(1) split: if_splits)
  qed (use 3 in \<open>auto simp: bindE_eq_Inl parse_errors_def dest: build_expr_failure(1) split: if_splits\<close>)
next
  case (12 line es c body)
  show ?case
  proof (cases "build_elifs line es")
    case (Inr e)
    have "add_elif e cond x \<noteq> Inl k" for cond x
      using chain_actions_succeed(2) [OF Inr, of cond x] by auto
    with 12 Inr show ?thesis
      by (auto simp: bindE_eq_Inl parse_errors_def dest: build_expr_failure(1) split: if_splits)
  qed (use 12 in \<open>auto split: if_splits\<close>)
qed (auto simp: bindE_eq_Inl cast_variable_eq parse_errors_def
    dest: build_expr_failure(1) build_mapping_failure split: if_splits)

text \<open>
  C15: (what the parser builds) If no loop of the derivation has an attribute expression as its key,
  its value or its iterable, the actions either build a tree, empty or without nested, empty or
  one-element statement lists, with the bodies of its blocks, variable references in its loops,
  operands of the right static type, no null argument and no mapping with two entries for a name; or
  they fail by an assertion on an operand or a scope, at the line of the scanner.  Their casts are
  right then: those of the elseif chains and those of the loops.  If a loop has an attribute
  expression there, no tree is built: an assertion fails, or an action casts the attribute expression
  to a variable reference, which is undefined behaviour.
\<close>

theorem parser_builds_well_formed_trees:
  "if attribute_loop d
   then \<exists>k \<in> {Undefined TypeConfusion} \<union> set (parse_errors line). build_root line d = Inl k
   else (\<exists>a. build_root line d = Inr a \<and> (a = Statements [] \<or> parsed a)) \<or>
     (\<exists>k \<in> set (parse_errors line). build_root line d = Inl k)"
proof (cases d)
  case (Root_statements ss)
  then show ?thesis
    using build_parsed(2) [of line ss] build_failure(2) [of line ss] built_loops_are_plain(2) [of line ss]
    by (cases "build_stmts line ss") auto
qed simp

end
