(* ===== verification/Driver_Laws.thy ===== *)
theory Driver_Laws
  imports Drivers Js_Laws Statement_Laws
begin

text \<open>
  What the programs do with a template: the shape of the optimised tree, which failures leave
  the generation of code, and which exceptions the tree printer does not catch.
\<close>

section \<open>What later passes keep\<close>

text \<open>
  A property of single nodes that holds for lists and raw blocks and does not look at bodies: the
  passes on raw text keep it.
\<close>

definition of_expressions :: "(ast \<Rightarrow> bool) \<Rightarrow> bool" where
  "of_expressions p \<longleftrightarrow> (\<forall>xs. p (Statements xs)) \<and> (\<forall>t. p (RawBlock t)) \<and>
     (\<forall>c th el th' el'. p (IfBlock c th el) \<longrightarrow> p (IfBlock c th' el')) \<and>
     (\<forall>k v i b el b' el'. p (ForBlock k v i b el) \<longrightarrow> p (ForBlock k v i b' el'))"

lemma of_expressions_bodies:
  "of_expressions p \<Longrightarrow> p (IfBlock c th el) \<Longrightarrow> p (IfBlock c th' el')"
  "of_expressions p \<Longrightarrow> p (ForBlock k v i b el) \<Longrightarrow> p (ForBlock k v i b' el')"
  "of_expressions p \<Longrightarrow> p (Statements xs)" "of_expressions p \<Longrightarrow> p (RawBlock t)"
  unfolding of_expressions_def by blast+

lemma convert_keeps:
  assumes "of_expressions p" and "all_nodes p a"
    and "ast_process ConvertLiteralPrintBlockToRawBlockPass a = Inr r"
  shows "all_nodes p r"
proof (rule convert.process_all_nodes [where q = p and p = p])
  show "ast_process (\<lambda>_. convert_node) a = Inr r"
    using assms(3) by (simp add: ConvertLiteralPrintBlockToRawBlockPass_def)
qed (use assms in \<open>auto intro: of_expressions_bodies\<close>)

lemma coalesce_keeps:
  assumes "of_expressions p" and "all_nodes p a" and "ast_process CoalesceRawBlocksPass a = Inr r"
  shows "all_nodes p r"
proof (rule coalesce.process_all_nodes [where q = p and p = p])
  show "ast_process (\<lambda>_. coalesce_node) a = Inr r"
    using assms(3) by (simp add: CoalesceRawBlocksPass_def)
next
  fix xs ys assume "coalesce_node (Statements xs) = Inr (Statements ys)" "\<forall>x \<in> set xs. all_nodes p x"
  then have ys: "ys = coalesce_statements xs" and xs: "\<forall>x \<in> set xs. all_nodes p x" by auto
  show "\<forall>y \<in> set ys. all_nodes p y"
  proof
    fix y assume "y \<in> set ys"
    with ys have "is_raw y \<or> y \<in> set xs" using coalesce_member by blast
    with xs assms(1) show "all_nodes p y" by (cases y) (auto simp: of_expressions_def)
  qed
qed (use assms in \<open>auto intro: of_expressions_bodies\<close>)

lemma convert_flat: "ast_process ConvertLiteralPrintBlockToRawBlockPass a = Inr r \<Longrightarrow> flat r"
  unfolding ConvertLiteralPrintBlockToRawBlockPass_def by (rule convert.process_flat) auto

abbreviation settled_node :: "ast \<Rightarrow> bool" where
  "settled_node x \<equiv> (\<forall>e \<in> set (node_exprs x). expr_process FoldConstantExpressionsPass e = Inr e)"

abbreviation fold_all :: "ast \<Rightarrow> ast res" where
  "fold_all \<equiv> ast_process (ExpressionPassWrapper FoldConstantExpressionsPass)"

lemma fold_all_wrapper: "fold_all = ast_process (\<lambda>_. wrapper_node fold_ref)"
  by (rule ext) (simp add: ExpressionPassWrapper_def folding_eq [abs_def])

lemma walk_mapping_settled:
  "walk_mapping fold_ref m = Inr m' \<Longrightarrow> (k, e) \<in> set m' \<Longrightarrow> fold_ref e = Inr e"
  unfolding walk_mapping_def
proof (induction m arbitrary: m')
  case (Cons q m)
  then show ?case by (cases q) (auto simp: bindE_eq_Inr fold_ref_idem)
qed simp

lemma fold_all_settles:
  assumes "fold_all a = Inr r"
  shows "all_nodes settled_node r"
proof (rule wrapper.process_all_nodes [where q = "\<lambda>_. True" and p = settled_node])
  show "ast_process (\<lambda>_. wrapper_node fold_ref) a = Inr r" using assms by (simp add: fold_all_wrapper)
next
  fix n s m r assume "wrapper_node fold_ref (IncludeBlock n s m) = Inr r"
  then obtain s' m' where r: "r = IncludeBlock n s' m'" "optE fold_ref s = Inr s'"
    "walk_mapping fold_ref m = Inr m'" by (auto simp: bindE_eq_Inr)
  have "fold_ref e = Inr e" if "(k, e) \<in> set m'" for k e
    by (rule walk_mapping_settled [OF r(3) that])
  with r show "all_nodes settled_node r"
    by (cases s) (auto simp: bindE_eq_Inr folding_eq fold_ref_idem)
qed (auto simp: bindE_eq_Inr folding_eq fold_ref_idem all_nodes_True)

lemma fold_all_keeps_include_free: "include_free a \<Longrightarrow> fold_all a = Inr r \<Longrightarrow> include_free r"
  by (simp add: fold_all_wrapper wrapper_include_free)

definition all_enabled :: "options \<Rightarrow> bool" where
  "all_enabled opts \<longleftrightarrow>
     enable_resolve_includes_pass opts \<and> enable_constant_folding_pass opts \<and>
     enable_literal_print_block_to_raw_block_conversion_pass opts \<and> enable_raw_block_coalescing_pass opts"

definition optional :: "bool \<Rightarrow> (ast \<Rightarrow> ast res) \<Rightarrow> ast \<Rightarrow> ast res" where
  "optional enabled f a = (if enabled then f a else Inr a)"

lemma run_passes_eqs: "run_passes [] = Inr" "run_passes (f # fs) = (\<lambda>a. bindE (f a) (run_passes fs))"
  by (rule ext, simp)+

lemma optimizeAST_eq:
  "optimizeAST fuel parse opts base a =
     bindE (optional (enable_resolve_includes_pass opts) (resolve base parse fuel) a) (\<lambda>a.
       bindE (optional (enable_constant_folding_pass opts) fold_all a) (\<lambda>a.
         bindE (optional (enable_literal_print_block_to_raw_block_conversion_pass opts)
                  (ast_process ConvertLiteralPrintBlockToRawBlockPass) a)
           (optional (enable_raw_block_coalescing_pass opts) coalesce_all)))"
  by (simp add: optimizeAST_def new_pass_manager_def addPass_def addExpressionPass_def
      optional_def [abs_def] run_passes_eqs del: run_passes.simps)

lemma optimizeAST_all:
  "all_enabled opts \<Longrightarrow> optimizeAST fuel parse opts base a =
     bindE (resolve base parse fuel a) (\<lambda>a. bindE (fold_all a) (\<lambda>a.
       bindE (ast_process ConvertLiteralPrintBlockToRawBlockPass a) (ast_process CoalesceRawBlocksPass)))"
  by (simp add: optimizeAST_eq all_enabled_def optional_def [abs_def])

text \<open>
  C14: (the optimised tree) With all passes enabled, as they are by default, the tree that both
  programs go on with has no inclusion, no nested or one-element statement list, no two raw blocks
  next to each other, no print block of a literal, and every expression in it is fully folded:
  no pass undoes what an earlier one established.
\<close>

theorem optimised_tree_is_in_normal_form:
  assumes "all_enabled opts" and "optimizeAST fuel parse opts base a = Inr r"
  shows "include_free r \<and> flat r \<and> separated r \<and> all_nodes (\<lambda>x. \<not> prints_literal x) r \<and>
    all_nodes settled_node r"
proof -
  from assms obtain a1 a2 a3 where
    a1: "resolve base parse fuel a = Inr a1" and a2: "fold_all a1 = Inr a2" and
    a3: "ast_process ConvertLiteralPrintBlockToRawBlockPass a2 = Inr a3" and
    r: "ast_process CoalesceRawBlocksPass a3 = Inr r"
    by (auto simp: optimizeAST_all bindE_eq_Inr)
  have keep: "of_expressions p \<Longrightarrow> all_nodes p a2 \<Longrightarrow> all_nodes p r" for p
    using convert_keeps [OF _ _ a3] coalesce_keeps [OF _ _ r] by blast
  have "include_free r"
    by (rule keep) (use resolve_include_free [OF a1] fold_all_keeps_include_free [OF _ a2]
        in \<open>auto simp: of_expressions_def\<close>)
  moreover have "all_nodes settled_node r"
    by (rule keep) (use fold_all_settles [OF a2] in \<open>auto simp: of_expressions_def\<close>)
  moreover have "all_nodes (\<lambda>x. \<not> prints_literal x) r"
    by (rule coalesce_keeps [OF _ converted_prints_no_literal [OF a3] r]) (simp add: of_expressions_def)
  moreover have "flat r \<and> separated r"
    using coalesce_flat [OF convert_flat [OF a3]] r by (auto simp: coalesced_def)
  ultimately show ?thesis by blast
qed

theorem optimised_tree_witness:
  "include_free (RawBlock ''ab'') \<and> flat (RawBlock ''ab'') \<and> separated (RawBlock ''ab'') \<and>
   all_nodes (\<lambda>x. \<not> prints_literal x) (RawBlock ''ab'') \<and> all_nodes settled_node (RawBlock ''ab'')"
  by (rule optimised_tree_is_in_normal_form [where opts = initial_options and fuel = 3 and base = "''d''" and
        parse = "\<lambda>_. Inr (PrintBlock (StringLiteral ''b''))" and
        a = "Statements [RawBlock ''a'', IncludeBlock ''x'' None []]"])
    (simp_all add: all_enabled_def initial_options_def optimizeAST_all eval_nat_numeral resolve_Suc
      process_include_eq rewrite_ast_def wrapper_walk fold_singleton_def fold_all_wrapper
      ConvertLiteralPrintBlockToRawBlockPass_def convert.process_simps coalesce_walk gather_raw_def)

section \<open>Exceptions of the JavaScript backend\<close>

definition throws :: "'a res \<Rightarrow> bool" where
  "throws r \<longleftrightarrow> (\<exists>x. r = Inl (Throws x))"

lemma throws_simps [simp]:
  "\<not> throws (Inr x)" "throws (Inl (Throws e))" "\<not> throws (Inl (Undefined u))" "\<not> throws (Inl Diverges)"
  "throws (bindE m k) \<longleftrightarrow> throws m \<or> (\<exists>x. m = Inr x \<and> throws (k x))"
  by (auto simp: throws_def bindE_eq_Inl)

lemma throws_derefE [simp]: "throws (derefE p f) \<longleftrightarrow> (\<exists>x. p = Some x \<and> throws (f x))"
  by (cases p) auto

lemma throws_steps: "throws (steps fs st) \<Longrightarrow> \<exists>f \<in> set fs. \<exists>st. throws (f st)"
  by (induction fs arbitrary: st) fastforce+

lemma js_escape_never_throws [simp]: "\<not> throws (js_escape s)"
  by (cases "squote \<in> set s") (simp_all add: js_escape_quoted js_escape_unquoted)

lemma emitters_never_throw [simp]:
  "\<not> throws (js_emit s st)" "\<not> throws (js_indent st)" "\<not> throws (js_outdent st)"
  "\<not> throws (start_line st)" "\<not> throws (end_line st)" "\<not> throws (blankline st)"
  "\<not> throws (emit_js_escaped s st)" "\<not> throws (line s st)"
  by (simp_all add: js_emit_def js_indent_def js_outdent_def start_line_def end_line_def blankline_def
      emit_js_escaped_def line_def)

lemma js_expression_never_throws [simp]:
  "\<not> throws (js_expression e st)" "\<not> throws (js_arguments b as st)"
  by (induction e st and b as st rule: js_expression_js_arguments.induct)
    (auto split: option.split)

lemma loop_variable_name_never_throws [simp]: "\<not> throws (loop_variable_name k)"
  by (cases k) (auto simp: variable_name_of_def split: expr.split)

lemma for_parts_never_throw [simp]:
  "\<not> throws (for_header n e v i st)" "\<not> throws (for_footer n e st)"
  by (simp_all add: for_header_def for_footer_def)

lemma js_if_never_throws:
  assumes "\<And>x b st. th = Some x \<Longrightarrow> \<not> throws (js_ast b x st)"
    and "\<And>x b st. el = Some x \<Longrightarrow> \<not> throws (js_ast b x st)"
  shows "\<not> throws (js_ast b (IfBlock c th el) st)"
proof -
  have rest: "\<not> throws (case el of None \<Rightarrow> steps [line ''}'', blankline] st
      | Some e \<Rightarrow> (case e of IfBlock _ _ _ \<Rightarrow> js_ast True e st
          | _ \<Rightarrow> bindE (steps [line ''} else {'', js_indent] st) (\<lambda>st.
                   bindE (js_ast False e st) (steps [js_outdent, line ''}'', blankline]))))" for st
    using assms(2) by (cases el) (auto split: ast.split simp del: js_ast.simps)
  show ?thesis
    by (subst js_ast.simps) (simp add: assms(1) rest del: js_ast.simps)
qed

lemma js_for_never_throws:
  assumes "\<And>x b st. bd = Some x \<Longrightarrow> \<not> throws (js_ast b x st)"
    and "\<And>x b st. el = Some x \<Longrightarrow> \<not> throws (js_ast b x st)"
  shows "\<not> throws (js_ast b (ForBlock k v i bd el) st)"
  using assms(2)
  by (subst js_ast.simps) (auto simp: Let_def assms(1) simp del: js_ast.simps split: option.split)

lemma js_statements_never_throw:
  "(\<And>x st. x \<in> set xs \<Longrightarrow> \<not> throws (js_ast False x st)) \<Longrightarrow> \<not> throws (js_statements xs st)"
  by (induction xs arbitrary: st) auto

lemma js_ast_never_throws: "include_free a \<Longrightarrow> \<not> throws (js_ast b a st)"
proof (induction a arbitrary: b st)
  case (Statements xs)
  then show ?case by (auto simp: list_all_iff intro!: js_statements_never_throw)
next
  case (IfBlock c th el)
  then show ?case by (intro js_if_never_throws) auto
next
  case (ForBlock k v i bd el)
  then show ?case by (intro js_for_never_throws) auto
qed auto

text \<open>
  C21: (the backend after the passes) The exception that the JavaScript backend has for inclusions
  cannot come out of the compiler: for a tree that the enabled passes produced, generating code
  throws nothing.  It still need not return: see \<open>js_escape_ends_iff_no_quote\<close>.
\<close>

theorem compiler_never_meets_an_inclusion:
  assumes "enable_resolve_includes_pass opts" and "optimizeAST fuel parse opts base a = Inr r"
  shows "js_visit r st \<noteq> Inl (Throws x)"
proof -
  from assms obtain a1 a2 a3 where a1: "resolve base parse fuel a = Inr a1"
    and a2: "optional (enable_constant_folding_pass opts) fold_all a1 = Inr a2"
    and a3: "optional (enable_literal_print_block_to_raw_block_conversion_pass opts)
               (ast_process ConvertLiteralPrintBlockToRawBlockPass) a2 = Inr a3"
    and r: "optional (enable_raw_block_coalescing_pass opts) coalesce_all a3 = Inr r"
    by (auto simp: optimizeAST_eq bindE_eq_Inr optional_def)
  have local: "of_expressions (\<lambda>a. \<not> is_include a)" by (simp add: of_expressions_def)
  have "include_free a2"
    using a2 resolve_include_free [OF a1] fold_all_keeps_include_free [of a1 a2]
    by (auto simp: optional_def split: if_splits)
  then have "include_free a3"
    using a3 convert_keeps [OF local] by (auto simp: optional_def split: if_splits)
  then have "include_free r"
    using r coalesce_keeps [OF local] by (auto simp: optional_def split: if_splits)
  then have "\<not> throws (js_visit r st)"
    by (simp add: js_visit_def js_ast_never_throws printHeader_def printFooter_def)
  then show ?thesis by (auto simp: throws_def)
qed

theorem compiler_never_meets_an_inclusion_witness:
  "js_visit (RawBlock ''ab'') new_javascript_visitor \<noteq> Inl (Throws (RuntimeError ''Unsupported''))"
  by (rule compiler_never_meets_an_inclusion [where opts = initial_options and fuel = 3 and base = "''d''" and
        parse = "\<lambda>_. Inr (PrintBlock (StringLiteral ''b''))" and
        a = "Statements [RawBlock ''a'', IncludeBlock ''x'' None []]"])
    (simp_all add: all_enabled_def initial_options_def optimizeAST_all eval_nat_numeral resolve_Suc
      process_include_eq rewrite_ast_def wrapper_walk fold_singleton_def fold_all_wrapper
      ConvertLiteralPrintBlockToRawBlockPass_def convert.process_simps coalesce_walk gather_raw_def)

section \<open>Uncaught exceptions\<close>

lemma fold_ref_throws: "fold_ref e = Inl (Throws x) \<Longrightarrow> runtime_error_text x \<noteq> None"
proof (induction e)
  case (MethodCall m args)
  then have "walk_arguments fold_ref args = Inl (Throws x)" by (auto simp: bindE_eq_Inl)
  from walk_arguments_failure [OF this] MethodCall.IH show ?case by fastforce
qed (auto simp: bindE_eq_Inl fold_errors_def dest!: fold_node_failure)

lemma raw_passes_never_throw:
  "ast_process ConvertLiteralPrintBlockToRawBlockPass a \<noteq> Inl (Throws x)"
  "coalesce_all a \<noteq> Inl (Throws x)"
proof -
  have "convert_node b \<noteq> Inl k" "coalesce_node b \<noteq> Inl k" for b k
    by (cases b; simp)+
  then show "ast_process ConvertLiteralPrintBlockToRawBlockPass a \<noteq> Inl (Throws x)"
    and "coalesce_all a \<noteq> Inl (Throws x)"
    using convert.process_failure [of "\<lambda>k. k \<noteq> Throws x"] coalesce.process_failure [of "\<lambda>k. k \<noteq> Throws x"]
    unfolding ConvertLiteralPrintBlockToRawBlockPass_def CoalesceRawBlocksPass_def by blast+
qed

lemma optimizeAST_throws:
  assumes "optimizeAST fuel parse opts base a = Inl (Throws x)"
  shows "runtime_error_text x \<noteq> None \<or> (\<exists>f. parse f = Inl (Throws x))"
proof -
  have "resolve base parse fuel a = Inl (Throws x) \<Longrightarrow> \<exists>f. parse f = Inl (Throws x)"
    by (rule resolve_throws [of parse "\<lambda>x. \<exists>f. parse f = Inl (Throws x)"]) auto
  moreover have "fold_all b = Inl (Throws x) \<Longrightarrow> runtime_error_text x \<noteq> None" for b
    using wrapper_failure [of fold_ref b "Throws x"] fold_ref_throws [of _ x]
    by (auto simp: fold_all_wrapper)
  ultimately show ?thesis
    using assms raw_passes_never_throw
    by (auto simp: optimizeAST_eq bindE_eq_Inl optional_def split: if_splits)
qed

text \<open>
  C20: (uncaught exceptions) The tree printer ends with a message for every exception of its
  passes.  The exceptions that it does not catch are those the parser throws: a template that
  cannot be opened, and a syntax error in an included file.
\<close>

theorem tree_printer_misses_parser_exceptions_only:
  assumes "ast_print_main dirname parse fuel binary arguments argv = Fails (Throws x)"
  shows "\<exists>f. parse f = Inl (Throws x)"
proof -
  have early: "ast_print_parse_options binary as opts \<noteq> Inl (Fails f)" for as opts f
    by (induction binary as opts rule: ast_print_parse_options.induct)
      (auto split: prod.split option.split)
  have parsed: "parseAST parse path = Inl (Throws x) \<Longrightarrow> parse path = Inl (Throws x)" for path
    by (auto simp: parseAST_def split: sum.splits failure.splits exn.splits)
  have printed: "printAST a \<noteq> Fails (Throws x)" for a
    using dump_failure(1) [of a] by (auto simp: printAST_def pv_visit_dump bindE_eq_Inl split: sum.splits)
  from assms early obtain opts template where opts: "ast_print_parse_options binary arguments initial_options = Inr opts"
    and argv: "argv = [template]"
    by (auto simp: ast_print_main_def split: sum.splits list.splits)
  obtain base path where paths: "template_paths dirname opts template = (base, path)" by fastforce
  show ?thesis
  proof (cases "parseAST parse path")
    case (Inl f)
    with assms opts argv paths have "f = Throws x" by (simp add: ast_print_main_def)
    with Inl parsed show ?thesis by blast
  next
    case (Inr p)
    with assms opts argv paths obtain a where p: "p = Inr a"
      by (cases p) (auto simp: ast_print_main_def)
    show ?thesis
    proof (cases "optimizeAST fuel parse opts base a")
      case (Inl f)
      with assms opts argv paths Inr p have "f = Throws x" "runtime_error_text x = None"
        by (auto simp: ast_print_main_def split: failure.splits option.splits)
      with Inl optimizeAST_throws [of fuel parse opts base a x] show ?thesis by auto
    next
      case (Inr r)
      with assms opts argv paths \<open>parseAST parse path = Inr p\<close> p printed show ?thesis
        by (auto simp: ast_print_main_def)
    qed
  qed
qed

theorem tree_printer_witness:
  "\<exists>f. parse_file (\<lambda>_. Inl ''No such file'') (\<lambda>_ :: unit. (Inr Root_empty, 1)) f =
     Inl (Throws (RuntimeError (''Couldn'' @ [squote] @ ''t open '' @ [squote] @ ''t'' @ [squote] @ '': No such file'')))"
  by (rule tree_printer_misses_parser_exceptions_only
      [where dirname = "\<lambda>_. (''.'', ''t'')" and fuel = 1 and binary = "''ast_print''" and arguments = "[]"
        and argv = "[''t'']"])
    (simp add: ast_print_main_def initial_options_def template_paths_def parseAST_def parse_file_def FileGuard_def)

end
