(* ===== verification/Llvm_Builder.thy ===== *)
theory Llvm_Builder
  imports Templates
begin

text \<open>
  What the LLVM backend does with the LLVM library: the values, the instructions and the basic
  blocks that the \<open>IRBuilder\<close> was asked for by \<open>lib/backends/llvm/llvm_visitor.cpp\<close> and by the
  bindings.

  The LLVM library is not part of the program.  The state holds the instructions that the builder
  was asked for, each with the basic block it was inserted in, and the layout of the blocks of the
  function.  A value is the request that made it, a constant, a global string or an argument of
  the function, with its type; the types are those that the documentation of LLVM gives to the
  results of the requests.  The folding of constants by the builder, which replaces a request by a
  constant of the same type, is not modelled.  A request whose operands do not have the types that
  LLVM demands is undefined: LLVM fails an assertion or builds an invalid function.
\<close>

section \<open>Values and requests\<close>

datatype ltype = IntTy nat | DoubleTy | PointerTy ltype | StructTy string | VoidTy

datatype lvalue =
    Request nat ltype
  | Constant_int nat int
  | Constant_double double
  | Global_string string
  | Function_argument nat ltype
  | Null_pointer ltype

fun getType :: "lvalue \<Rightarrow> ltype" where
  "getType (Request _ t) = t"
| "getType (Constant_int w _) = IntTy w"
| "getType (Constant_double _) = DoubleTy"
| "getType (Global_string _) = PointerTy (IntTy 8)"
| "getType (Function_argument _ t) = t"
| "getType (Null_pointer t) = t"

datatype instr =
    Call string "lvalue list"
  | Arith string lvalue lvalue
  | Cast string lvalue
  | Alloca ltype nat
  | Load lvalue
  | Store lvalue lvalue
  | InBoundsGEP lvalue nat
  | CondBr lvalue nat nat
  | Br nat
  | RetVoid

fun is_terminator :: "instr \<Rightarrow> bool" where
  "is_terminator (CondBr _ _ _) = True"
| "is_terminator (Br _) = True"
| "is_terminator RetVoid = True"
| "is_terminator _ = False"

fun targets :: "instr \<Rightarrow> nat list" where
  "targets (CondBr _ a b) = [a, b]"
| "targets (Br a) = [a]"
| "targets _ = []"

text \<open>
  The function under construction, the insertion point of the builder, the visitor's table of
  loop variables, and the state of the bindings.  Blocks are numbered from 0; \<open>layout\<close> lists
  those that are in the function.
\<close>

record 'b llvm_state =
  next_value :: nat
  next_block :: nat
  layout :: "nat list"
  insert_point :: nat
  code :: "(nat \<times> instr) list"
  m_overriden_variables :: "string \<Rightarrow> lvalue option"
  bindings_state :: 'b

type_synonym ('a, 'b) gen = "'b llvm_state \<Rightarrow> ('a \<times> 'b llvm_state) res"

definition emit_instr :: "instr \<Rightarrow> 'b llvm_state \<Rightarrow> 'b llvm_state" where
  "emit_instr i st = st\<lparr>code := code st @ [(insert_point st, i)]\<rparr>"

text \<open>A request with a result of type \<open>t\<close>.\<close>

definition request :: "ltype \<Rightarrow> instr \<Rightarrow> (lvalue, 'b) gen" where
  "request t i st = Inr (Request (next_value st) t, (emit_instr i st)\<lparr>next_value := Suc (next_value st)\<rparr>)"

definition new_block :: "'b llvm_state \<Rightarrow> nat \<times> 'b llvm_state" where
  "new_block st = (next_block st, st\<lparr>next_block := Suc (next_block st)\<rparr>)"

definition push_block :: "nat \<Rightarrow> 'b llvm_state \<Rightarrow> 'b llvm_state" where
  "push_block b st = st\<lparr>layout := layout st @ [b]\<rparr>"

text \<open>\<open>BasicBlock::Create\<close> with the function as its parent.\<close>

definition new_block_in_function :: "'b llvm_state \<Rightarrow> nat \<times> 'b llvm_state" where
  "new_block_in_function st = (let (b, st) = new_block st in (b, push_block b st))"

definition SetInsertPoint :: "nat \<Rightarrow> 'b llvm_state \<Rightarrow> 'b llvm_state" where
  "SetInsertPoint b st = st\<lparr>insert_point := b\<rparr>"

definition CreateCondBr :: "lvalue \<Rightarrow> nat \<Rightarrow> nat \<Rightarrow> 'b llvm_state \<Rightarrow> 'b llvm_state" where
  "CreateCondBr c a b = emit_instr (CondBr c a b)"

definition CreateBr :: "nat \<Rightarrow> 'b llvm_state \<Rightarrow> 'b llvm_state" where
  "CreateBr b = emit_instr (Br b)"

definition CreateRetVoid :: "'b llvm_state \<Rightarrow> 'b llvm_state" where
  "CreateRetVoid = emit_instr RetVoid"

fun is_int :: "ltype \<Rightarrow> bool" where
  "is_int (IntTy _) = True"
| "is_int _ = False"

fun is_pointer :: "ltype \<Rightarrow> bool" where
  "is_pointer (PointerTy _) = True"
| "is_pointer _ = False"

text \<open>Integer operations, integer comparisons, operations and comparisons on doubles.\<close>

definition int_operation :: "string \<Rightarrow> lvalue \<Rightarrow> lvalue \<Rightarrow> (lvalue, 'b) gen" where
  "int_operation name l r st =
     (if is_int (getType l) \<and> getType l = getType r then request (getType l) (Arith name l r) st
      else Inl (Undefined TypeConfusion))"

definition int_comparison :: "string \<Rightarrow> lvalue \<Rightarrow> lvalue \<Rightarrow> (lvalue, 'b) gen" where
  "int_comparison name l r st =
     (if is_int (getType l) \<and> getType l = getType r then request (IntTy 1) (Arith name l r) st
      else Inl (Undefined TypeConfusion))"

definition double_operation :: "string \<Rightarrow> lvalue \<Rightarrow> lvalue \<Rightarrow> (lvalue, 'b) gen" where
  "double_operation name l r st =
     (if getType l = DoubleTy \<and> getType r = DoubleTy then request DoubleTy (Arith name l r) st
      else Inl (Undefined TypeConfusion))"

definition double_comparison :: "string \<Rightarrow> lvalue \<Rightarrow> lvalue \<Rightarrow> (lvalue, 'b) gen" where
  "double_comparison name l r st =
     (if getType l = DoubleTy \<and> getType r = DoubleTy then request (IntTy 1) (Arith name l r) st
      else Inl (Undefined TypeConfusion))"

definition int_unary :: "string \<Rightarrow> lvalue \<Rightarrow> (lvalue, 'b) gen" where
  "int_unary name v st =
     (if is_int (getType v) then request (getType v) (Cast name v) st else Inl (Undefined TypeConfusion))"

definition pointer_comparison :: "string \<Rightarrow> lvalue \<Rightarrow> lvalue \<Rightarrow> (lvalue, 'b) gen" where
  "pointer_comparison name l r st =
     (if is_pointer (getType l) \<and> getType l = getType r then request (IntTy 1) (Arith name l r) st
      else Inl (Undefined TypeConfusion))"

text \<open>Memory: a slot for \<open>n\<close> values of a type, reading and writing through a pointer.\<close>

definition CreateAlloca :: "ltype \<Rightarrow> nat \<Rightarrow> (lvalue, 'b) gen" where
  "CreateAlloca t n = request (PointerTy t) (Alloca t n)"

definition CreateLoad :: "lvalue \<Rightarrow> (lvalue, 'b) gen" where
  "CreateLoad p st =
     (case getType p of PointerTy t \<Rightarrow> request t (Load p) st | _ \<Rightarrow> Inl (Undefined TypeConfusion))"

definition CreateStore :: "lvalue \<Rightarrow> lvalue \<Rightarrow> 'b llvm_state \<Rightarrow> 'b llvm_state res" where
  "CreateStore v p st =
     (if getType p = PointerTy (getType v) then Inr (emit_instr (Store v p) st)
      else Inl (Undefined TypeConfusion))"

definition CreateInBoundsGEP :: "lvalue \<Rightarrow> nat \<Rightarrow> (lvalue, 'b) gen" where
  "CreateInBoundsGEP p i st =
     (if is_pointer (getType p) then request (getType p) (InBoundsGEP p i) st
      else Inl (Undefined TypeConfusion))"

definition CreateTrunc :: "lvalue \<Rightarrow> nat \<Rightarrow> (lvalue, 'b) gen" where
  "CreateTrunc v w st =
     (if is_int (getType v) then request (IntTy w) (Cast ''Trunc'' v) st else Inl (Undefined TypeConfusion))"

text \<open>A call of a function with the given parameter and result types.\<close>

definition CreateCall :: "string \<times> ltype list \<times> ltype \<Rightarrow> lvalue list \<Rightarrow> (lvalue, 'b) gen" where
  "CreateCall f as st =
     (case f of (name, params, result) \<Rightarrow>
        if map getType as = params then request result (Call name as) st
        else Inl (Undefined TypeConfusion))"

text \<open>The conversion of an operand to double, if it is not one.\<close>

definition to_double :: "lvalue \<Rightarrow> (lvalue, 'b) gen" where
  "to_double v st =
     (if getType v = DoubleTy then Inr (v, st)
      else if is_int (getType v) then request DoubleTy (Cast ''SIToFP'' v) st
      else Inl (Undefined TypeConfusion))"

end
