(* ===== verification/Llvm_Visitor.thy ===== *)
theory Llvm_Visitor
  imports Llvm_Builder
begin

text \<open>
  The LLVM backend's visitor: \<open>lib/backends/llvm/llvm_visitor.cpp\<close>, over the interface
  \<open>LLVMBindings\<close> of \<open>llvm_bindings.h\<close>, a record of operations.
\<close>

section \<open>The interface of the bindings\<close>

record 'b llvm_bindings =
  isVariantType :: "ltype \<Rightarrow> bool"
  functionSetup :: "'b llvm_state \<Rightarrow> 'b llvm_state res"
  functionTeardown :: "'b llvm_state \<Rightarrow> 'b llvm_state res"
  variableGoesOutOfScope :: "lvalue \<Rightarrow> 'b llvm_state \<Rightarrow> 'b llvm_state res"
  getNewReferenceForVariable :: "lvalue \<Rightarrow> (lvalue, 'b) gen"
  createPrintCall :: "lvalue \<Rightarrow> (lvalue, 'b) gen"
  createForLoopInit :: "lvalue \<Rightarrow> (lvalue, 'b) gen"
  createForLoopCleanup :: "lvalue \<Rightarrow> 'b llvm_state \<Rightarrow> 'b llvm_state res"
  createForLoopNextIteration :: "lvalue \<Rightarrow> (lvalue, 'b) gen"
  createForLoopGetVariables :: "lvalue \<Rightarrow> bool \<Rightarrow> bool \<Rightarrow> (lvalue option \<times> lvalue option, 'b) gen"
  createVariantComparison :: "comparison_op \<Rightarrow> lvalue \<Rightarrow> lvalue \<Rightarrow> (lvalue, 'b) gen"
  createVariantBinaryOperation :: "binary_op \<Rightarrow> lvalue \<Rightarrow> lvalue \<Rightarrow> (lvalue, 'b) gen"
  createVariantUnaryOperation :: "unary_op \<Rightarrow> lvalue \<Rightarrow> (lvalue, 'b) gen"
  createVariableLookup :: "string \<Rightarrow> (lvalue, 'b) gen"
  createMethodCall :: "string \<Rightarrow> lvalue list \<Rightarrow> (lvalue, 'b) gen"
  createGetAttribute :: "string \<Rightarrow> lvalue \<Rightarrow> (lvalue, 'b) gen"

text \<open>The operations that the interface defines itself.\<close>

definition default_functionSetup :: "'b llvm_state \<Rightarrow> 'b llvm_state res" where
  "default_functionSetup st =
     (let (block, st) = new_block_in_function st in Inr (SetInsertPoint block st))"

definition default_functionTeardown :: "'b llvm_state \<Rightarrow> 'b llvm_state res" where
  "default_functionTeardown st = Inr (CreateRetVoid st)"

definition default_variableGoesOutOfScope :: "lvalue \<Rightarrow> 'b llvm_state \<Rightarrow> 'b llvm_state res" where
  "default_variableGoesOutOfScope v st = Inr st"

definition default_getNewReferenceForVariable :: "lvalue \<Rightarrow> (lvalue, 'b) gen" where
  "default_getNewReferenceForVariable v st = Inr (v, st)"

section \<open>Expressions\<close>

fun int_binary_name :: "binary_op \<Rightarrow> string" where
  "int_binary_name Addition = ''Add''"
| "int_binary_name Subtraction = ''Sub''"
| "int_binary_name Multiplication = ''Mul''"
| "int_binary_name Division = ''ExactSDiv''"
| "int_binary_name Modulus = ''SRem''"

fun double_binary_name :: "binary_op \<Rightarrow> string" where
  "double_binary_name Addition = ''FAdd''"
| "double_binary_name Subtraction = ''FSub''"
| "double_binary_name Multiplication = ''FMul''"
| "double_binary_name Division = ''FDiv''"
| "double_binary_name Modulus = ''FRem''"

fun int_comparison_request :: "comparison_op \<Rightarrow> lvalue \<Rightarrow> lvalue \<Rightarrow> (lvalue, 'b) gen" where
  "int_comparison_request Equal = int_comparison ''ICmpEQ''"
| "int_comparison_request NotEqual = int_comparison ''ICmpNE''"
| "int_comparison_request LessOrEqual = int_comparison ''ICmpSLE''"
| "int_comparison_request GreaterOrEqual = int_comparison ''ICmpSGE''"
| "int_comparison_request GreaterThan = int_comparison ''ICmpSGT''"
| "int_comparison_request LessThan = int_comparison ''ICmpSLT''"
| "int_comparison_request And = int_operation ''And''"
| "int_comparison_request Or = int_operation ''Or''"

fun double_comparison_request :: "comparison_op \<Rightarrow> lvalue \<Rightarrow> lvalue \<Rightarrow> (lvalue, 'b) gen" where
  "double_comparison_request Equal = double_comparison ''FCmpOEQ''"
| "double_comparison_request NotEqual = double_comparison ''FCmpONE''"
| "double_comparison_request LessOrEqual = double_comparison ''FCmpOLE''"
| "double_comparison_request GreaterOrEqual = double_comparison ''FCmpOGE''"
| "double_comparison_request GreaterThan = double_comparison ''FCmpOGT''"
| "double_comparison_request LessThan = double_comparison ''FCmpOLT''"
| "double_comparison_request And = int_operation ''And''"
| "double_comparison_request Or = int_operation ''Or''"

definition llvm_binary_operation ::
    "'b llvm_bindings \<Rightarrow> binary_op \<Rightarrow> lvalue \<Rightarrow> lvalue \<Rightarrow> (lvalue, 'b) gen" where
  "llvm_binary_operation B op left right st =
     (if isVariantType B (getType left) \<or> isVariantType B (getType right)
      then createVariantBinaryOperation B op left right st
      else if is_int (getType left) \<and> is_int (getType right)
      then int_operation (int_binary_name op) left right st
      else bindE (to_double left st) (\<lambda>(left, st). bindE (to_double right st) (\<lambda>(right, st).
             double_operation (double_binary_name op) left right st)))"

definition llvm_unary_operation ::
    "'b llvm_bindings \<Rightarrow> unary_op \<Rightarrow> lvalue \<Rightarrow> (lvalue, 'b) gen" where
  "llvm_unary_operation B op subexpr st =
     (if isVariantType B (getType subexpr) then createVariantUnaryOperation B op subexpr st
      else case op of
             NumericPositive \<Rightarrow> Inr (subexpr, st)
           | NumericNegative \<Rightarrow> int_unary ''Neg'' subexpr st
           | BooleanNegation \<Rightarrow> int_unary ''Not'' subexpr st)"

definition llvm_comparison ::
    "'b llvm_bindings \<Rightarrow> comparison_op \<Rightarrow> lvalue \<Rightarrow> lvalue \<Rightarrow> (lvalue, 'b) gen" where
  "llvm_comparison B op left right st =
     (if isVariantType B (getType left) \<or> isVariantType B (getType right)
      then createVariantComparison B op left right st
      else if is_int (getType left) \<and> is_int (getType right)
      then int_comparison_request op left right st
      else bindE (to_double left st) (\<lambda>(left, st). bindE (to_double right st) (\<lambda>(right, st).
             double_comparison_request op left right st)))"

fun llvm_expression :: "'b llvm_bindings \<Rightarrow> expr \<Rightarrow> (lvalue, 'b) gen"
  and llvm_arguments :: "'b llvm_bindings \<Rightarrow> expr option list \<Rightarrow> (lvalue list, 'b) gen" where
  "llvm_expression B (VariableReference variableName) st =
     (case m_overriden_variables st variableName of
        Some overridenVariable \<Rightarrow> getNewReferenceForVariable B overridenVariable st
      | None \<Rightarrow> createVariableLookup B variableName st)"
| "llvm_expression B (GetAttribute variable attributeName) st =
     bindE (llvm_expression B variable st) (\<lambda>(v, st). createGetAttribute B attributeName v st)"
| "llvm_expression B (MethodCall methodName arguments) st =
     bindE (llvm_arguments B arguments st) (\<lambda>(as, st). createMethodCall B methodName as st)"
| "llvm_expression B (DoubleLiteral v) st = Inr (Constant_double v, st)"
| "llvm_expression B (IntegerLiteral v) st = Inr (Constant_int 64 (sint v), st)"
| "llvm_expression B (BooleanLiteral v) st = Inr (Constant_int 1 (if v then 1 else 0), st)"
| "llvm_expression B (StringLiteral v) st = Inr (Global_string v, st)"
| "llvm_expression B (BinaryOperation l r op) st =
     bindE (llvm_expression B l st) (\<lambda>(left, st). bindE (llvm_expression B r st) (\<lambda>(right, st).
       llvm_binary_operation B op left right st))"
| "llvm_expression B (UnaryOperation e op) st =
     bindE (llvm_expression B e st) (\<lambda>(subexpr, st). llvm_unary_operation B op subexpr st)"
| "llvm_expression B (Comparison l r op) st =
     bindE (llvm_expression B l st) (\<lambda>(left, st). bindE (llvm_expression B r st) (\<lambda>(right, st).
       llvm_comparison B op left right st))"
| "llvm_arguments B [] st = Inr ([], st)"
| "llvm_arguments B (p # ps) st =
     bindE (derefE p (\<lambda>e. llvm_expression B e st)) (\<lambda>(v, st).
       bindE (llvm_arguments B ps st) (\<lambda>(vs, st). Inr (v # vs, st)))"

section \<open>Statements\<close>

definition override :: "string \<Rightarrow> lvalue option \<Rightarrow> 'b llvm_state \<Rightarrow> 'b llvm_state" where
  "override name v st = st\<lparr>m_overriden_variables := (m_overriden_variables st)(name := v)\<rparr>"

text \<open>Setting and restoring a loop variable: only where the loop has one.\<close>

definition set_loop_variable :: "bool \<Rightarrow> string \<Rightarrow> lvalue option \<Rightarrow> 'b llvm_state \<Rightarrow> 'b llvm_state" where
  "set_loop_variable has_variable name v st =
     (if has_variable \<and> v \<noteq> None then override name v st else st)"

definition restore_loop_variable :: "bool \<Rightarrow> string \<Rightarrow> lvalue option \<Rightarrow> 'b llvm_state \<Rightarrow> 'b llvm_state" where
  "restore_loop_variable has_variable name old st = (if has_variable then override name old st else st)"

definition release_loop_variable ::
    "'b llvm_bindings \<Rightarrow> bool \<Rightarrow> lvalue option \<Rightarrow> 'b llvm_state \<Rightarrow> 'b llvm_state res" where
  "release_loop_variable B has_variable v st =
     (if has_variable then derefE v (\<lambda>v. variableGoesOutOfScope B v st) else Inr st)"

fun llvm_variable_name :: "expr option \<Rightarrow> string res" where
  "llvm_variable_name None = Inr []"
| "llvm_variable_name (Some e) = variable_name_of e"

fun llvm_ast :: "'b llvm_bindings \<Rightarrow> ast \<Rightarrow> 'b llvm_state \<Rightarrow> 'b llvm_state res"
  and llvm_body :: "'b llvm_bindings \<Rightarrow> ast option \<Rightarrow> 'b llvm_state \<Rightarrow> 'b llvm_state res"
  and llvm_statements :: "'b llvm_bindings \<Rightarrow> ast list \<Rightarrow> 'b llvm_state \<Rightarrow> 'b llvm_state res" where
  "llvm_ast B (Statements xs) st = llvm_statements B xs st"
| "llvm_ast B (RawBlock t) st =
     bindE (createPrintCall B (Global_string t) st) (\<lambda>(_, st). Inr st)"
| "llvm_ast B (PrintBlock e) st =
     bindE (llvm_expression B e st) (\<lambda>(v, st). bindE (createPrintCall B v st) (\<lambda>(_, st).
       if isVariantType B (getType v) then variableGoesOutOfScope B v st else Inr st))"
| "llvm_ast B (IfBlock c th el) st =
     bindE (llvm_expression B c st) (\<lambda>(condition, st).
       if getType condition \<noteq> IntTy 1 then Inl (Throws (RuntimeError ''unimplemented!''))
       else let (thenBlock, st) = new_block_in_function st;
                (elseBlock, st) = new_block st;
                (mergeBlock, st) = new_block st;
                st = SetInsertPoint thenBlock (CreateCondBr condition thenBlock elseBlock st)
            in bindE (llvm_body B th st) (\<lambda>st.
               let st = SetInsertPoint elseBlock (push_block elseBlock (CreateBr mergeBlock st))
               in bindE (llvm_body B el st) (\<lambda>st.
                  Inr (SetInsertPoint mergeBlock (push_block mergeBlock (CreateBr mergeBlock st))))))"
| "llvm_ast B (ForBlock k v i b el) st =
     bindE (llvm_expression B i st) (\<lambda>(iterable, st).
       let (loopBlock, st) = new_block_in_function st;
           (loopElseBlock, st) = new_block_in_function st;
           (afterLoopBlock, st) = new_block_in_function st
       in bindE (createForLoopInit B iterable st) (\<lambda>(initializationResult, st).
          let st = SetInsertPoint loopBlock (CreateCondBr initializationResult loopBlock loopElseBlock st);
              hasKey = k \<noteq> None; hasValue = v \<noteq> None
          in bindE (llvm_variable_name k) (\<lambda>keyName. bindE (llvm_variable_name v) (\<lambda>valueName.
             let oldKey = m_overriden_variables st keyName; oldValue = m_overriden_variables st valueName
             in bindE (createForLoopGetVariables B iterable hasKey hasValue st) (\<lambda>((keyVariable, valueVariable), st).
                bindE (llvm_body B b (set_loop_variable hasValue valueName valueVariable
                                       (set_loop_variable hasKey keyName keyVariable st))) (\<lambda>st.
                bindE (release_loop_variable B hasKey keyVariable st) (\<lambda>st.
                bindE (release_loop_variable B hasValue valueVariable st) (\<lambda>st.
                bindE (createForLoopNextIteration B iterable
                         (restore_loop_variable hasValue valueName oldValue
                           (restore_loop_variable hasKey keyName oldKey st))) (\<lambda>(cond, st).
                bindE (llvm_body B el (SetInsertPoint loopElseBlock
                                        (CreateCondBr cond loopBlock afterLoopBlock st))) (\<lambda>st.
                bindE (createForLoopCleanup B iterable
                         (SetInsertPoint afterLoopBlock (CreateBr afterLoopBlock st))) (\<lambda>st.
                  variableGoesOutOfScope B iterable st)))))))))))"
| "llvm_ast B (IncludeBlock n s m) st =
     Inl (Throws (RuntimeError (''LLVMVisitor doesn'' @ [squote] @ ''t support include blocks!'')))"
| "llvm_body B None st = Inr st"
| "llvm_body B (Some a) st = llvm_ast B a st"
| "llvm_statements B [] st = Inr st"
| "llvm_statements B (x # xs) st = bindE (llvm_ast B x st) (llvm_statements B xs)"

text \<open>The visitor as it is constructed, over bindings in a given state.\<close>

definition new_llvm_visitor :: "'b \<Rightarrow> 'b llvm_state" where
  "new_llvm_visitor b =
     \<lparr>next_value = 0, next_block = 0, layout = [], insert_point = 0, code = [],
      m_overriden_variables = Map.empty, bindings_state = b\<rparr>"

text \<open>A new function is begun; the tables of the visitor and of the bindings are kept.\<close>

definition new_function :: "'b llvm_state \<Rightarrow> 'b llvm_state" where
  "new_function st = st\<lparr>next_block := 0, layout := [], insert_point := 0, code := []\<rparr>"

definition llvm_visit :: "'b llvm_bindings \<Rightarrow> ast \<Rightarrow> 'b llvm_state \<Rightarrow> 'b llvm_state res" where
  "llvm_visit B a st =
     bindE (functionSetup B (new_function st)) (\<lambda>st. bindE (llvm_ast B a st) (functionTeardown B))"

end
