(* ===== verification/Basic_Blocks.thy ===== *)
theory Basic_Blocks
  imports Llvm_Visitor
begin

text \<open>
  The invariant of a function under construction, and the relation between the states before and
  after a piece of code has been generated.

  \<open>blocks_ok P D\<close>: the blocks in \<open>P\<close> have no terminator, every other block has one, as its last
  instruction; the blocks in \<open>D\<close> are not in the function, every other one is, once.  The relation
  \<open>grows\<close> is stated for every set of blocks that wait for their code, so that the steps of the
  visitor compose by transitivity, however the blocks that they fill are interleaved.
\<close>

section \<open>Blocks\<close>

definition block_code :: "nat \<Rightarrow> (nat \<times> instr) list \<Rightarrow> instr list" where
  "block_code b cs = map snd (filter (\<lambda>x. fst x = b) cs)"

definition straight :: "instr list \<Rightarrow> bool" where
  "straight xs = list_all (\<lambda>i. \<not> is_terminator i) xs"

definition terminated :: "instr list \<Rightarrow> bool" where
  "terminated xs = (xs \<noteq> [] \<and> is_terminator (last xs) \<and> straight (butlast xs))"

lemma block_code_simps [simp]:
  "block_code b [] = []"
  "block_code b (cs @ [(c, i)]) = block_code b cs @ (if c = b then [i] else [])"
  by (simp_all add: block_code_def)

lemma straight_simps [simp]:
  "straight []" "straight (xs @ [i]) \<longleftrightarrow> straight xs \<and> \<not> is_terminator i"
  "terminated (xs @ [i]) \<longleftrightarrow> straight xs \<and> is_terminator i"
  by (auto simp: straight_def terminated_def)

text \<open>Conditions of branches are of type \<open>i1\<close>, and no branch goes to the entry block.\<close>

definition branches_ok :: "nat \<Rightarrow> instr \<Rightarrow> bool" where
  "branches_ok n i = (list_all (\<lambda>b. 0 < b \<and> b < n) (targets i) \<and>
     (case i of CondBr c _ _ \<Rightarrow> getType c = IntTy 1 | _ \<Rightarrow> True))"

lemma branches_ok_simps [simp]:
  "\<not> is_terminator i \<Longrightarrow> branches_ok n i"
  "branches_ok n (CondBr c a b) \<longleftrightarrow> getType c = IntTy 1 \<and> 0 < a \<and> a < n \<and> 0 < b \<and> b < n"
  "branches_ok n (Br a) \<longleftrightarrow> 0 < a \<and> a < n" "branches_ok n RetVoid"
  by (cases i; auto simp: branches_ok_def)+

lemma branches_ok_mono: "branches_ok n i \<Longrightarrow> n \<le> n' \<Longrightarrow> branches_ok n' i"
  by (auto simp: branches_ok_def list_all_iff)

definition blocks_ok :: "nat set \<Rightarrow> nat set \<Rightarrow> 'b llvm_state \<Rightarrow> bool" where
  "blocks_ok P D st \<longleftrightarrow>
     P \<subseteq> {..<next_block st} \<and>
     list_all (\<lambda>(b, i). b < next_block st \<and> branches_ok (next_block st) i) (code st) \<and>
     (\<forall>b < next_block st. if b \<in> P then straight (block_code b (code st)) else terminated (block_code b (code st))) \<and>
     distinct (layout st) \<and> layout st \<noteq> [] \<and> hd (layout st) = 0 \<and>
     set (layout st) = {..<next_block st} - D"

text \<open>A finished function: what the verifier of LLVM demands of the blocks.\<close>

definition well_formed_function :: "'b llvm_state \<Rightarrow> bool" where
  "well_formed_function st \<longleftrightarrow>
     distinct (layout st) \<and> layout st \<noteq> [] \<and> hd (layout st) = 0 \<and>
     list_all (\<lambda>b. terminated (block_code b (code st))) (layout st) \<and>
     list_all (\<lambda>(b, i). b \<in> set (layout st) \<and> list_all (\<lambda>t. t \<in> set (tl (layout st))) (targets i) \<and>
                (case i of CondBr c _ _ \<Rightarrow> getType c = IntTy 1 | _ \<Rightarrow> True)) (code st)"

lemma list_all_pairI: "(\<And>b i. (b, i) \<in> set cs \<Longrightarrow> Q b i) \<Longrightarrow> list_all (\<lambda>(b, i). Q b i) cs"
  by (auto simp: list_all_iff)

lemma blocks_ok_finished:
  assumes "blocks_ok {} {} st"
  shows "well_formed_function st"
proof -
  from assms have layout: "distinct (layout st)" "layout st \<noteq> []" "hd (layout st) = 0"
      "set (layout st) = {..<next_block st}"
    and code: "\<And>b i. (b, i) \<in> set (code st) \<Longrightarrow> b < next_block st \<and> branches_ok (next_block st) i"
    and blocks: "\<And>b. b < next_block st \<Longrightarrow> terminated (block_code b (code st))"
    unfolding blocks_ok_def list_all_iff by fastforce+
  from layout(2,3) obtain bs where bs: "layout st = 0 # bs" by (cases "layout st") simp_all
  have "set bs = set (layout st) - {0}" using layout(1) by (simp add: bs)
  then have set_bs: "set bs = {0<..<next_block st}" unfolding layout(4) by (simp add: set_eq_iff) auto
  have "list_all (\<lambda>(b, i). b \<in> set (layout st) \<and> list_all (\<lambda>t. t \<in> set (tl (layout st))) (targets i) \<and>
      (case i of CondBr c _ _ \<Rightarrow> getType c = IntTy 1 | _ \<Rightarrow> True)) (code st)"
  proof (rule list_all_pairI)
    fix b i assume "(b, i) \<in> set (code st)"
    from code [OF this] show "b \<in> set (layout st) \<and> list_all (\<lambda>t. t \<in> set (tl (layout st))) (targets i) \<and>
        (case i of CondBr c _ _ \<Rightarrow> getType c = IntTy 1 | _ \<Rightarrow> True)"
      using layout(4) unfolding bs list.sel set_bs branches_ok_def list_all_iff by simp
  qed
  moreover have "list_all (\<lambda>b. terminated (block_code b (code st))) (layout st)"
    using blocks layout(4) by (simp add: list_all_iff)
  ultimately show ?thesis
    using layout(1-3) unfolding well_formed_function_def by simp
qed

lemma blocks_ok_next_block: "blocks_ok P D st \<Longrightarrow> 0 < next_block st"
  unfolding blocks_ok_def by (cases "layout st") auto

lemma blocks_ok_bound: "blocks_ok P D st \<Longrightarrow> b \<in> P \<Longrightarrow> b < next_block st"
  unfolding blocks_ok_def by auto

section \<open>Steps of the builder\<close>

lemma blocks_ok_cong:
  "next_block st' = next_block st \<Longrightarrow> layout st' = layout st \<Longrightarrow> code st' = code st \<Longrightarrow>
   blocks_ok P D st' = blocks_ok P D st"
  by (simp add: blocks_ok_def)

lemma blocks_ok_insert_point [simp]: "blocks_ok P D (SetInsertPoint b st) = blocks_ok P D st"
  by (simp add: SetInsertPoint_def blocks_ok_def)

lemma blocks_ok_override [simp]: "blocks_ok P D (override name v st) = blocks_ok P D st"
  by (simp add: override_def blocks_ok_def)

lemma blocks_ok_emit:
  "blocks_ok P D st \<Longrightarrow> insert_point st \<in> P \<Longrightarrow> \<not> is_terminator i \<Longrightarrow> blocks_ok P D (emit_instr i st)"
  by (auto simp: blocks_ok_def emit_instr_def)

lemma blocks_ok_terminate:
  assumes "blocks_ok (insert (insert_point st) P) D st" "insert_point st \<notin> P"
    "is_terminator i" "branches_ok (next_block st) i"
  shows "blocks_ok P D (emit_instr i st)"
  using assms by (auto simp: blocks_ok_def emit_instr_def split: if_splits)

lemma no_code_for_new_block:
  "list_all (\<lambda>(b, i). b < n \<and> Q b i) cs \<Longrightarrow> block_code n cs = []"
  by (auto simp: block_code_def list_all_iff filter_empty_conv)

lemma blocks_ok_new_block:
  assumes "blocks_ok P D st"
  shows "blocks_ok (insert (next_block st) P) (insert (next_block st) D) (snd (new_block st))"
proof -
  have "block_code (next_block st) (code st) = []"
    using assms no_code_for_new_block by (force simp: blocks_ok_def)
  with assms show ?thesis
    by (auto simp: blocks_ok_def new_block_def less_Suc_eq list_all_iff intro: branches_ok_mono)
qed

lemma blocks_ok_push:
  "blocks_ok P D st \<Longrightarrow> b \<in> D \<Longrightarrow> b < next_block st \<Longrightarrow> blocks_ok P (D - {b}) (push_block b st)"
  by (auto simp: blocks_ok_def push_block_def)

lemma new_block_in_function_ok:
  assumes "new_block_in_function st = (b, st')" "blocks_ok P D st" "D \<subseteq> P"
  shows "blocks_ok (insert b P) D st'" "b \<notin> P" "0 < b"
proof -
  have eqs: "b = next_block st" "st' = push_block b (snd (new_block st))"
    using assms(1) by (auto simp: new_block_in_function_def new_block_def)
  show b: "b \<notin> P" using assms(2) eqs(1) by (auto simp: blocks_ok_def)
  show "0 < b" using blocks_ok_next_block [OF assms(2)] eqs(1) by simp
  have "insert b D - {b} = D" using b assms(3) by auto
  then show "blocks_ok (insert b P) D st'"
    using blocks_ok_push [OF blocks_ok_new_block [OF assms(2)], of b] eqs by (simp add: new_block_def)
qed

lemma new_block_in_function_eqs:
  assumes "new_block_in_function st = (b, st')"
  shows "b = next_block st" "next_block st' = Suc b" "insert_point st' = insert_point st"
    "m_overriden_variables st' = m_overriden_variables st"
  using assms by (auto simp: new_block_in_function_def new_block_def push_block_def)

section \<open>Growth\<close>

text \<open>
  Generating code leaves the table of loop variables as it was, and has its insertion point in a
  block without terminator again; the blocks that other code waits to fill are not touched.
\<close>

definition fills :: "'b llvm_state \<Rightarrow> 'b llvm_state \<Rightarrow> bool" where
  "fills st st' \<longleftrightarrow> next_block st \<le> next_block st' \<and>
     (\<forall>P D. insert_point st \<notin> P \<longrightarrow> D \<subseteq> P \<longrightarrow> blocks_ok (insert (insert_point st) P) D st \<longrightarrow>
        insert_point st' \<notin> P \<and> blocks_ok (insert (insert_point st') P) D st')"

definition grows :: "'b llvm_state \<Rightarrow> 'b llvm_state \<Rightarrow> bool" where
  "grows st st' \<longleftrightarrow> m_overriden_variables st' = m_overriden_variables st \<and> fills st st'"

lemma fills_trans: "fills st1 st2 \<Longrightarrow> fills st2 st3 \<Longrightarrow> fills st1 st3"
  by (simp add: fills_def)

lemma fillsD:
  assumes "fills st st'" "blocks_ok (insert (insert_point st) P) D st" "insert_point st \<notin> P" "D \<subseteq> P"
  shows "insert_point st' \<notin> P" "blocks_ok (insert (insert_point st') P) D st'"
  using assms by (auto simp: fills_def)

lemma fills_next_block: "fills st st' \<Longrightarrow> next_block st \<le> next_block st'"
  by (simp add: fills_def)

lemma grows_fills: "grows st st' \<Longrightarrow> fills st st'"
  by (simp add: grows_def)

lemma grows_refl [simp, intro]: "grows st st"
  by (simp add: grows_def fills_def)

lemma grows_trans: "grows st1 st2 \<Longrightarrow> grows st2 st3 \<Longrightarrow> grows st1 st3"
  by (auto simp: grows_def intro: fills_trans)

lemma fills_override [simp]:
  "fills (override name v st) st' = fills st st'" "fills st (override name v st') = fills st st'"
  by (simp_all add: fills_def) (simp_all add: override_def)

lemma grows_emit: "\<not> is_terminator i \<Longrightarrow> grows st (emit_instr i st)"
  by (auto simp: grows_def fills_def emit_instr_def blocks_ok_def)

lemma grows_cong:
  assumes "next_block st' = next_block st" "layout st' = layout st" "code st' = code st"
    "insert_point st' = insert_point st" "m_overriden_variables st' = m_overriden_variables st"
  shows "grows st st'"
  using assms by (simp add: grows_def fills_def blocks_ok_def)

text \<open>Two blocks for the outcomes of a test: one of them ends the function.\<close>

lemma grows_test:
  assumes "getType c = IntTy 1" and "new_block_in_function st = (b1, st1)"
    and "new_block_in_function st1 = (b2, st2)"
  shows "grows st (SetInsertPoint b1 (CreateRetVoid (SetInsertPoint b2 (CreateCondBr c b1 b2 st2))))"
proof -
  note eqs1 = new_block_in_function_eqs [OF assms(2)] and eqs2 = new_block_in_function_eqs [OF assms(3)]
  let ?st3 = "CreateCondBr c b1 b2 st2"
  let ?st4 = "CreateRetVoid (SetInsertPoint b2 ?st3)"
  have "b1 \<notin> P \<and> blocks_ok (insert b1 P) D ?st4"
    if P: "insert_point st \<notin> P" "D \<subseteq> P" "blocks_ok (insert (insert_point st) P) D st" for P D
  proof -
    let ?P = "insert (insert_point st) P"
    have D: "D \<subseteq> ?P" "D \<subseteq> insert b1 ?P" using P(2) by auto
    note one = new_block_in_function_ok [OF assms(2) P(3) D(1)]
    note two = new_block_in_function_ok [OF assms(3) one(1) D(2)]
    have "blocks_ok (insert (insert_point st2) (insert b2 (insert b1 P))) D st2"
      using two(1) P(2) by (simp add: eqs1 eqs2 insert_commute subset_insertI2)
    then have "blocks_ok (insert b2 (insert b1 P)) D ?st3"
      unfolding CreateCondBr_def
      by (rule blocks_ok_terminate) (use one two P(1,2) assms(1) in \<open>auto simp: eqs1 eqs2\<close>)
    then have "blocks_ok (insert b1 P) D ?st4"
      unfolding CreateRetVoid_def
      by (intro blocks_ok_terminate) (use two one P(2) in \<open>auto simp: SetInsertPoint_def blocks_ok_def\<close>)
    with one P(2) show ?thesis by auto
  qed
  then have "\<forall>P D. insert_point st \<notin> P \<longrightarrow> D \<subseteq> P \<longrightarrow> blocks_ok (insert (insert_point st) P) D st \<longrightarrow>
      b1 \<notin> P \<and> blocks_ok (insert b1 P) D ?st4" by blast
  moreover have "insert_point (SetInsertPoint b1 ?st4) = b1"
    "m_overriden_variables (SetInsertPoint b1 ?st4) = m_overriden_variables st"
    "next_block st \<le> next_block (SetInsertPoint b1 ?st4)"
    by (simp_all add: SetInsertPoint_def CreateRetVoid_def CreateCondBr_def emit_instr_def eqs1 eqs2)
  ultimately show ?thesis by (simp add: grows_def fills_def)
qed

text \<open>The blocks of an if block.\<close>

lemma new_block_ok:
  assumes "new_block st = (b, st')" "blocks_ok P D st" "D \<subseteq> P"
  shows "blocks_ok (insert b P) (insert b D) st'" "b \<notin> P" "0 < b"
  using blocks_ok_new_block [OF assms(2)] blocks_ok_next_block [OF assms(2)] assms
  by (auto simp: new_block_def blocks_ok_def)

lemma new_block_eqs:
  assumes "new_block st = (b, st')"
  shows "b = next_block st" "next_block st' = Suc b" "insert_point st' = insert_point st"
    "m_overriden_variables st' = m_overriden_variables st"
  using assms by (auto simp: new_block_def)

lemma branch_simps [simp]:
  "insert_point (CreateBr b st) = insert_point st" "insert_point (CreateCondBr c b b' st) = insert_point st"
  "insert_point (push_block b st) = insert_point st" "insert_point (SetInsertPoint b st) = b"
  "next_block (CreateBr b st) = next_block st" "next_block (CreateCondBr c b b' st) = next_block st"
  "next_block (push_block b st) = next_block st" "next_block (SetInsertPoint b st) = next_block st"
  "m_overriden_variables (CreateBr b st) = m_overriden_variables st"
  "m_overriden_variables (CreateCondBr c b b' st) = m_overriden_variables st"
  "m_overriden_variables (push_block b st) = m_overriden_variables st"
  "m_overriden_variables (SetInsertPoint b st) = m_overriden_variables st"
  by (simp_all add: CreateBr_def CreateCondBr_def push_block_def SetInsertPoint_def emit_instr_def)

lemma blocks_ok_Br:
  assumes "blocks_ok (insert (insert_point st) P) D st" "insert_point st \<notin> P" "b \<in> P" "0 < b"
  shows "blocks_ok P D (CreateBr b st)"
  unfolding CreateBr_def
  by (rule blocks_ok_terminate) (use assms blocks_ok_bound [OF assms(1), of b] in auto)

lemma blocks_ok_CondBr:
  assumes "blocks_ok (insert (insert_point st) P) D st" "insert_point st \<notin> P" "getType c = IntTy 1"
    "0 < b" "b < next_block st" "0 < b'" "b' < next_block st"
  shows "blocks_ok P D (CreateCondBr c b b' st)"
  unfolding CreateCondBr_def by (rule blocks_ok_terminate) (use assms in auto)

lemma fills_if:
  assumes "getType c = IntTy 1" and b1: "new_block_in_function st = (b1, st1)"
    and b2: "new_block st1 = (b2, st2)" and b3: "new_block st2 = (b3, st3)"
    and th: "fills (SetInsertPoint b1 (CreateCondBr c b1 b2 st3)) st4"
    and el: "fills (SetInsertPoint b2 (push_block b2 (CreateBr b3 st4))) st5"
  shows "fills st (SetInsertPoint b3 (push_block b3 (CreateBr b3 st5)))"
proof -
  note eqs = new_block_in_function_eqs [OF b1] new_block_eqs [OF b2] new_block_eqs [OF b3]
  have "b3 \<notin> P \<and> blocks_ok (insert b3 P) D (push_block b3 (CreateBr b3 st5))"
    if P: "insert_point st \<notin> P" "D \<subseteq> P" "blocks_ok (insert (insert_point st) P) D st" for P D
  proof -
    let ?P = "insert (insert_point st) P"
    have D: "D \<subseteq> ?P" "D \<subseteq> insert b1 ?P" "insert b2 D \<subseteq> insert b2 (insert b1 ?P)" using P(2) by auto
    note ok1 = new_block_in_function_ok [OF b1 P(3) D(1)]
    note ok2 = new_block_ok [OF b2 ok1(1) D(2)]
    note ok3 = new_block_ok [OF b3 ok2(1) D(3)]
    have fresh: "b1 \<notin> P" "b2 \<notin> P" "b3 \<notin> P" "b1 \<noteq> b2" "b1 \<noteq> b3" "b2 \<noteq> b3" "b2 \<notin> D" "b3 \<notin> D"
        "insert_point st \<notin> {b1, b2, b3}"
      using ok1 ok2 ok3 P(2) by auto
    have "blocks_ok (insert (insert_point st3) ({b1, b2, b3} \<union> P)) ({b2, b3} \<union> D) st3"
      using ok3(1) by (simp add: eqs insert_commute)
    then have ok4: "blocks_ok ({b1, b2, b3} \<union> P) ({b2, b3} \<union> D) (CreateCondBr c b1 b2 st3)"
      by (rule blocks_ok_CondBr) (use fresh P(1) assms(1) ok1(3) ok2(3) in \<open>auto simp: eqs\<close>)
    have "blocks_ok (insert (insert_point (SetInsertPoint b1 (CreateCondBr c b1 b2 st3))) ({b2, b3} \<union> P))
        ({b2, b3} \<union> D) (SetInsertPoint b1 (CreateCondBr c b1 b2 st3))" using ok4 by simp
    note ok5 = fillsD [OF th this]
    have "blocks_ok ({b2, b3} \<union> P) ({b2, b3} \<union> D) (CreateBr b3 st4)"
      by (rule blocks_ok_Br) (use ok5 fresh P(2) ok3(3) in auto)
    from blocks_ok_push [OF this, of b2] blocks_ok_bound [OF this, of b2] fresh
    have "blocks_ok (insert b2 (insert b3 P)) (insert b3 D) (push_block b2 (CreateBr b3 st4))"
      by (simp add: insert_Diff_if)
    then have "blocks_ok (insert (insert_point (SetInsertPoint b2 (push_block b2 (CreateBr b3 st4)))) (insert b3 P))
        (insert b3 D) (SetInsertPoint b2 (push_block b2 (CreateBr b3 st4)))" by simp
    note ok6 = fillsD [OF el this]
    have "blocks_ok (insert b3 P) (insert b3 D) (CreateBr b3 st5)"
      by (rule blocks_ok_Br) (use ok6 fresh P(2) ok3(3) in auto)
    from blocks_ok_push [OF this, of b3] blocks_ok_bound [OF this, of b3] fresh show ?thesis by simp
  qed
  moreover have "next_block st \<le> next_block st5"
    using fills_next_block [OF th] fills_next_block [OF el] by (simp add: eqs)
  ultimately show ?thesis by (simp add: fills_def)
qed

text \<open>The blocks of a loop.\<close>

lemma fills_for:
  assumes b1: "new_block_in_function st = (b1, st1)" and b2: "new_block_in_function st1 = (b2, st2)"
    and b3: "new_block_in_function st2 = (b3, st3)"
    and first: "fills st3 st4" "getType c = IntTy 1"
    and body: "fills (SetInsertPoint b1 (CreateCondBr c b1 b2 st4)) st5" "getType c' = IntTy 1"
    and el: "fills (SetInsertPoint b2 (CreateCondBr c' b1 b3 st5)) st6"
    and last: "fills (SetInsertPoint b3 (CreateBr b3 st6)) st7"
  shows "fills st st7"
proof -
  note eqs = new_block_in_function_eqs [OF b1] new_block_in_function_eqs [OF b2] new_block_in_function_eqs [OF b3]
  note later = fills_next_block [OF first(1)] fills_next_block [OF body(1)] fills_next_block [OF el] fills_next_block [OF last]
  have "insert_point st7 \<notin> P \<and> blocks_ok (insert (insert_point st7) P) D st7"
    if P: "insert_point st \<notin> P" "D \<subseteq> P" "blocks_ok (insert (insert_point st) P) D st" for P D
  proof -
    let ?P = "insert (insert_point st) P"
    have D: "D \<subseteq> ?P" "D \<subseteq> insert b1 ?P" "D \<subseteq> insert b2 (insert b1 ?P)" using P(2) by auto
    note ok1 = new_block_in_function_ok [OF b1 P(3) D(1)]
    note ok2 = new_block_in_function_ok [OF b2 ok1(1) D(2)]
    note ok3 = new_block_in_function_ok [OF b3 ok2(1) D(3)]
    have fresh: "b1 \<notin> P" "b2 \<notin> P" "b3 \<notin> P" "b1 \<noteq> b2" "b1 \<noteq> b3" "b2 \<noteq> b3"
        "insert_point st \<notin> {b1, b2, b3}"
      using ok1 ok2 ok3 by auto
    have "blocks_ok (insert (insert_point st3) ({b1, b2, b3} \<union> P)) D st3"
      using ok3(1) by (simp add: eqs insert_commute)
    note ok4 = fillsD [OF first(1) this]
    have "blocks_ok ({b1, b2, b3} \<union> P) D (CreateCondBr c b1 b2 st4)"
      by (rule blocks_ok_CondBr) (use ok4 fresh P(1,2) first(2) ok1(3) ok2(3) later in \<open>auto simp: eqs\<close>)
    then have "blocks_ok (insert (insert_point (SetInsertPoint b1 (CreateCondBr c b1 b2 st4))) ({b2, b3} \<union> P))
        D (SetInsertPoint b1 (CreateCondBr c b1 b2 st4))" by simp
    note ok5 = fillsD [OF body(1) this]
    have "blocks_ok ({b2, b3} \<union> P) D (CreateCondBr c' b1 b3 st5)"
      by (rule blocks_ok_CondBr) (use ok5 fresh P(1,2) body(2) ok1(3) ok3(3) later in \<open>auto simp: eqs\<close>)
    then have "blocks_ok (insert (insert_point (SetInsertPoint b2 (CreateCondBr c' b1 b3 st5))) (insert b3 P))
        D (SetInsertPoint b2 (CreateCondBr c' b1 b3 st5))" by simp
    note ok6 = fillsD [OF el this]
    have "blocks_ok (insert b3 P) D (CreateBr b3 st6)"
      by (rule blocks_ok_Br) (use ok6 fresh P(2) ok3(3) in auto)
    then have "blocks_ok (insert (insert_point (SetInsertPoint b3 (CreateBr b3 st6))) P)
        D (SetInsertPoint b3 (CreateBr b3 st6))" by simp
    from fillsD [OF last this] fresh P(2) show ?thesis by simp
  qed
  moreover have "next_block st \<le> next_block st7" using later by (simp add: eqs)
  ultimately show ?thesis by (simp add: fills_def)
qed

end
