(* ===== verification/Llvm_Laws.thy ===== *)
theory Llvm_Laws
  imports Basic_Blocks
begin

text \<open>
  The contract between the LLVM visitor and its bindings, and what the visitor makes of it: the
  functions it generates are well formed, and the table of loop variables is as it was.
\<close>

section \<open>Generators\<close>

definition sound_gen :: "('a, 'b) gen \<Rightarrow> bool" where
  "sound_gen m \<longleftrightarrow> (\<forall>st v st'. m st = Inr (v, st') \<longrightarrow> grows st st')"

definition sound_step :: "('b llvm_state \<Rightarrow> 'b llvm_state res) \<Rightarrow> bool" where
  "sound_step m \<longleftrightarrow> (\<forall>st st'. m st = Inr st' \<longrightarrow> grows st st')"

definition returns_type :: "(ltype \<Rightarrow> bool) \<Rightarrow> (lvalue, 'b) gen \<Rightarrow> bool" where
  "returns_type T m \<longleftrightarrow> (\<forall>st v st'. m st = Inr (v, st') \<longrightarrow> T (getType v))"

lemma sound_genD: "sound_gen m \<Longrightarrow> m st = Inr (v, st') \<Longrightarrow> grows st st'"
  by (simp add: sound_gen_def)

lemma sound_stepD: "sound_step m \<Longrightarrow> m st = Inr st' \<Longrightarrow> grows st st'"
  by (simp add: sound_step_def)

lemma returns_typeD: "returns_type T m \<Longrightarrow> m st = Inr (v, st') \<Longrightarrow> T (getType v)"
  by (auto simp: returns_type_def)

named_theorems sound "generators keep the blocks of the function in order"

lemma sound_bind:
  assumes "sound_gen m" "\<And>v. sound_gen (f v)"
  shows "sound_gen (\<lambda>st. bindE (m st) (\<lambda>(v, st). f v st))"
  using assms by (fastforce simp: sound_gen_def bindE_eq_Inr intro: grows_trans)

lemma sound_return [sound]: "sound_gen (\<lambda>st. Inr (v, st))"
  by (simp add: sound_gen_def)

lemma sound_fail [sound]: "sound_gen (\<lambda>st. Inl f)"
  by (simp add: sound_gen_def)

lemma grows_request [simp]: "\<not> is_terminator i \<Longrightarrow> grows st (emit_instr i st\<lparr>next_value := n\<rparr>)"
  by (rule grows_trans [OF grows_emit]) (auto intro: grows_cong)

lemma sound_request [sound]: "\<not> is_terminator i \<Longrightarrow> sound_gen (request t i)"
  by (auto simp: sound_gen_def request_def)

lemma sound_operations [sound]:
  "sound_gen (int_operation name l r)" "sound_gen (int_comparison name l r)"
  "sound_gen (double_operation name l r)" "sound_gen (double_comparison name l r)"
  "sound_gen (int_unary name l)" "sound_gen (to_double l)" "sound_gen (pointer_comparison name l r)"
  "sound_gen (CreateAlloca t n)" "sound_gen (CreateLoad l)" "sound_gen (CreateInBoundsGEP l n)"
  "sound_gen (CreateTrunc l w)" "sound_gen (CreateCall f as)"
  by (auto simp: sound_gen_def int_operation_def int_comparison_def double_operation_def double_comparison_def
      int_unary_def to_double_def pointer_comparison_def CreateAlloca_def CreateLoad_def request_def
      CreateInBoundsGEP_def CreateTrunc_def CreateCall_def split: if_splits ltype.splits prod.splits)

lemma sound_store [sound]: "sound_step (CreateStore v p)"
  by (auto simp: sound_step_def CreateStore_def intro: grows_emit split: if_splits)

lemma sound_comparison_requests [sound]:
  "sound_gen (int_comparison_request op l r)" "sound_gen (double_comparison_request op l r)"
  by (cases op; simp add: sound)+

section \<open>Runs of the visitor on blocks\<close>

lemma if_run:
  assumes "llvm_ast B (IfBlock c th el) st = Inr st'"
  obtains cond st0 b1 st1 b2 st2 b3 st3 st4 st5 where
    "llvm_expression B c st = Inr (cond, st0)" "getType cond = IntTy 1"
    "new_block_in_function st0 = (b1, st1)" "new_block st1 = (b2, st2)" "new_block st2 = (b3, st3)"
    "llvm_body B th (SetInsertPoint b1 (CreateCondBr cond b1 b2 st3)) = Inr st4"
    "llvm_body B el (SetInsertPoint b2 (push_block b2 (CreateBr b3 st4))) = Inr st5"
    "st' = SetInsertPoint b3 (push_block b3 (CreateBr b3 st5))"
proof -
  obtain cond st0 where cond: "llvm_expression B c st = Inr (cond, st0)" "getType cond = IntTy 1"
    using assms by (auto simp: bindE_eq_Inr split: if_splits)
  obtain b1 st1 b2 st2 b3 st3 where bs: "new_block_in_function st0 = (b1, st1)" "new_block st1 = (b2, st2)"
      "new_block st2 = (b3, st3)" by (metis surj_pair)
  obtain st4 st5 where "llvm_body B th (SetInsertPoint b1 (CreateCondBr cond b1 b2 st3)) = Inr st4"
      "llvm_body B el (SetInsertPoint b2 (push_block b2 (CreateBr b3 st4))) = Inr st5"
      "st' = SetInsertPoint b3 (push_block b3 (CreateBr b3 st5))"
    using assms cond bs by (auto simp: bindE_eq_Inr Let_def)
  with cond bs that show ?thesis by blast
qed

lemma for_run:
  assumes "llvm_ast B (ForBlock k v i b el) st = Inr st'"
  obtains it st0 b1 st1 b2 st2 b3 st3 c st4 keyName valueName kv vv st6 st7 st8 st9 st10' c' st10 st11 st12 where
    "llvm_expression B i st = Inr (it, st0)"
    "new_block_in_function st0 = (b1, st1)" "new_block_in_function st1 = (b2, st2)"
    "new_block_in_function st2 = (b3, st3)" "createForLoopInit B it st3 = Inr (c, st4)"
    "llvm_variable_name k = Inr keyName" "llvm_variable_name v = Inr valueName"
    "createForLoopGetVariables B it (k \<noteq> None) (v \<noteq> None) (SetInsertPoint b1 (CreateCondBr c b1 b2 st4)) = Inr ((kv, vv), st6)"
    "llvm_body B b (set_loop_variable (v \<noteq> None) valueName vv (set_loop_variable (k \<noteq> None) keyName kv st6)) = Inr st7"
    "release_loop_variable B (k \<noteq> None) kv st7 = Inr st8" "release_loop_variable B (v \<noteq> None) vv st8 = Inr st9"
    "st10' = restore_loop_variable (v \<noteq> None) valueName (m_overriden_variables st4 valueName)
      (restore_loop_variable (k \<noteq> None) keyName (m_overriden_variables st4 keyName) st9)"
    "createForLoopNextIteration B it st10' = Inr (c', st10)"
    "llvm_body B el (SetInsertPoint b2 (CreateCondBr c' b1 b3 st10)) = Inr st11"
    "createForLoopCleanup B it (SetInsertPoint b3 (CreateBr b3 st11)) = Inr st12"
    "variableGoesOutOfScope B it st12 = Inr st'"
proof -
  let ?hasKey = "k \<noteq> None" and ?hasValue = "v \<noteq> None"
  obtain it st0 where it: "llvm_expression B i st = Inr (it, st0)"
    using assms by (auto simp: bindE_eq_Inr)
  obtain b1 st1 b2 st2 b3 st3 where bs: "new_block_in_function st0 = (b1, st1)"
      "new_block_in_function st1 = (b2, st2)" "new_block_in_function st2 = (b3, st3)" by (metis surj_pair)
  obtain c st4 keyName valueName where c: "createForLoopInit B it st3 = Inr (c, st4)"
    and names: "llvm_variable_name k = Inr keyName" "llvm_variable_name v = Inr valueName"
    using assms it bs by (auto simp: bindE_eq_Inr Let_def)
  let ?st5 = "SetInsertPoint b1 (CreateCondBr c b1 b2 st4)"
  obtain kv vv st6 st7 st8 st9 where vars: "createForLoopGetVariables B it ?hasKey ?hasValue ?st5 = Inr ((kv, vv), st6)"
    and body: "llvm_body B b (set_loop_variable ?hasValue valueName vv (set_loop_variable ?hasKey keyName kv st6)) = Inr st7"
    and out: "release_loop_variable B ?hasKey kv st7 = Inr st8" "release_loop_variable B ?hasValue vv st8 = Inr st9"
    using assms it bs c names by (auto simp: bindE_eq_Inr Let_def)
  let ?st9 = "restore_loop_variable ?hasValue valueName (m_overriden_variables st4 valueName)
      (restore_loop_variable ?hasKey keyName (m_overriden_variables st4 keyName) st9)"
  obtain c' st10 st11 st12 where "createForLoopNextIteration B it ?st9 = Inr (c', st10)"
    "llvm_body B el (SetInsertPoint b2 (CreateCondBr c' b1 b3 st10)) = Inr st11"
    "createForLoopCleanup B it (SetInsertPoint b3 (CreateBr b3 st11)) = Inr st12"
    "variableGoesOutOfScope B it st12 = Inr st'"
    using assms it bs c names vars body out by (auto simp: bindE_eq_Inr Let_def)
  then show ?thesis by (rule that [OF it bs c names vars body out refl])
qed

section \<open>The contract\<close>

locale llvm_contract =
  fixes B :: "'b llvm_bindings"
  assumes entry: "functionSetup B st = Inr st1 \<Longrightarrow> next_block st = 0 \<Longrightarrow> layout st = [] \<Longrightarrow> code st = [] \<Longrightarrow>
      blocks_ok {insert_point st1} {} st1 \<and> m_overriden_variables st1 = m_overriden_variables st"
    and exit: "functionTeardown B st = Inr st1 \<Longrightarrow> blocks_ok {insert_point st} {} st \<Longrightarrow>
      blocks_ok {} {} st1 \<and> m_overriden_variables st1 = m_overriden_variables st"
    and scope: "sound_step (variableGoesOutOfScope B v)"
    and new_reference: "sound_gen (getNewReferenceForVariable B v)"
    and print: "sound_gen (createPrintCall B v)"
    and init: "sound_gen (createForLoopInit B v)" "returns_type (\<lambda>t. t = IntTy 1) (createForLoopInit B v)"
    and cleanup: "sound_step (createForLoopCleanup B v)"
    and next_iteration: "sound_gen (createForLoopNextIteration B v)"
      "returns_type (\<lambda>t. t = IntTy 1) (createForLoopNextIteration B v)"
    and get_variables: "sound_gen (createForLoopGetVariables B v hasKey hasValue)"
    and comparison: "sound_gen (createVariantComparison B cop v w)"
    and binary: "sound_gen (createVariantBinaryOperation B bop v w)"
    and unary: "sound_gen (createVariantUnaryOperation B uop v)"
    and lookup: "sound_gen (createVariableLookup B name)"
    and call: "sound_gen (createMethodCall B name vs)"
    and attribute: "sound_gen (createGetAttribute B name v)"
begin

lemmas contract = scope new_reference print init cleanup next_iteration get_variables comparison
  binary unary lookup call attribute

lemma operations_grow:
  "sound_gen (llvm_binary_operation B bop v w)" "sound_gen (llvm_unary_operation B uop v)"
  "sound_gen (llvm_comparison B cop v w)"
proof -
  have bin: "llvm_binary_operation B bop v w =
      (if isVariantType B (getType v) \<or> isVariantType B (getType w) then createVariantBinaryOperation B bop v w
       else if is_int (getType v) \<and> is_int (getType w) then int_operation (int_binary_name bop) v w
       else (\<lambda>st. bindE (to_double v st) (\<lambda>(l, st).
          (\<lambda>st. bindE (to_double w st) (\<lambda>(r, st). double_operation (double_binary_name bop) l r st)) st)))"
    by (auto simp: llvm_binary_operation_def)
  show "sound_gen (llvm_binary_operation B bop v w)"
    unfolding bin by (auto intro: sound contract sound_bind)
  have cmp: "llvm_comparison B cop v w =
      (if isVariantType B (getType v) \<or> isVariantType B (getType w) then createVariantComparison B cop v w
       else if is_int (getType v) \<and> is_int (getType w) then int_comparison_request cop v w
       else (\<lambda>st. bindE (to_double v st) (\<lambda>(l, st).
          (\<lambda>st. bindE (to_double w st) (\<lambda>(r, st). double_comparison_request cop l r st)) st)))"
    by (auto simp: llvm_comparison_def)
  show "sound_gen (llvm_comparison B cop v w)"
    unfolding cmp by (auto intro: sound contract sound_bind)
  show "sound_gen (llvm_unary_operation B uop v)"
    using sound_genD [OF unary] sound_genD [OF sound_operations(5)]
    by (auto simp: llvm_unary_operation_def sound_gen_def split: if_splits unary_op.splits)
qed

lemma expression_grows:
  "C = B \<Longrightarrow> llvm_expression C e st = Inr (v, st') \<Longrightarrow> grows st st'"
  "C = B \<Longrightarrow> llvm_arguments C as st = Inr (vs, st') \<Longrightarrow> grows st st'"
  by (induction C e st and C as st arbitrary: v st' and vs st' rule: llvm_expression_llvm_arguments.induct)
    (fastforce simp: bindE_eq_Inr derefE_def split: option.splits
      intro: grows_trans sound_genD [OF new_reference] sound_genD [OF lookup] sound_genD [OF attribute]
        sound_genD [OF call] sound_genD [OF operations_grow(1)] sound_genD [OF operations_grow(2)]
        sound_genD [OF operations_grow(3)])+

lemma loop_variables_restored:
  assumes "m_overriden_variables st1 = m_overriden_variables st"
    and "m_overriden_variables st2 = m_overriden_variables
      (set_loop_variable hasValue valueName w (set_loop_variable hasKey keyName k st1))"
    and "m_overriden_variables st3 = m_overriden_variables st2"
  shows "m_overriden_variables
      (restore_loop_variable hasValue valueName (m_overriden_variables st valueName)
        (restore_loop_variable hasKey keyName (m_overriden_variables st keyName) st3))
    = m_overriden_variables st"
  using assms by (auto simp: restore_loop_variable_def set_loop_variable_def override_def fun_eq_iff)

lemma fills_loop_variables [simp]:
  "fills (set_loop_variable hasV name w st) st' = fills st st'"
  "fills st (set_loop_variable hasV name w st') = fills st st'"
  "fills st (restore_loop_variable hasV name old st') = fills st st'"
  "fills (restore_loop_variable hasV name old st) st' = fills st st'"
  by (simp_all add: set_loop_variable_def restore_loop_variable_def)

lemma release_grows: "release_loop_variable B hasV v st = Inr st' \<Longrightarrow> grows st st'"
  by (auto simp: release_loop_variable_def derefE_def split: if_splits option.splits
      intro: sound_stepD [OF scope])

lemma body_grows:
  assumes "\<And>a st st'. a \<in> set_option b \<Longrightarrow> llvm_ast B a st = Inr st' \<Longrightarrow> grows st st'"
    and "llvm_body B b st = Inr st'"
  shows "grows st st'"
  using assms by (cases b) auto

lemma statements_grow:
  assumes "\<And>a st st'. a \<in> set xs \<Longrightarrow> llvm_ast B a st = Inr st' \<Longrightarrow> grows st st'"
  shows "llvm_statements B xs st = Inr st' \<Longrightarrow> grows st st'"
  using assms by (induction xs arbitrary: st) (fastforce simp: bindE_eq_Inr intro: grows_trans)+

lemma if_grows:
  assumes th: "\<And>st st'. llvm_body B th st = Inr st' \<Longrightarrow> grows st st'"
    and el: "\<And>st st'. llvm_body B el st = Inr st' \<Longrightarrow> grows st st'"
    and run: "llvm_ast B (IfBlock c th el) st = Inr st'"
  shows "grows st st'"
  using run
proof (rule if_run)
  fix cond st0 b1 st1 b2 st2 b3 st3 st4 st5
  assume cond: "llvm_expression B c st = Inr (cond, st0)" "getType cond = IntTy 1"
    and bs: "new_block_in_function st0 = (b1, st1)" "new_block st1 = (b2, st2)" "new_block st2 = (b3, st3)"
    and body: "llvm_body B th (SetInsertPoint b1 (CreateCondBr cond b1 b2 st3)) = Inr st4"
      "llvm_body B el (SetInsertPoint b2 (push_block b2 (CreateBr b3 st4))) = Inr st5"
    and st': "st' = SetInsertPoint b3 (push_block b3 (CreateBr b3 st5))"
  have "grows st0 st'"
    using fills_if [OF cond(2) bs grows_fills [OF th [OF body(1)]] grows_fills [OF el [OF body(2)]]]
      th [OF body(1)] el [OF body(2)] bs
    by (simp add: st' grows_def new_block_in_function_eqs(4) [OF bs(1)] new_block_eqs(4) [OF bs(2)]
        new_block_eqs(4) [OF bs(3)])
  with expression_grows(1) [OF refl cond(1)] show ?thesis by (rule grows_trans)
qed

lemma for_grows:
  assumes b: "\<And>st st'. llvm_body B b st = Inr st' \<Longrightarrow> grows st st'"
    and el: "\<And>st st'. llvm_body B el st = Inr st' \<Longrightarrow> grows st st'"
    and run: "llvm_ast B (ForBlock k v i b el) st = Inr st'"
  shows "grows st st'"
  using run
proof (rule for_run)
  fix it st0 b1 st1 b2 st2 b3 st3 c st4 keyName valueName kv vv st6 st7 st8 st9 st10' c' st10 st11 st12
  assume it: "llvm_expression B i st = Inr (it, st0)"
    and bs: "new_block_in_function st0 = (b1, st1)" "new_block_in_function st1 = (b2, st2)"
      "new_block_in_function st2 = (b3, st3)"
    and c: "createForLoopInit B it st3 = Inr (c, st4)"
    and vars: "createForLoopGetVariables B it (k \<noteq> None) (v \<noteq> None) (SetInsertPoint b1 (CreateCondBr c b1 b2 st4)) = Inr ((kv, vv), st6)"
    and body: "llvm_body B b (set_loop_variable (v \<noteq> None) valueName vv (set_loop_variable (k \<noteq> None) keyName kv st6)) = Inr st7"
    and out: "release_loop_variable B (k \<noteq> None) kv st7 = Inr st8" "release_loop_variable B (v \<noteq> None) vv st8 = Inr st9"
    and st10': "st10' = restore_loop_variable (v \<noteq> None) valueName (m_overriden_variables st4 valueName)
      (restore_loop_variable (k \<noteq> None) keyName (m_overriden_variables st4 keyName) st9)"
    and step: "createForLoopNextIteration B it st10' = Inr (c', st10)"
    and els: "llvm_body B el (SetInsertPoint b2 (CreateCondBr c' b1 b3 st10)) = Inr st11"
    and clean: "createForLoopCleanup B it (SetInsertPoint b3 (CreateBr b3 st11)) = Inr st12"
    and final: "variableGoesOutOfScope B it st12 = Inr st'"
  note grow = sound_genD [OF init(1) c] sound_genD [OF get_variables vars] b [OF body] release_grows [OF out(1)]
    release_grows [OF out(2)] sound_genD [OF next_iteration(1) step] el [OF els]
    grows_trans [OF sound_stepD [OF cleanup clean] sound_stepD [OF scope final]]
  note fill = grow [THEN grows_fills]
  have "fills (SetInsertPoint b1 (CreateCondBr c b1 b2 st4)) st10"
    using fill(2-6) unfolding st10' by (metis fills_trans fills_loop_variables(1,4))
  from fills_for [OF bs fill(1) returns_typeD [OF init(2) c] this returns_typeD [OF next_iteration(2) step] fill(7,8)]
  have "fills st0 st'" .
  moreover have "m_overriden_variables st10' = m_overriden_variables st4"
    unfolding st10' by (rule loop_variables_restored [of st6 _ st7]) (use grow(2-5) in \<open>simp_all add: grows_def\<close>)
  then have "m_overriden_variables st' = m_overriden_variables st0"
    using grow(1,6-8) by (simp add: grows_def new_block_in_function_eqs(4) [OF bs(1)]
        new_block_in_function_eqs(4) [OF bs(2)] new_block_in_function_eqs(4) [OF bs(3)])
  ultimately have "grows st0 st'" by (simp add: grows_def)
  with expression_grows(1) [OF refl it] show ?thesis by (rule grows_trans)
qed

lemma ast_grows: "llvm_ast B a st = Inr st' \<Longrightarrow> grows st st'"
proof (induction a arbitrary: st st')
  case (Statements xs)
  then show ?case using statements_grow [of xs st st'] by simp
next
  case (PrintBlock e)
  then obtain v st1 w st2 where "llvm_expression B e st = Inr (v, st1)" "createPrintCall B v st1 = Inr (w, st2)"
      "st' = st2 \<or> variableGoesOutOfScope B v st2 = Inr st'"
    by (auto simp: bindE_eq_Inr split: if_splits)
  with grows_trans [OF grows_trans [OF expression_grows(1) [OF refl] sound_genD [OF print]] sound_stepD [OF scope]]
    grows_trans [OF expression_grows(1) [OF refl] sound_genD [OF print]]
  show ?case by blast
next
  case (IfBlock c th el)
  show ?case
    by (rule if_grows [OF _ _ IfBlock.prems]) (erule body_grows [rotated], rule IfBlock.IH; assumption)+
next
  case (ForBlock k v i b el)
  show ?case
    by (rule for_grows [OF _ _ ForBlock.prems]) (erule body_grows [rotated], rule ForBlock.IH; assumption)+
qed (auto simp: bindE_eq_Inr intro: sound_genD [OF print])

text \<open>The table of loop variables where the bodies of a block are visited.\<close>

lemma if_tables:
  assumes "llvm_expression B c st = Inr (cond, st0)"
    and bs: "new_block_in_function st0 = (b1, st1)" "new_block st1 = (b2, st2)" "new_block st2 = (b3, st3)"
    and "llvm_body B th (SetInsertPoint b1 (CreateCondBr cond b1 b2 st3)) = Inr st4"
  shows "m_overriden_variables st3 = m_overriden_variables st" "m_overriden_variables st4 = m_overriden_variables st"
  using expression_grows(1) [OF refl assms(1)] body_grows [OF ast_grows assms(5)]
    new_block_in_function_eqs(4) [OF bs(1)] new_block_eqs(4) [OF bs(2)] new_block_eqs(4) [OF bs(3)]
  by (simp_all add: grows_def)

lemma for_tables:
  assumes it: "llvm_expression B i st = Inr (it, st0)"
    and bs: "new_block_in_function st0 = (b1, st1)" "new_block_in_function st1 = (b2, st2)"
      "new_block_in_function st2 = (b3, st3)"
    and c: "createForLoopInit B it st3 = Inr (c, st4)"
    and vars: "createForLoopGetVariables B it (k \<noteq> None) (v \<noteq> None) (SetInsertPoint b1 (CreateCondBr c b1 b2 st4)) = Inr ((kv, vv), st6)"
    and body: "llvm_body B b (set_loop_variable (v \<noteq> None) valueName vv (set_loop_variable (k \<noteq> None) keyName kv st6)) = Inr st7"
    and out: "release_loop_variable B (k \<noteq> None) kv st7 = Inr st8" "release_loop_variable B (v \<noteq> None) vv st8 = Inr st9"
    and st10': "st10' = restore_loop_variable (v \<noteq> None) valueName (m_overriden_variables st4 valueName)
      (restore_loop_variable (k \<noteq> None) keyName (m_overriden_variables st4 keyName) st9)"
    and step: "createForLoopNextIteration B it st10' = Inr (c', st10)"
  shows "m_overriden_variables st6 = m_overriden_variables st" "m_overriden_variables st10 = m_overriden_variables st"
proof -
  note grow = sound_genD [OF init(1) c] sound_genD [OF get_variables vars] body_grows [OF ast_grows body]
    release_grows [OF out(1)] release_grows [OF out(2)] sound_genD [OF next_iteration(1) step]
    expression_grows(1) [OF refl it]
  have "m_overriden_variables st10' = m_overriden_variables st4"
    unfolding st10' by (rule loop_variables_restored [of st6 _ st7]) (use grow(2-5) in \<open>simp_all add: grows_def\<close>)
  with grow(1,2,6,7) show "m_overriden_variables st6 = m_overriden_variables st"
    "m_overriden_variables st10 = m_overriden_variables st"
    by (simp_all add: grows_def new_block_in_function_eqs(4) [OF bs(1)]
        new_block_in_function_eqs(4) [OF bs(2)] new_block_in_function_eqs(4) [OF bs(3)])
qed

lemma visit_well_formed:
  assumes "llvm_visit B a st = Inr st'"
  shows "well_formed_function st' \<and> m_overriden_variables st' = m_overriden_variables st"
proof -
  from assms obtain st1 st2 where st1: "functionSetup B (new_function st) = Inr st1"
    and st2: "llvm_ast B a st1 = Inr st2" and st': "functionTeardown B st2 = Inr st'"
    by (auto simp: llvm_visit_def bindE_eq_Inr)
  have ok1: "blocks_ok {insert_point st1} {} st1" "m_overriden_variables st1 = m_overriden_variables st"
    using entry [OF st1] by (simp_all add: new_function_def)
  note g = ast_grows [OF st2]
  from fillsD [OF grows_fills [OF g], of "{}" "{}"] ok1(1) have "blocks_ok {insert_point st2} {} st2" by simp
  from exit [OF st' this] g ok1(2) show ?thesis
    by (simp add: grows_def blocks_ok_finished)
qed

end

end
