(* ===== verification/Php_Bindings.thy ===== *)
theory Php_Bindings
  imports Llvm_Laws
begin

text \<open>
  The bindings of the PHP extension: \<open>src/php/php_bindings.cpp\<close>, which generates the calls of the
  run-time functions of \<open>src/php/php_bindings_functions.c\<close>, and keeps the number of references the
  generated code holds on a PHP value.
\<close>

section \<open>The module of the run-time functions\<close>

abbreviation zval :: ltype where "zval \<equiv> StructTy ''struct._zval_struct''"
abbreviation zval_ptr :: ltype where "zval_ptr \<equiv> PointerTy zval"
abbreviation hashtable_ptr :: ltype where "hashtable_ptr \<equiv> PointerTy (StructTy ''struct._hashtable'')"
abbreviation bucket_ptr :: ltype where "bucket_ptr \<equiv> PointerTy (StructTy ''struct.bucket'')"
abbreviation buffer_ptr :: ltype where "buffer_ptr \<equiv> PointerTy (StructTy ''struct.template_buffer'')"
abbreviation c_string_type :: ltype where "c_string_type \<equiv> PointerTy (IntTy 8)"

text \<open>
  The functions of the C file with the types of their parameters and results: \<open>bool\<close> is \<open>i1\<close> as a
  parameter or result and \<open>i8\<close> in memory, \<open>long\<close> is \<open>i64\<close>, \<open>uint\<close> and \<open>zend_uint\<close> are \<open>i32\<close>,
  \<open>HashPosition\<close> is a pointer to a bucket.
\<close>

definition module_functions :: "(string \<times> ltype list \<times> ltype) list" where
  "module_functions =
     [(''php_prototype'', [hashtable_ptr, buffer_ptr, hashtable_ptr], VoidTy),
      (''print_double'', [DoubleTy, buffer_ptr], VoidTy),
      (''print_integer'', [IntTy 64, buffer_ptr], VoidTy),
      (''print_boolean'', [IntTy 1, buffer_ptr], VoidTy),
      (''print_string'', [c_string_type, buffer_ptr], VoidTy),
      (''print_variant'', [zval_ptr, buffer_ptr], VoidTy),
      (''compare_variant'', [IntTy 16, PointerTy (IntTy 8), zval_ptr, zval_ptr], IntTy 1),
      (''binary_variant_operation'', [IntTy 8, PointerTy zval_ptr, zval_ptr, zval_ptr], IntTy 1),
      (''unary_variant_operation'', [IntTy 8, PointerTy zval_ptr, zval_ptr], IntTy 1),
      (''get_value_from_hashtable'', [hashtable_ptr, c_string_type, IntTy 32], zval_ptr),
      (''get_attribute'', [zval_ptr, c_string_type, IntTy 32], zval_ptr),
      (''do_method_call'', [hashtable_ptr, c_string_type, IntTy 32, IntTy 32, PointerTy zval_ptr], zval_ptr),
      (''forloop_init'', [zval_ptr, PointerTy bucket_ptr], hashtable_ptr),
      (''forloop_getvalues'', [hashtable_ptr, PointerTy bucket_ptr, PointerTy zval_ptr, PointerTy zval_ptr], VoidTy),
      (''forloop_next'', [hashtable_ptr, PointerTy bucket_ptr], IntTy 1),
      (''set_zval_double'', [zval_ptr, DoubleTy], VoidTy),
      (''set_zval_bool'', [zval_ptr, IntTy 1], VoidTy),
      (''set_zval_int'', [zval_ptr, IntTy 64], VoidTy),
      (''set_zval_string_nocopy'', [zval_ptr, c_string_type], VoidTy),
      (''destruct_zval'', [zval_ptr], VoidTy)]"

definition findFunction :: "string \<Rightarrow> (string \<times> ltype list \<times> ltype) res" where
  "findFunction name =
     (case map_of module_functions name of
        Some (params, result) \<Rightarrow> Inr (name, params, result)
      | None \<Rightarrow> Inl (Throws (RuntimeError
          (''Couldn'' @ [squote] @ ''t find function '' @ [squote] @ name @ [squote]))))"

definition getArgumentAtIdx :: "nat \<Rightarrow> lvalue res" where
  "getArgumentAtIdx argIdx =
     bindE (findFunction ''php_prototype'') (\<lambda>(_, params, _).
       if length params \<le> argIdx
       then Inl (Throws (OutOfRange ''Function has less arguments than what was asked for''))
       else Inr (Function_argument argIdx (params ! argIdx)))"

text \<open>A call of a run-time function.\<close>

definition runtime_call :: "string \<Rightarrow> lvalue list \<Rightarrow> (lvalue, 'b) gen" where
  "runtime_call name as st = bindE (findFunction name) (\<lambda>f. CreateCall f as st)"

section \<open>The state of the bindings\<close>

text \<open>
  \<open>m_forLoopMetadata\<close> has the hash table and the position of a loop under its iterable;
  \<open>m_variablesRefCount\<close> the references on a value, where -1 is a value that is not to be destroyed.
\<close>

record php_state =
  m_forLoopMetadata :: "lvalue \<Rightarrow> (lvalue \<times> lvalue) option"
  m_variablesRefCount :: "lvalue \<Rightarrow> int option"

definition new_php_bindings :: php_state where
  "new_php_bindings = \<lparr>m_forLoopMetadata = Map.empty, m_variablesRefCount = Map.empty\<rparr>"

type_synonym php_llvm_state = "php_state llvm_state"

definition set_refcount :: "lvalue \<Rightarrow> int \<Rightarrow> php_llvm_state \<Rightarrow> php_llvm_state" where
  "set_refcount v n st = st\<lparr>bindings_state := (bindings_state st)
     \<lparr>m_variablesRefCount := (m_variablesRefCount (bindings_state st))(v \<mapsto> n)\<rparr>\<rparr>"

definition set_metadata :: "lvalue \<Rightarrow> (lvalue \<times> lvalue) option \<Rightarrow> php_llvm_state \<Rightarrow> php_llvm_state" where
  "set_metadata v m st = st\<lparr>bindings_state := (bindings_state st)
     \<lparr>m_forLoopMetadata := (m_forLoopMetadata (bindings_state st))(v := m)\<rparr>\<rparr>"

section \<open>Operations\<close>

definition createRetVoidIfCallFails :: "lvalue \<Rightarrow> 'b llvm_state \<Rightarrow> 'b llvm_state" where
  "createRetVoidIfCallFails callResult st =
     (let (successBlock, st) = new_block_in_function st;
          (failBlock, st) = new_block_in_function st
      in SetInsertPoint successBlock (CreateRetVoid (SetInsertPoint failBlock
           (CreateCondBr callResult successBlock failBlock st))))"

text \<open>The layout of \<open>zval\<close> is the one of no other structure of the module.\<close>

definition php_isVariantType :: "ltype \<Rightarrow> bool" where
  "php_isVariantType t = (t = zval_ptr)"

definition getPrintMethodForType :: "ltype \<Rightarrow> string res" where
  "getPrintMethodForType type =
     (if type = DoubleTy then Inr ''print_double''
      else if type = IntTy 1 then Inr ''print_boolean''
      else if type = IntTy 64 then Inr ''print_integer''
      else if type = c_string_type then Inr ''print_string''
      else if php_isVariantType type then Inr ''print_variant''
      else Inl (Throws (RuntimeError ''Unknown type'')))"

definition php_createPrintCall :: "lvalue \<Rightarrow> (lvalue, php_state) gen" where
  "php_createPrintCall value st =
     bindE (getPrintMethodForType (getType value)) (\<lambda>printMethod.
       bindE (getArgumentAtIdx 1) (\<lambda>buffer. runtime_call printMethod [value, buffer] st))"

definition php_createForLoopInit :: "lvalue \<Rightarrow> (lvalue, php_state) gen" where
  "php_createForLoopInit iterable st =
     bindE (CreateAlloca bucket_ptr 1 st) (\<lambda>(hashPosition, st).
     bindE (runtime_call ''forloop_init'' [iterable, hashPosition] st) (\<lambda>(hashTable, st).
       pointer_comparison ''ICmpNE'' hashTable (Null_pointer hashtable_ptr)
         (set_metadata iterable (Some (hashTable, hashPosition)) st)))"

definition php_createForLoopCleanup :: "lvalue \<Rightarrow> php_llvm_state \<Rightarrow> php_llvm_state res" where
  "php_createForLoopCleanup iterable st = Inr (set_metadata iterable None st)"

text \<open>A missing entry is created with two null pointers, which then are arguments of a call.\<close>

definition php_createForLoopNextIteration :: "lvalue \<Rightarrow> (lvalue, php_state) gen" where
  "php_createForLoopNextIteration iterable st =
     (case m_forLoopMetadata (bindings_state st) iterable of
        None \<Rightarrow> Inl (Undefined NullDeref)
      | Some (hashTable, hashPosition) \<Rightarrow> runtime_call ''forloop_next'' [hashTable, hashPosition] st)"

text \<open>The slot of a variable, or a null pointer where the loop has no such variable.\<close>

definition variable_slot :: "bool \<Rightarrow> (lvalue, php_state) gen" where
  "variable_slot has_variable st =
     (if has_variable then CreateAlloca zval_ptr 1 st else Inr (Null_pointer (PointerTy zval_ptr), st))"

definition load_variable :: "bool \<Rightarrow> lvalue \<Rightarrow> int \<Rightarrow> (lvalue option, php_state) gen" where
  "load_variable has_variable slot refcount st =
     (if has_variable
      then bindE (CreateLoad slot st) (\<lambda>(v, st). Inr (Some v, set_refcount v refcount st))
      else Inr (None, st))"

definition php_createForLoopGetVariables ::
    "lvalue \<Rightarrow> bool \<Rightarrow> bool \<Rightarrow> (lvalue option \<times> lvalue option, php_state) gen" where
  "php_createForLoopGetVariables iterable hasKey hasValue st =
     (case m_forLoopMetadata (bindings_state st) iterable of
        None \<Rightarrow> Inl (Undefined NullDeref)
      | Some (hashTable, hashPosition) \<Rightarrow>
          bindE (variable_slot hasKey st) (\<lambda>(keyVariable, st).
          bindE (variable_slot hasValue st) (\<lambda>(valueVariable, st).
          bindE (runtime_call ''forloop_getvalues'' [hashTable, hashPosition, valueVariable, keyVariable] st)
            (\<lambda>(_, st).
          bindE (load_variable hasKey keyVariable 1 st) (\<lambda>(key, st).
          bindE (load_variable hasValue valueVariable (-1) st) (\<lambda>(value, st).
            Inr ((key, value), st)))))))"

definition wrappingFunction :: "ltype \<Rightarrow> string res" where
  "wrappingFunction type =
     (if type = DoubleTy then Inr ''set_zval_double''
      else if type = IntTy 1 then Inr ''set_zval_bool''
      else if type = IntTy 64 then Inr ''set_zval_int''
      else if type = c_string_type then Inr ''set_zval_string_nocopy''
      else Inl (Throws (RuntimeError ''Unknown type'')))"

definition wrapAsVariant :: "lvalue \<Rightarrow> (lvalue, php_state) gen" where
  "wrapAsVariant value st =
     (if php_isVariantType (getType value) then Inr (value, st)
      else bindE (wrappingFunction (getType value)) (\<lambda>f.
        bindE (CreateAlloca zval 1 st) (\<lambda>(z, st).
        bindE (runtime_call f [z, value] st) (\<lambda>(_, st). Inr (z, set_refcount z (-1) st)))))"

definition no_refcount :: failure where
  "no_refcount = Throws (RuntimeError ''Variable found without refcount!'')"

definition php_variableGoesOutOfScope :: "lvalue \<Rightarrow> php_llvm_state \<Rightarrow> php_llvm_state res" where
  "php_variableGoesOutOfScope value st =
     (case m_variablesRefCount (bindings_state st) value of
        None \<Rightarrow> Inl no_refcount
      | Some n \<Rightarrow>
          if n = -1 then Inr st
          else let st = set_refcount value (n - 1) st
               in if n - 1 = 0
                  then bindE (runtime_call ''destruct_zval'' [value] st) (\<lambda>(_, st). Inr st)
                  else Inr st)"

definition php_getNewReferenceForVariable :: "lvalue \<Rightarrow> (lvalue, php_state) gen" where
  "php_getNewReferenceForVariable value st =
     (case m_variablesRefCount (bindings_state st) value of
        None \<Rightarrow> Inl no_refcount
      | Some n \<Rightarrow> Inr (value, if n \<noteq> -1 then set_refcount value (n + 1) st else st))"

definition php_createVariantComparison :: "comparison_op \<Rightarrow> lvalue \<Rightarrow> lvalue \<Rightarrow> (lvalue, php_state) gen" where
  "php_createVariantComparison op left right st =
     bindE (wrapAsVariant left st) (\<lambda>(left, st). bindE (wrapAsVariant right st) (\<lambda>(right, st).
     bindE (CreateAlloca (IntTy 8) 1 st) (\<lambda>(ptrToResult, st).
     bindE (runtime_call ''compare_variant'' [Constant_int 16 (comparison_code op), ptrToResult, left, right] st)
       (\<lambda>(callResult, st).
     bindE (CreateLoad ptrToResult (createRetVoidIfCallFails callResult st)) (\<lambda>(loaded, st).
     bindE (CreateTrunc loaded 1 st) (\<lambda>(result, st).
     bindE (php_variableGoesOutOfScope left st) (\<lambda>st.
     bindE (php_variableGoesOutOfScope right st) (\<lambda>st. Inr (result, st)))))))))"

definition php_createVariantBinaryOperation :: "binary_op \<Rightarrow> lvalue \<Rightarrow> lvalue \<Rightarrow> (lvalue, php_state) gen" where
  "php_createVariantBinaryOperation op left right st =
     bindE (wrapAsVariant left st) (\<lambda>(left, st). bindE (wrapAsVariant right st) (\<lambda>(right, st).
     bindE (CreateAlloca zval_ptr 1 st) (\<lambda>(ptrToResult, st).
     bindE (runtime_call ''binary_variant_operation'' [Constant_int 8 (binary_code op), ptrToResult, left, right] st)
       (\<lambda>(callResult, st).
     bindE (CreateLoad ptrToResult (createRetVoidIfCallFails callResult st)) (\<lambda>(value, st).
     bindE (php_variableGoesOutOfScope left (set_refcount value 1 st)) (\<lambda>st.
     bindE (php_variableGoesOutOfScope right st) (\<lambda>st. Inr (value, st))))))))"

definition php_createVariantUnaryOperation :: "unary_op \<Rightarrow> lvalue \<Rightarrow> (lvalue, php_state) gen" where
  "php_createVariantUnaryOperation op val st =
     bindE (wrapAsVariant val st) (\<lambda>(val, st).
     bindE (CreateAlloca zval_ptr 1 st) (\<lambda>(ptrToResult, st).
     bindE (runtime_call ''unary_variant_operation''
              [Constant_int 8 (code_of_char (unary_char op)), ptrToResult, val] st) (\<lambda>(callResult, st).
     bindE (CreateLoad ptrToResult (createRetVoidIfCallFails callResult st)) (\<lambda>(value, st).
     bindE (php_variableGoesOutOfScope val (set_refcount value 1 st)) (\<lambda>st. Inr (value, st))))))"

definition php_createVariableLookup :: "string \<Rightarrow> (lvalue, php_state) gen" where
  "php_createVariableLookup variableName st =
     bindE (getArgumentAtIdx 0) (\<lambda>assignments.
     bindE (runtime_call ''get_value_from_hashtable''
              [assignments, Global_string variableName, Constant_int 32 (int (length variableName))] st)
       (\<lambda>(value, st). Inr (value, set_refcount value (-1) st)))"

text \<open>The arguments of a method call are stored one after the other; the wrapped ones are returned.\<close>

fun store_arguments :: "lvalue \<Rightarrow> nat \<Rightarrow> lvalue list \<Rightarrow> (lvalue list, php_state) gen" where
  "store_arguments argumentsValue index [] st = Inr ([], st)"
| "store_arguments argumentsValue index (argument # arguments) st =
     bindE (CreateInBoundsGEP argumentsValue index st) (\<lambda>(ptr, st).
     bindE (wrapAsVariant argument st) (\<lambda>(stored, st).
     bindE (CreateStore stored ptr st) (\<lambda>st.
     bindE (store_arguments argumentsValue (Suc index) arguments st) (\<lambda>(valuesToDestroy, st).
       Inr (if php_isVariantType (getType argument) then valuesToDestroy else stored # valuesToDestroy, st)))))"

fun release_all :: "lvalue list \<Rightarrow> php_llvm_state \<Rightarrow> php_llvm_state res" where
  "release_all [] st = Inr st"
| "release_all (v # vs) st = bindE (php_variableGoesOutOfScope v st) (release_all vs)"

definition pass_arguments :: "lvalue list \<Rightarrow> (lvalue \<times> lvalue list, php_state) gen" where
  "pass_arguments arguments st =
     (if arguments = [] then Inr ((Null_pointer (PointerTy zval_ptr), []), st)
      else bindE (CreateAlloca zval_ptr (length arguments) st) (\<lambda>(argumentsValue, st).
           bindE (store_arguments argumentsValue 0 arguments st) (\<lambda>(valuesToDestroy, st).
             Inr ((argumentsValue, valuesToDestroy), st))))"

definition php_createMethodCall :: "string \<Rightarrow> lvalue list \<Rightarrow> (lvalue, php_state) gen" where
  "php_createMethodCall methodName arguments st =
     bindE (pass_arguments arguments st) (\<lambda>((argumentsValue, valuesToDestroy), st).
     bindE (getArgumentAtIdx 2) (\<lambda>func_table.
     bindE (runtime_call ''do_method_call''
              [func_table, Global_string methodName, Constant_int 32 (int (length methodName)),
               Constant_int 32 (int (length arguments)), argumentsValue] st) (\<lambda>(returnValue, st).
     bindE (release_all valuesToDestroy (set_refcount returnValue 1 st)) (\<lambda>st.
     bindE (pointer_comparison ''ICmpNE'' returnValue (Null_pointer (getType returnValue)) st) (\<lambda>(callFailed, st).
       Inr (returnValue, createRetVoidIfCallFails callFailed st))))))"

definition php_createGetAttribute :: "string \<Rightarrow> lvalue \<Rightarrow> (lvalue, php_state) gen" where
  "php_createGetAttribute attribute variable st =
     bindE (runtime_call ''get_attribute''
              [variable, Global_string attribute, Constant_int 32 (int (length attribute))] st) (\<lambda>(value, st).
     bindE (php_variableGoesOutOfScope variable (set_refcount value (-1) st)) (\<lambda>st. Inr (value, st)))"

definition php_functionTeardown :: "php_llvm_state \<Rightarrow> php_llvm_state res" where
  "php_functionTeardown st =
     (let st = CreateRetVoid st
      in Inr (st\<lparr>bindings_state := (bindings_state st)\<lparr>m_variablesRefCount := Map.empty\<rparr>\<rparr>))"

definition php_bindings :: "php_state llvm_bindings" where
  "php_bindings =
     \<lparr>isVariantType = php_isVariantType, functionSetup = default_functionSetup,
      functionTeardown = php_functionTeardown,
      variableGoesOutOfScope = php_variableGoesOutOfScope,
      getNewReferenceForVariable = php_getNewReferenceForVariable,
      createPrintCall = php_createPrintCall, createForLoopInit = php_createForLoopInit,
      createForLoopCleanup = php_createForLoopCleanup,
      createForLoopNextIteration = php_createForLoopNextIteration,
      createForLoopGetVariables = php_createForLoopGetVariables,
      createVariantComparison = php_createVariantComparison,
      createVariantBinaryOperation = php_createVariantBinaryOperation,
      createVariantUnaryOperation = php_createVariantUnaryOperation,
      createVariableLookup = php_createVariableLookup, createMethodCall = php_createMethodCall,
      createGetAttribute = php_createGetAttribute\<rparr>"

end
