(* ===== verification/Php_Laws.thy ===== *)
theory Php_Laws
  imports Php_Bindings
begin

text \<open>
  The bindings of the PHP extension keep the contract of the visitor, so every template that
  compiles becomes a well-formed function.
\<close>

section \<open>Growth of the generated code\<close>

definition grown :: "'b llvm_state \<Rightarrow> ('a \<times> 'b llvm_state) res \<Rightarrow> bool" where
  "grown st r \<longleftrightarrow> (\<forall>v st'. r = Inr (v, st') \<longrightarrow> grows st st')"

definition grown_step :: "'b llvm_state \<Rightarrow> 'b llvm_state res \<Rightarrow> bool" where
  "grown_step st r \<longleftrightarrow> (\<forall>st'. r = Inr st' \<longrightarrow> grows st st')"

lemma sound_gen_grown: "sound_gen m \<longleftrightarrow> (\<forall>st. grown st (m st))"
  by (auto simp: sound_gen_def grown_def)

lemma sound_step_grown: "sound_step m \<longleftrightarrow> (\<forall>st. grown_step st (m st))"
  by (auto simp: sound_step_def grown_step_def)

named_theorems growth "pieces of generated code"

lemma grown_bind [growth]:
  "grown st m \<Longrightarrow> (\<And>x st1. grown st1 (f x st1)) \<Longrightarrow> grown st (bindE m (\<lambda>(x, st1). f x st1))"
  by (fastforce simp: grown_def bindE_eq_Inr intro: grows_trans)

lemma grown_bind_step [growth]:
  "grown_step st m \<Longrightarrow> (\<And>st1. grown st1 (f st1)) \<Longrightarrow> grown st (bindE m f)"
  by (fastforce simp: grown_def grown_step_def bindE_eq_Inr intro: grows_trans)

lemma grown_step_bind [growth]:
  "grown st m \<Longrightarrow> (\<And>x st1. grown_step st1 (f x st1)) \<Longrightarrow> grown_step st (bindE m (\<lambda>(x, st1). f x st1))"
  by (fastforce simp: grown_def grown_step_def bindE_eq_Inr intro: grows_trans)

lemma grown_step_bind_step [growth]:
  "grown_step st m \<Longrightarrow> (\<And>st1. grown_step st1 (f st1)) \<Longrightarrow> grown_step st (bindE m f)"
  by (fastforce simp: grown_step_def bindE_eq_Inr intro: grows_trans)

lemma grown_simps [simp]:
  "grown st (Inl k)" "grown st (Inr (v, st')) \<longleftrightarrow> grows st st'"
  "grown_step st (Inl k)" "grown_step st (Inr st') \<longleftrightarrow> grows st st'"
  by (auto simp: grown_def grown_step_def)

lemma grown_from [growth]:
  "grows st st1 \<Longrightarrow> grown st1 r \<Longrightarrow> grown st r" "grows st st1 \<Longrightarrow> grown_step st1 s \<Longrightarrow> grown_step st s"
  by (auto simp: grown_def grown_step_def intro: grows_trans)

lemma grown_operations [growth, simp]:
  "grown st (CreateAlloca t n st)" "grown st (CreateLoad l st)" "grown st (CreateInBoundsGEP l n st)"
  "grown st (CreateTrunc l w st)" "grown st (CreateCall f as st)" "grown st (pointer_comparison name l r st)"
  "grown_step st (CreateStore l r st)"
  by (rule sound_operations [unfolded sound_gen_grown, rule_format]
      sound_store [unfolded sound_step_grown, rule_format])+

lemma arguments_of_template [simp]:
  "getArgumentAtIdx 0 = Inr (Function_argument 0 hashtable_ptr)"
  "getArgumentAtIdx (Suc 0) = Inr (Function_argument 1 buffer_ptr)"
  "getArgumentAtIdx 2 = Inr (Function_argument 2 hashtable_ptr)"
  by (simp_all add: getArgumentAtIdx_def findFunction_def module_functions_def eval_nat_numeral)

lemma grows_bindings_state [growth, simp]: "grows st (st\<lparr>bindings_state := b\<rparr>)"
  by (rule grows_cong) simp_all

lemma grows_refcount [growth, simp]: "grows st (set_refcount v n st)" "grows st (set_metadata v m st)"
  by (simp_all add: set_refcount_def set_metadata_def)

lemma runtime_call_grown [growth, simp]: "grown st (runtime_call name as st)"
  by (cases "findFunction name") (simp_all add: runtime_call_def)

lemma grows_test_call [growth]:
  "getType c = IntTy 1 \<Longrightarrow> grows st (createRetVoidIfCallFails c st)"
  unfolding createRetVoidIfCallFails_def by (auto split: prod.split intro: grows_test)

lemma grown_after [simp]:
  "grown st (runtime_call name as (set_refcount v n st))"
  "grown st (pointer_comparison name l r (set_metadata v m st))"
  by (rule grown_from(1) [OF grows_refcount(1) runtime_call_grown])
    (rule grown_from(1) [OF grows_refcount(2) grown_operations(6)])

section \<open>Results of the run-time functions\<close>

lemma CreateCall_type:
  "CreateCall (name, params, result) as st = Inr (v, st') \<Longrightarrow> getType v = result \<and> map getType as = params"
  by (auto simp: CreateCall_def request_def split: if_splits)

lemma runtime_call_type:
  assumes "runtime_call name as st = Inr (v, st')"
  obtains params result where "map_of module_functions name = Some (params, result)"
    "getType v = result" "map getType as = params"
  using assms CreateCall_type
  by (fastforce simp: runtime_call_def findFunction_def bindE_eq_Inr split: option.splits)

lemma runtime_results:
  "runtime_call ''compare_variant'' as st = Inr (v, st') \<Longrightarrow> getType v = IntTy 1"
  "runtime_call ''binary_variant_operation'' as st = Inr (v, st') \<Longrightarrow> getType v = IntTy 1"
  "runtime_call ''unary_variant_operation'' as st = Inr (v, st') \<Longrightarrow> getType v = IntTy 1"
  "runtime_call ''forloop_next'' as st = Inr (v, st') \<Longrightarrow> getType v = IntTy 1"
  "runtime_call ''get_value_from_hashtable'' as st = Inr (v, st') \<Longrightarrow> getType v = zval_ptr"
  "runtime_call ''get_attribute'' as st = Inr (v, st') \<Longrightarrow> getType v = zval_ptr \<and> getType (hd as) = zval_ptr"
  "runtime_call ''do_method_call'' as st = Inr (v, st') \<Longrightarrow> getType v = zval_ptr"
  "runtime_call ''forloop_init'' as st = Inr (v, st') \<Longrightarrow> getType v = hashtable_ptr \<and> getType (hd as) = zval_ptr"
  by (erule runtime_call_type; force simp: module_functions_def)+

lemma pointer_comparison_type: "pointer_comparison name l r st = Inr (v, st') \<Longrightarrow> getType v = IntTy 1"
  by (auto simp: pointer_comparison_def request_def split: if_splits)

section \<open>The contract\<close>

lemma wrap_grown [growth, simp]: "grown st (wrapAsVariant v st)"
  by (cases "wrappingFunction (getType v)") (auto simp: wrapAsVariant_def intro!: grown_bind)

lemma scope_grown [growth, simp]: "grown_step st (php_variableGoesOutOfScope v st)"
  by (auto simp: php_variableGoesOutOfScope_def Let_def split: option.split intro!: grown_step_bind)

lemma scope_after_grown [simp]: "grown_step st (php_variableGoesOutOfScope v (set_refcount w n st))"
  by (rule grown_from(2) [OF grows_refcount(1) scope_grown])

lemma reference_grown [simp]: "grown st (php_getNewReferenceForVariable v st)"
  by (auto simp: php_getNewReferenceForVariable_def split: option.split)

lemma print_grown [simp]: "grown st (php_createPrintCall v st)"
  by (cases "getPrintMethodForType (getType v)") (simp_all add: php_createPrintCall_def)

lemma lookup_grown [simp]: "grown st (php_createVariableLookup name st)"
  by (auto simp: php_createVariableLookup_def intro!: grown_bind)

lemma attribute_grown [simp]: "grown st (php_createGetAttribute name v st)"
  by (auto simp: php_createGetAttribute_def intro!: grown_bind grown_bind_step)

lemma init_grown [simp]: "grown st (php_createForLoopInit v st)"
  by (auto simp: php_createForLoopInit_def intro!: grown_bind)

lemma next_grown [simp]: "grown st (php_createForLoopNextIteration v st)"
  by (auto simp: php_createForLoopNextIteration_def split: option.split)

lemma variables_grown [simp]: "grown st (php_createForLoopGetVariables v hasKey hasValue st)"
  by (auto simp: php_createForLoopGetVariables_def variable_slot_def load_variable_def split: option.split
      intro!: grown_bind)

lemma test_grown:
  "(\<And>v st1. r = Inr (v, st1) \<Longrightarrow> getType v = IntTy 1) \<Longrightarrow> grown st r \<Longrightarrow>
   (\<And>v st1. grown st1 (f v st1)) \<Longrightarrow>
   grown st (bindE r (\<lambda>(v, st1). f v (createRetVoidIfCallFails v st1)))"
proof (cases r)
  case (Inr x)
  obtain v st1 where x: "x = (v, st1)" by (cases x)
  assume "\<And>v st1. r = Inr (v, st1) \<Longrightarrow> getType v = IntTy 1" "grown st r"
  with Inr x have "getType v = IntTy 1" "grows st st1" by (blast, simp)
  then have "grows st (createRetVoidIfCallFails v st1)"
    using grows_trans grows_test_call by blast
  moreover assume "\<And>v st1. grown st1 (f v st1)"
  ultimately have "grown st (f v (createRetVoidIfCallFails v st1))" by (rule grown_from(1))
  then show ?thesis using Inr x by simp
qed simp

lemma comparison_grown [simp]: "grown st (php_createVariantComparison op l r st)"
  unfolding php_createVariantComparison_def
  by (intro test_grown grown_bind grown_bind_step) (auto dest: runtime_results)

lemma binary_grown [simp]: "grown st (php_createVariantBinaryOperation op l r st)"
  unfolding php_createVariantBinaryOperation_def
  by (intro test_grown grown_bind grown_bind_step) (auto dest: runtime_results)

lemma unary_grown [simp]: "grown st (php_createVariantUnaryOperation op v st)"
  unfolding php_createVariantUnaryOperation_def
  by (intro test_grown grown_bind grown_bind_step) (auto dest: runtime_results)

lemma store_grown [simp]: "grown st (store_arguments p n as st)"
  by (induction as arbitrary: n st) (auto intro!: grown_bind grown_bind_step)

lemma release_all_grown [simp]: "grown_step st (release_all vs st)"
  by (induction vs arbitrary: st) (auto intro!: grown_step_bind_step)

lemma release_all_after_grown [simp]: "grown_step st (release_all vs (set_refcount w n st))"
  by (rule grown_from(2) [OF grows_refcount(1) release_all_grown])

lemma call_grown [simp]: "grown st (php_createMethodCall name as st)"
proof -
  have "grown st (pass_arguments as st)"
    by (auto simp: pass_arguments_def intro!: grown_bind)
  then show ?thesis
    unfolding php_createMethodCall_def arguments_of_template bindE_simps case_prod_beta'
    by (intro grown_bind [unfolded case_prod_beta'] test_grown [unfolded case_prod_beta'] grown_bind_step)
      (auto dest: pointer_comparison_type)
qed

lemma entry_block:
  assumes "default_functionSetup st = Inr st1" "next_block st = 0" "layout st = []" "code st = []"
  shows "blocks_ok {insert_point st1} {} st1" "m_overriden_variables st1 = m_overriden_variables st"
  using assms by (auto simp: default_functionSetup_def new_block_in_function_def new_block_def push_block_def
      SetInsertPoint_def blocks_ok_def)

lemma return_block:
  assumes "blocks_ok {insert_point st} {} st" "php_functionTeardown st = Inr st1"
  shows "blocks_ok {} {} st1" "m_overriden_variables st1 = m_overriden_variables st"
proof -
  have "blocks_ok {} {} (CreateRetVoid st)"
    unfolding CreateRetVoid_def by (rule blocks_ok_terminate) (use assms(1) in auto)
  then show "blocks_ok {} {} st1"
    using assms(2) by (auto simp: php_functionTeardown_def blocks_ok_def Let_def)
  show "m_overriden_variables st1 = m_overriden_variables st"
    using assms(2) by (auto simp: php_functionTeardown_def CreateRetVoid_def emit_instr_def Let_def)
qed

lemma returns_bool:
  "returns_type (\<lambda>t. t = IntTy 1) (php_createForLoopInit v)"
  "returns_type (\<lambda>t. t = IntTy 1) (php_createForLoopNextIteration v)"
  using pointer_comparison_type runtime_results(4)
  by (auto simp: returns_type_def php_createForLoopInit_def php_createForLoopNextIteration_def bindE_eq_Inr
      split: option.splits)

interpretation php: llvm_contract php_bindings
  by unfold_locales
    (auto simp: php_bindings_def sound_gen_grown sound_step_grown entry_block return_block returns_bool
      php_createForLoopCleanup_def simp del: One_nat_def)

text \<open>The equations that evaluate the visitor and the bindings on a concrete template.\<close>

lemmas php_eval =
  llvm_visit_def new_llvm_visitor_def new_php_bindings_def new_function_def default_functionSetup_def
  new_block_in_function_def new_block_def push_block_def SetInsertPoint_def php_createPrintCall_def
  getPrintMethodForType_def runtime_call_def findFunction_def module_functions_def CreateCall_def
  request_def emit_instr_def CreateCondBr_def CreateBr_def CreateRetVoid_def php_functionTeardown_def
  php_isVariantType_def php_createVariableLookup_def set_refcount_def set_metadata_def
  php_variableGoesOutOfScope_def php_createForLoopInit_def CreateAlloca_def CreateLoad_def CreateTrunc_def
  pointer_comparison_def php_createForLoopGetVariables_def variable_slot_def load_variable_def
  set_loop_variable_def restore_loop_variable_def release_loop_variable_def
  php_createForLoopNextIteration_def php_createForLoopCleanup_def php_getNewReferenceForVariable_def
  variable_name_of_def override_def llvm_comparison_def php_createVariantComparison_def wrapAsVariant_def
  wrappingFunction_def createRetVoidIfCallFails_def php_bindings_def Let_def

text \<open>
  C22: (well-formed functions) Every template that compiles with the PHP bindings becomes a function
  in which each basic block is listed once and ends with its only terminator, the entry block is the
  first and has no predecessor, every branch goes to a block of the function and every condition is of
  type \<open>i1\<close>; and the visitor's table of loop variables is as it was before.
\<close>

theorem compiled_functions_are_well_formed:
  assumes "llvm_visit php_bindings a st = Inr st'"
  shows "well_formed_function st' \<and> m_overriden_variables st' = m_overriden_variables st"
  using assms by (rule php.visit_well_formed)

theorem compiled_functions_witness:
  "\<exists>st'. llvm_visit php_bindings (ForBlock None (Some (VariableReference ''y'')) (VariableReference ''x'')
       (Some (PrintBlock (VariableReference ''y''))) None) (new_llvm_visitor new_php_bindings) = Inr st' \<and>
     well_formed_function st' \<and> m_overriden_variables st' = Map.empty"
proof -
  let ?a = "ForBlock None (Some (VariableReference ''y'')) (VariableReference ''x'')
       (Some (PrintBlock (VariableReference ''y''))) None" and ?st = "new_llvm_visitor new_php_bindings"
  have "\<not> isl (llvm_visit php_bindings ?a ?st)" by (simp add: php_eval)
  then obtain st' where st': "llvm_visit php_bindings ?a ?st = Inr st'"
    by (cases "llvm_visit php_bindings ?a ?st") simp_all
  moreover have "m_overriden_variables ?st = Map.empty" by (simp add: new_llvm_visitor_def)
  ultimately show ?thesis using compiled_functions_are_well_formed [OF st'] by metis
qed

end
