(* ===== verification/Php_Types.thy ===== *)
theory Php_Types
  imports Php_Laws Parser_Laws
begin

text \<open>
  The types of the values that the PHP bindings generate: they follow the static types of the
  expressions, except that the negation of a variant is a variant again; and what follows for the
  templates that compile.
\<close>

section \<open>Results of the operations\<close>

lemma CreateAlloca_type: "CreateAlloca t n st = Inr (v, st') \<Longrightarrow> getType v = PointerTy t"
  by (auto simp: CreateAlloca_def request_def)

lemma CreateLoad_type: "CreateLoad p st = Inr (v, st') \<Longrightarrow> getType p = PointerTy t \<Longrightarrow> getType v = t"
  by (auto simp: CreateLoad_def request_def)

lemma CreateTrunc_type: "CreateTrunc p w st = Inr (v, st') \<Longrightarrow> getType v = IntTy w"
  by (auto simp: CreateTrunc_def request_def split: if_splits)

lemmas builder_types = CreateAlloca_type CreateTrunc_type

lemma php_result_types:
  "php_createVariantComparison cop l r st = Inr (v, st') \<Longrightarrow> getType v = IntTy 1"
  "php_createVariantBinaryOperation bop l r st = Inr (v, st') \<Longrightarrow> getType v = zval_ptr"
  "php_createVariantUnaryOperation uop l st = Inr (v, st') \<Longrightarrow> getType v = zval_ptr"
  "php_createVariableLookup name st = Inr (v, st') \<Longrightarrow> getType v = zval_ptr"
  "php_createMethodCall name as st = Inr (v, st') \<Longrightarrow> getType v = zval_ptr"
  "php_createGetAttribute name l st = Inr (v, st') \<Longrightarrow> getType v = zval_ptr \<and> getType l = zval_ptr"
  "php_getNewReferenceForVariable l st = Inr (v, st') \<Longrightarrow> v = l"
  "php_createForLoopInit l st = Inr (v, st') \<Longrightarrow> getType l = zval_ptr"
  by (auto simp: php_createVariantComparison_def php_createVariantBinaryOperation_def
      php_createVariantUnaryOperation_def php_createVariableLookup_def php_createMethodCall_def
      php_createGetAttribute_def php_getNewReferenceForVariable_def php_createForLoopInit_def bindE_eq_Inr
      split: option.splits dest!: runtime_results builder_types dest: CreateLoad_type)

lemma variable_slot_type: "variable_slot has_variable st = Inr (s, st') \<Longrightarrow> getType s = PointerTy zval_ptr"
  by (auto simp: variable_slot_def CreateAlloca_def request_def split: if_splits)

lemma load_variable_type:
  "load_variable has_variable s n st = Inr (r, st') \<Longrightarrow> getType s = PointerTy zval_ptr \<Longrightarrow>
   pred_option (\<lambda>x. getType x = zval_ptr) r \<and> (r \<noteq> None \<longleftrightarrow> has_variable)"
  by (auto simp: load_variable_def CreateLoad_def request_def split: if_splits)

lemma loop_variable_types:
  assumes "php_createForLoopGetVariables l hasKey hasValue st = Inr ((k, v), st')"
  shows "pred_option (\<lambda>x. getType x = zval_ptr) k" "pred_option (\<lambda>x. getType x = zval_ptr) v"
    "k \<noteq> None \<longleftrightarrow> hasKey" "v \<noteq> None \<longleftrightarrow> hasValue"
proof -
  obtain ks st1 vs st2 st3 st4 where slots: "variable_slot hasKey st = Inr (ks, st1)"
      "variable_slot hasValue st1 = Inr (vs, st2)"
    and loads: "load_variable hasKey ks 1 st3 = Inr (k, st4)" "load_variable hasValue vs (-1) st4 = Inr (v, st')"
    using assms by (auto simp: php_createForLoopGetVariables_def bindE_eq_Inr split: option.splits)
  from load_variable_type [OF loads(1) variable_slot_type [OF slots(1)]]
    load_variable_type [OF loads(2) variable_slot_type [OF slots(2)]]
  show "pred_option (\<lambda>x. getType x = zval_ptr) k" "pred_option (\<lambda>x. getType x = zval_ptr) v"
    "k \<noteq> None \<longleftrightarrow> hasKey" "v \<noteq> None \<longleftrightarrow> hasValue" by simp_all
qed

lemma llvm_result_types:
  "int_operation name l r st = Inr (v, st') \<Longrightarrow> getType v = getType l \<and> is_int (getType l)"
  "int_comparison name l r st = Inr (v, st') \<Longrightarrow> getType v = IntTy 1"
  "double_operation name l r st = Inr (v, st') \<Longrightarrow> getType v = DoubleTy"
  "double_comparison name l r st = Inr (v, st') \<Longrightarrow> getType v = IntTy 1"
  "int_unary name l st = Inr (v, st') \<Longrightarrow> getType v = getType l \<and> is_int (getType l)"
  "to_double l st = Inr (v, st') \<Longrightarrow> getType v = DoubleTy \<and> (getType l = DoubleTy \<or> is_int (getType l))"
  by (auto simp: int_operation_def int_comparison_def double_operation_def double_comparison_def
      int_unary_def to_double_def request_def split: if_splits)

section \<open>Which values are zvals\<close>

fun yields_zval :: "expr \<Rightarrow> bool" where
  "yields_zval (BinaryOperation l r op) = (yields_zval l \<or> yields_zval r)"
| "yields_zval (UnaryOperation e op) = yields_zval e"
| "yields_zval (VariableReference x) = True"
| "yields_zval (GetAttribute e a) = True"
| "yields_zval (MethodCall m as) = True"
| "yields_zval e = False"

definition zval_table :: "'b llvm_state \<Rightarrow> bool" where
  "zval_table st \<longleftrightarrow> (\<forall>x v. m_overriden_variables st x = Some v \<longrightarrow> getType v = zval_ptr)"

lemma zval_table_grows: "grows st st' \<Longrightarrow> zval_table st' = zval_table st"
  by (simp add: zval_table_def grows_def)

lemma php_bindings_simps [simp]:
  "isVariantType php_bindings = php_isVariantType"
  "variableGoesOutOfScope php_bindings = php_variableGoesOutOfScope"
  "getNewReferenceForVariable php_bindings = php_getNewReferenceForVariable"
  "createPrintCall php_bindings = php_createPrintCall"
  "createForLoopInit php_bindings = php_createForLoopInit"
  "createForLoopCleanup php_bindings = php_createForLoopCleanup"
  "createForLoopNextIteration php_bindings = php_createForLoopNextIteration"
  "createForLoopGetVariables php_bindings = php_createForLoopGetVariables"
  "createVariantComparison php_bindings = php_createVariantComparison"
  "createVariantBinaryOperation php_bindings = php_createVariantBinaryOperation"
  "createVariantUnaryOperation php_bindings = php_createVariantUnaryOperation"
  "createVariableLookup php_bindings = php_createVariableLookup"
  "createMethodCall php_bindings = php_createMethodCall"
  "createGetAttribute php_bindings = php_createGetAttribute"
  "functionSetup php_bindings = default_functionSetup"
  "functionTeardown php_bindings = php_functionTeardown"
  by (simp_all add: php_bindings_def)

lemma operation_types:
  "llvm_binary_operation php_bindings bop l r st = Inr (v, st') \<Longrightarrow>
     getType v = (if getType l = zval_ptr \<or> getType r = zval_ptr then zval_ptr
       else if is_int (getType l) \<and> is_int (getType r) then getType l else DoubleTy)"
  "llvm_unary_operation php_bindings uop l st = Inr (v, st') \<Longrightarrow> getType v = getType l"
  by (auto simp: llvm_binary_operation_def llvm_unary_operation_def php_isVariantType_def bindE_eq_Inr
      split: if_splits unary_op.splits dest!: php_result_types(2,3) llvm_result_types)

lemma int_comparison_request_type:
  "int_comparison_request cop l r st = Inr (v, st') \<Longrightarrow>
   getType v = (if cop \<in> {And, Or} then getType l else IntTy 1) \<and> (cop \<in> {And, Or} \<longrightarrow> is_int (getType l))"
  by (cases cop) (auto dest: llvm_result_types)

lemma double_comparison_request_type:
  "double_comparison_request cop l r st = Inr (v, st') \<Longrightarrow> getType l = DoubleTy \<Longrightarrow> getType v = IntTy 1"
  by (cases cop) (auto dest: llvm_result_types)

lemma comparison_type:
  "llvm_comparison php_bindings cop l r st = Inr (v, st') \<Longrightarrow>
     if cop \<in> {And, Or} \<and> is_int (getType l) \<and> is_int (getType r) then getType v = getType l
     else getType v = IntTy 1"
  by (auto simp: llvm_comparison_def php_isVariantType_def bindE_eq_Inr split: if_splits
      dest!: php_result_types(1) int_comparison_request_type dest: double_comparison_request_type llvm_result_types(6))

lemma zval_expression:
  assumes "llvm_expression php_bindings e st = Inr (v, st')" and "zval_table st"
  shows "getType v = zval_ptr \<longleftrightarrow> yields_zval e"
  using assms
proof (induction e arbitrary: st v st')
  case (BinaryOperation l r op)
  then obtain lv st1 rv st2 where l: "llvm_expression php_bindings l st = Inr (lv, st1)"
    and r: "llvm_expression php_bindings r st1 = Inr (rv, st2)"
    and v: "llvm_binary_operation php_bindings op lv rv st2 = Inr (v, st')" by (auto simp: bindE_eq_Inr)
  have "zval_table st1" using BinaryOperation.prems zval_table_grows [OF php.expression_grows(1) [OF refl l]] by simp
  with BinaryOperation.IH(1) [OF l] BinaryOperation.IH(2) [OF r] BinaryOperation.prems operation_types(1) [OF v]
  show ?case by (auto split: if_splits)
next
  case (Comparison l r op)
  then obtain lv st1 rv st2 where "llvm_comparison php_bindings op lv rv st2 = Inr (v, st')"
    by (auto simp: bindE_eq_Inr)
  from comparison_type [OF this] show ?case by (auto split: if_splits)
next
  case (UnaryOperation e op)
  then show ?case by (fastforce simp: bindE_eq_Inr dest: operation_types(2))
qed (auto simp: bindE_eq_Inr zval_table_def split: option.splits dest: php_result_types)

section \<open>Static types and LLVM types\<close>

fun llvm_type :: "value_type \<Rightarrow> ltype" where
  "llvm_type DoubleType = DoubleTy"
| "llvm_type IntegerType = IntTy 64"
| "llvm_type BooleanType = IntTy 1"
| "llvm_type StringType = c_string_type"
| "llvm_type VariantType = zval_ptr"

text \<open>No negation of a variant: its static type is boolean, but its value is a zval.\<close>

fun no_variant_negation :: "expr \<Rightarrow> bool" where
  "no_variant_negation (UnaryOperation e op) =
     (no_variant_negation e \<and> (op = BooleanNegation \<longrightarrow> valueType e \<noteq> VariantType))"
| "no_variant_negation (BinaryOperation l r op) = (no_variant_negation l \<and> no_variant_negation r)"
| "no_variant_negation (Comparison l r op) = (no_variant_negation l \<and> no_variant_negation r)"
| "no_variant_negation e = True"

lemma llvm_type_simps [simp]:
  "llvm_type t = zval_ptr \<longleftrightarrow> t = VariantType" "llvm_type t = DoubleTy \<longleftrightarrow> t = DoubleType"
  "is_int (llvm_type t) \<longleftrightarrow> t \<in> {IntegerType, BooleanType}"
  by (cases t; simp)+

text \<open>
  C27: (types of the generated values) The value that is generated for an expression that the parser
  accepted has the LLVM type of its static type, if no variant is negated in it and the loop variables
  in scope are zvals: a variant is a zval, an integer an \<open>i64\<close>, a boolean an \<open>i1\<close>.
\<close>

theorem values_have_their_static_types:
  assumes "llvm_expression php_bindings e st = Inr (v, st')" and "zval_table st"
    and "typed e" and "no_variant_negation e"
  shows "getType v = llvm_type (valueType e)"
  using assms
proof (induction e arbitrary: st v st')
  case (BinaryOperation l r op)
  then obtain lv st1 rv st2 where l: "llvm_expression php_bindings l st = Inr (lv, st1)"
    and r: "llvm_expression php_bindings r st1 = Inr (rv, st2)"
    and v: "llvm_binary_operation php_bindings op lv rv st2 = Inr (v, st')" by (auto simp: bindE_eq_Inr)
  have "zval_table st1" using BinaryOperation.prems zval_table_grows [OF php.expression_grows(1) [OF refl l]] by simp
  with BinaryOperation.IH(1) [OF l] BinaryOperation.IH(2) [OF r] BinaryOperation.prems operation_types(1) [OF v]
  show ?case by (auto simp: Let_def)
next
  case (Comparison l r op)
  then obtain lv st1 rv st2 where l: "llvm_expression php_bindings l st = Inr (lv, st1)"
    and r: "llvm_expression php_bindings r st1 = Inr (rv, st2)"
    and v: "llvm_comparison php_bindings op lv rv st2 = Inr (v, st')" by (auto simp: bindE_eq_Inr)
  with Comparison.IH(1) [OF l] Comparison.prems comparison_type [OF v]
  show ?case by (auto split: if_splits)
next
  case (UnaryOperation e op)
  then obtain w st1 where e: "llvm_expression php_bindings e st = Inr (w, st1)"
    and v: "llvm_unary_operation php_bindings op w st1 = Inr (v, st')" by (auto simp: bindE_eq_Inr)
  from UnaryOperation.IH [OF e] UnaryOperation.prems operation_types(2) [OF v]
  show ?case by (cases op) (auto simp: Let_def)
qed (auto simp: bindE_eq_Inr zval_table_def split: option.splits dest: php_result_types)

theorem values_have_their_static_types_witness:
  "\<exists>v st'. llvm_expression php_bindings (Comparison (VariableReference ''x'') (IntegerLiteral 3) Equal)
       (new_llvm_visitor new_php_bindings) = Inr (v, st') \<and> getType v = IntTy 1"
proof -
  let ?e = "Comparison (VariableReference ''x'') (IntegerLiteral 3) Equal" and ?st = "new_llvm_visitor new_php_bindings"
  have "\<not> isl (llvm_expression php_bindings ?e ?st)" by (simp add: php_eval)
  then obtain v st' where v: "llvm_expression php_bindings ?e ?st = Inr (v, st')"
    by (cases "llvm_expression php_bindings ?e ?st") auto
  have "getType v = llvm_type (valueType ?e)"
    by (rule values_have_their_static_types [OF v]) (simp_all add: zval_table_def new_llvm_visitor_def)
  with v show ?thesis by auto
qed

section \<open>Templates that compile\<close>

text \<open>What a node must be like to compile: the conditions of if blocks are not zvals, and so on.\<close>

fun compilable_node :: "ast \<Rightarrow> bool" where
  "compilable_node (IfBlock c th el) = (\<not> yields_zval c)"
| "compilable_node (ForBlock k v i b el) =
     (pred_option is_variable k \<and> pred_option is_variable v \<and> yields_zval i)"
| "compilable_node (IncludeBlock n s m) = False"
| "compilable_node _ = True"

lemma llvm_variable_name_Inr: "llvm_variable_name k = Inr x \<Longrightarrow> pred_option is_variable k"
  by (cases k) (auto simp: variable_name_of_def split: expr.splits)

lemma zval_table_cong: "m_overriden_variables st' = m_overriden_variables st \<Longrightarrow> zval_table st' = zval_table st"
  by (simp add: zval_table_def)

lemma zval_table_variables:
  "zval_table st \<Longrightarrow> pred_option (\<lambda>x. getType x = zval_ptr) v \<Longrightarrow> zval_table (set_loop_variable h name v st)"
  by (auto simp: zval_table_def set_loop_variable_def override_def)

lemma statements_compilable:
  assumes "\<And>a st st'. a \<in> set xs \<Longrightarrow> llvm_ast php_bindings a st = Inr st' \<Longrightarrow> zval_table st \<Longrightarrow> all_nodes compilable_node a"
  shows "llvm_statements php_bindings xs st = Inr st' \<Longrightarrow> zval_table st \<Longrightarrow> list_all (all_nodes compilable_node) xs"
  using assms
proof (induction xs arbitrary: st)
  case (Cons x xs)
  then obtain st1 where x: "llvm_ast php_bindings x st = Inr st1" and xs: "llvm_statements php_bindings xs st1 = Inr st'"
    by (auto simp: bindE_eq_Inr)
  have "zval_table st1" using zval_table_grows [OF php.ast_grows [OF x]] Cons.prems(2) by simp
  with Cons.IH [OF xs] Cons.prems x show ?case by auto
qed simp

lemma body_compilable:
  assumes "\<And>a st st'. a \<in> set_option b \<Longrightarrow> llvm_ast php_bindings a st = Inr st' \<Longrightarrow> zval_table st \<Longrightarrow> all_nodes compilable_node a"
    and "llvm_body php_bindings b st = Inr st'" "zval_table st"
  shows "pred_option (all_nodes compilable_node) b"
  using assms by (cases b) auto

lemma ast_compilable:
  "llvm_ast php_bindings a st = Inr st' \<Longrightarrow> zval_table st \<Longrightarrow> all_nodes compilable_node a"
proof (induction a arbitrary: st st')
  case (Statements xs)
  then show ?case using statements_compilable [of xs st st'] by simp
next
  case (IfBlock c th el)
  show ?case
  proof (rule if_run [OF IfBlock.prems(1)])
    fix cond st0 b1 st1 b2 st2 b3 st3 st4 st5
    assume cond: "llvm_expression php_bindings c st = Inr (cond, st0)" "getType cond = IntTy 1"
      and bs: "new_block_in_function st0 = (b1, st1)" "new_block st1 = (b2, st2)" "new_block st2 = (b3, st3)"
      and th: "llvm_body php_bindings th (SetInsertPoint b1 (CreateCondBr cond b1 b2 st3)) = Inr st4"
      and el: "llvm_body php_bindings el (SetInsertPoint b2 (push_block b2 (CreateBr b3 st4))) = Inr st5"
    note tables = php.if_tables [OF cond(1) bs th]
    have "pred_option (all_nodes compilable_node) th"
      by (rule body_compilable [OF IfBlock.IH(1) th])
        (use IfBlock.prems(2) tables in \<open>simp_all add: zval_table_def\<close>)
    moreover have "pred_option (all_nodes compilable_node) el"
      by (rule body_compilable [OF IfBlock.IH(2) el])
        (use IfBlock.prems(2) tables in \<open>simp_all add: zval_table_def\<close>)
    ultimately show ?case
      using zval_expression [OF cond(1) IfBlock.prems(2)] cond(2) by simp
  qed
next
  case (ForBlock k v i b el)
  show ?case
  proof (rule for_run [OF ForBlock.prems(1)], unfold php_bindings_simps)
    fix it st0 b1 st1 b2 st2 b3 st3 c st4 keyName valueName kv vv st6 st7 st8 st9 st10' c' st10 st11 st12
    assume it: "llvm_expression php_bindings i st = Inr (it, st0)"
      and bs: "new_block_in_function st0 = (b1, st1)" "new_block_in_function st1 = (b2, st2)"
        "new_block_in_function st2 = (b3, st3)"
      and c: "php_createForLoopInit it st3 = Inr (c, st4)"
      and names: "llvm_variable_name k = Inr keyName" "llvm_variable_name v = Inr valueName"
      and vars: "php_createForLoopGetVariables it (k \<noteq> None) (v \<noteq> None) (SetInsertPoint b1 (CreateCondBr c b1 b2 st4)) = Inr ((kv, vv), st6)"
      and body: "llvm_body php_bindings b (set_loop_variable (v \<noteq> None) valueName vv (set_loop_variable (k \<noteq> None) keyName kv st6)) = Inr st7"
      and out: "release_loop_variable php_bindings (k \<noteq> None) kv st7 = Inr st8"
        "release_loop_variable php_bindings (v \<noteq> None) vv st8 = Inr st9"
      and st10': "st10' = restore_loop_variable (v \<noteq> None) valueName (m_overriden_variables st4 valueName)
        (restore_loop_variable (k \<noteq> None) keyName (m_overriden_variables st4 keyName) st9)"
      and step: "php_createForLoopNextIteration it st10' = Inr (c', st10)"
      and els: "llvm_body php_bindings el (SetInsertPoint b2 (CreateCondBr c' b1 b3 st10)) = Inr st11"
    note tables = php.for_tables [unfolded php_bindings_simps, OF it bs c vars body out st10' step]
    have "pred_option (all_nodes compilable_node) b"
      by (rule body_compilable [OF ForBlock.IH(1) body])
        (use ForBlock.prems(2) tables loop_variable_types(1,2) [OF vars]
          in \<open>auto intro!: zval_table_variables simp: zval_table_cong [OF tables(1)]\<close>)
    moreover have "pred_option (all_nodes compilable_node) el"
      by (rule body_compilable [OF ForBlock.IH(2) els])
        (use ForBlock.prems(2) tables in \<open>simp_all add: zval_table_def\<close>)
    moreover have "yields_zval i"
      using zval_expression [OF it ForBlock.prems(2)] php_result_types(8) [OF c] by simp
    ultimately show ?case
      using names [THEN llvm_variable_name_Inr] by simp
  qed
qed (auto simp: bindE_eq_Inr)

text \<open>
  C28: (which templates compile) A template compiles with the PHP bindings only if it has no inclusion,
  no loop variable that is an attribute, no loop over anything but a zval, and no if block whose
  condition is a zval: a variable, an attribute, a call, arithmetic on one of them or the negation of
  one.  Such conditions end in the exception \<open>unimplemented!\<close>.
\<close>

theorem only_these_templates_compile:
  assumes "llvm_visit php_bindings a st = Inr st'" and "m_overriden_variables st = Map.empty"
  shows "all_nodes compilable_node a"
proof -
  from assms(1) obtain st1 st2 where st1: "default_functionSetup (new_function st) = Inr st1"
    and st2: "llvm_ast php_bindings a st1 = Inr st2"
    by (auto simp: llvm_visit_def bindE_eq_Inr)
  have "m_overriden_variables st1 = Map.empty"
    using entry_block(2) [OF st1] assms(2) by (simp add: new_function_def)
  then show ?thesis using ast_compilable [OF st2] by (simp add: zval_table_def)
qed

theorem only_these_templates_compile_witness:
  "all_nodes compilable_node (IfBlock (BooleanLiteral True) (Some (RawBlock ''a'')) None)"
proof -
  let ?a = "IfBlock (BooleanLiteral True) (Some (RawBlock ''a'')) None" and ?st = "new_llvm_visitor new_php_bindings"
  have "\<not> isl (llvm_visit php_bindings ?a ?st)" by (simp add: php_eval)
  then obtain st' where "llvm_visit php_bindings ?a ?st = Inr st'"
    by (cases "llvm_visit php_bindings ?a ?st") simp_all
  then show ?thesis by (rule only_these_templates_compile) (simp add: new_llvm_visitor_def)
qed

end
