(* ===== verification/Php_References.thy ===== *)
theory Php_References
  imports Php_Types
begin

text \<open>
  The reference counts of the PHP bindings.  The counts that the bindings keep while they generate
  code are a ledger: a value with count -1 is borrowed, any other count is the number of references
  that the generated code still owes.  The ledger is balanced: a statement gives back what it took,
  and a value whose count has come to zero is destroyed by exactly one call.
\<close>

section \<open>The ledger\<close>

abbreviation rc :: "php_llvm_state \<Rightarrow> lvalue \<Rightarrow> int option" where
  "rc st \<equiv> m_variablesRefCount (bindings_state st)"

fun destroyed_by :: "instr \<Rightarrow> lvalue list" where
  "destroyed_by (Call f as) = (if f = ''destruct_zval'' then as else [])"
| "destroyed_by _ = []"

definition destroyed :: "'b llvm_state \<Rightarrow> lvalue list" where
  "destroyed st = concat (map (\<lambda>(b, i). destroyed_by i) (code st))"

definition requested :: "nat \<Rightarrow> nat \<Rightarrow> lvalue \<Rightarrow> bool" where
  "requested m n v \<longleftrightarrow> (\<exists>k t. v = Request k t \<and> m \<le> k \<and> k < n)"

definition ledger_ok :: "php_llvm_state \<Rightarrow> bool" where
  "ledger_ok st \<longleftrightarrow>
     (\<forall>v n. rc st v = Some n \<longrightarrow> -1 \<le> n \<and> requested 0 (next_value st) v) \<and>
     (\<forall>v. count_list (destroyed st) v = (if rc st v = Some 0 then 1 else 0))"

definition live :: "php_llvm_state \<Rightarrow> lvalue \<Rightarrow> bool" where
  "live st v \<longleftrightarrow> (\<exists>n. rc st v = Some n \<and> (n = -1 \<or> 0 < n))"

text \<open>From \<open>st\<close> to \<open>st'\<close> the references in \<open>X\<close> have been acquired, and no other.\<close>

definition acquired :: "lvalue list \<Rightarrow> php_llvm_state \<Rightarrow> php_llvm_state \<Rightarrow> bool" where
  "acquired X st st' \<longleftrightarrow> ledger_ok st \<and> ledger_ok st' \<and> next_value st \<le> next_value st' \<and>
     (\<forall>w \<in> set X. (rc st w = None \<or> live st w) \<and> rc st' w \<noteq> None) \<and>
     (\<forall>w n. rc st w = Some n \<longrightarrow> rc st' w = Some (if n = -1 then -1 else n + int (count_list X w))) \<and>
     (\<forall>w n. rc st w = None \<longrightarrow> rc st' w = Some n \<longrightarrow> n = -1 \<or> n = int (count_list X w))"

lemma acquired_ok: "acquired X st st' \<Longrightarrow> ledger_ok st" "acquired X st st' \<Longrightarrow> ledger_ok st'"
  by (simp_all add: acquired_def)

lemma acquired_old:
  "acquired X st st' \<Longrightarrow> rc st w = Some n \<Longrightarrow>
   rc st' w = Some (if n = -1 then -1 else n + int (count_list X w))"
  unfolding acquired_def by blast

lemma acquired_new:
  "acquired X st st' \<Longrightarrow> rc st w = None \<Longrightarrow> rc st' w = Some n \<Longrightarrow> n = -1 \<or> n = int (count_list X w)"
  unfolding acquired_def by blast

lemma acquired_refl: "ledger_ok st \<Longrightarrow> acquired [] st st"
  by (auto simp: acquired_def)

lemma acquired_live: "acquired X st st' \<Longrightarrow> live st w \<Longrightarrow> live st' w"
  by (auto simp: acquired_def live_def)

lemma acquired_owned:
  assumes "acquired X st st'" "w \<in> set X"
  shows "live st' w"
proof -
  have "0 < count_list X w" using assms(2) count_list_0_iff [of X w] by linarith
  with assms show ?thesis by (fastforce simp: acquired_def live_def)
qed

lemma acquired_perm:
  assumes "acquired X st st'" and "\<And>w. count_list X w = count_list Y w"
  shows "acquired Y st st'"
proof -
  have "set X = set Y" using assms(2) count_list_0_iff by (metis subsetI subset_antisym)
  with assms show ?thesis by (simp add: acquired_def)
qed

lemma acquired_trans:
  assumes X: "acquired X st st1" and Y: "acquired Y st1 st2"
  shows "acquired (X @ Y) st st2"
proof -
  have "-1 \<le> n" if "rc st w = Some n" for w n using X that by (simp add: acquired_def ledger_ok_def)
  then have old: "rc st2 w = Some (if n = -1 then -1 else n + int (count_list (X @ Y) w))"
    if "rc st w = Some n" for w n
    using X Y that unfolding acquired_def by fastforce
  have new: "n = -1 \<or> n = int (count_list (X @ Y) w)" if "rc st w = None" "rc st2 w = Some n" for w n
  proof (cases "rc st1 w")
    case None
    with X have "w \<notin> set X" by (auto simp: acquired_def)
    with None Y that show ?thesis by (auto simp: acquired_def)
  next
    case (Some m)
    with X that(1) have "m = -1 \<or> m = int (count_list X w)" by (auto simp: acquired_def)
    with Some Y that(2) show ?thesis by (auto simp: acquired_def)
  qed
  have lives: "rc st w = None \<or> live st w" if "w \<in> set (X @ Y)" for w
  proof (cases "w \<in> set X")
    case False
    with that Y have "rc st1 w = None \<or> live st1 w" by (simp add: acquired_def)
    with False X show ?thesis by (cases "rc st w") (auto simp: acquired_def live_def split: if_splits)
  qed (use X in \<open>auto simp: acquired_def\<close>)
  have "rc st2 w \<noteq> None" if "w \<in> set (X @ Y)" for w
    using that X Y by (cases "rc st1 w") (auto simp: acquired_def)
  with old new lives X Y show ?thesis by (auto simp: acquired_def)
qed

section \<open>Steps that leave the counts alone\<close>

definition quiet :: "php_llvm_state \<Rightarrow> php_llvm_state \<Rightarrow> bool" where
  "quiet st st' \<longleftrightarrow> rc st' = rc st \<and> destroyed st' = destroyed st \<and> next_value st \<le> next_value st'"

lemma quiet_refl [simp]: "quiet st st"
  by (simp add: quiet_def)

lemma quiet_trans: "quiet st st1 \<Longrightarrow> quiet st1 st2 \<Longrightarrow> quiet st st2"
  by (simp add: quiet_def)

lemma requested_mono: "requested m n v \<Longrightarrow> n \<le> n' \<Longrightarrow> requested m n' v"
  by (force simp: requested_def)

lemma quiet_acquired:
  assumes "quiet st st'" "ledger_ok st"
  shows "acquired [] st st'"
  using assms by (auto simp: acquired_def quiet_def ledger_ok_def intro: requested_mono)

lemma acquired_quiet:
  "acquired X st st1 \<Longrightarrow> quiet st1 st2 \<Longrightarrow> acquired X st st2"
  using acquired_trans [of X st st1 "[]" st2] quiet_acquired [of st1 st2] acquired_ok by auto

lemma destroyed_emit [simp]: "destroyed (emit_instr i st) = destroyed st @ destroyed_by i"
  by (simp add: destroyed_def emit_instr_def)

lemma quiet_emit: "destroyed_by i = [] \<Longrightarrow> quiet st (emit_instr i st)"
  by (simp add: quiet_def) (simp add: emit_instr_def)

lemma quiet_fields:
  "rc st' = rc st \<Longrightarrow> code st' = code st \<Longrightarrow> next_value st' = next_value st \<Longrightarrow> quiet st st'"
  by (simp add: quiet_def destroyed_def)

lemma quiet_simps [simp]:
  "quiet st (SetInsertPoint b st1) = quiet st st1" "quiet st (push_block b st1) = quiet st st1"
  "quiet st (CreateBr b st1) = quiet st st1" "quiet st (CreateCondBr c b b' st1) = quiet st st1"
  "quiet st (CreateRetVoid st1) = quiet st st1" "quiet st (set_metadata v m st1) = quiet st st1"
  "quiet st (override name w st1) = quiet st st1"
  by (simp_all add: quiet_def destroyed_def SetInsertPoint_def push_block_def CreateBr_def CreateCondBr_def
      CreateRetVoid_def emit_instr_def set_metadata_def override_def)

lemma quiet_new_block:
  "new_block st = (b, st') \<Longrightarrow> quiet st st'" "new_block_in_function st = (b, st') \<Longrightarrow> quiet st st'"
  by (auto simp: new_block_in_function_def new_block_def push_block_def intro!: quiet_fields)

lemma quiet_test [simp]: "quiet st (createRetVoidIfCallFails c st)"
  unfolding createRetVoidIfCallFails_def
  by (auto split: prod.split dest!: quiet_new_block(2) intro: quiet_trans)

text \<open>A new value.\<close>

definition fresh_result :: "php_llvm_state \<Rightarrow> lvalue \<Rightarrow> php_llvm_state \<Rightarrow> bool" where
  "fresh_result st v st' \<longleftrightarrow> quiet st st' \<and> requested (next_value st) (next_value st') v"

lemma request_fresh:
  "request t i st = Inr (v, st') \<Longrightarrow> destroyed_by i = [] \<Longrightarrow> fresh_result st v st'"
  by (auto simp: request_def fresh_result_def quiet_def requested_def destroyed_def emit_instr_def)

lemma builder_fresh:
  "CreateAlloca t n st = Inr (v, st') \<Longrightarrow> fresh_result st v st'"
  "CreateLoad p st = Inr (v, st') \<Longrightarrow> fresh_result st v st'"
  "CreateInBoundsGEP p n st = Inr (v, st') \<Longrightarrow> fresh_result st v st'"
  "CreateTrunc p w st = Inr (v, st') \<Longrightarrow> fresh_result st v st'"
  "pointer_comparison name l r st = Inr (v, st') \<Longrightarrow> fresh_result st v st'"
  "runtime_call f as st = Inr (v, st') \<Longrightarrow> f \<noteq> ''destruct_zval'' \<Longrightarrow> fresh_result st v st'"
  by (auto simp: CreateAlloca_def CreateLoad_def CreateInBoundsGEP_def CreateTrunc_def pointer_comparison_def
      runtime_call_def findFunction_def CreateCall_def bindE_eq_Inr split: ltype.splits if_splits option.splits
      intro: request_fresh)

lemma operation_quiet:
  "int_operation name l r st = Inr (v, st') \<Longrightarrow> quiet st st'"
  "int_comparison name l r st = Inr (v, st') \<Longrightarrow> quiet st st'"
  "double_operation name l r st = Inr (v, st') \<Longrightarrow> quiet st st'"
  "double_comparison name l r st = Inr (v, st') \<Longrightarrow> quiet st st'"
  "int_unary name l st = Inr (v, st') \<Longrightarrow> quiet st st'"
  "to_double l st = Inr (v, st') \<Longrightarrow> quiet st st'"
  "CreateStore l r st = Inr st' \<Longrightarrow> quiet st st'"
  by (auto simp: int_operation_def int_comparison_def double_operation_def double_comparison_def int_unary_def
      to_double_def CreateStore_def intro: quiet_emit dest!: request_fresh split: if_splits)
    (auto simp: fresh_result_def)

lemma set_refcount_simps [simp]:
  "rc (set_refcount v n st) = (rc st)(v \<mapsto> n)" "destroyed (set_refcount v n st) = destroyed st"
  "next_value (set_refcount v n st) = next_value st"
  by (simp_all add: set_refcount_def destroyed_def)

lemma acquire_fresh:
  assumes "ledger_ok st" "fresh_result st v st'" "n = -1 \<or> n = 1"
  shows "acquired [v] st (set_refcount v n st')"
proof -
  have quiet: "quiet st st'" and v: "requested (next_value st) (next_value st') v"
    using assms(2) by (simp_all add: fresh_result_def)
  have none: "rc st v = None"
    using assms(1) v by (cases "rc st v") (force simp: ledger_ok_def requested_def)+
  have "requested 0 (next_value st') v" using v by (auto simp: requested_def)
  moreover have "ledger_ok st'" using quiet_acquired [OF quiet assms(1)] by (rule acquired_ok)
  ultimately have "ledger_ok (set_refcount v n st')"
    using none quiet assms(3) by (auto simp: ledger_ok_def quiet_def)
  with none quiet assms(1,3) show ?thesis by (auto simp: acquired_def quiet_def)
qed

section \<open>Giving references back\<close>

lemma release_scope:
  assumes X: "acquired (v # X) st st1" and run: "php_variableGoesOutOfScope v st1 = Inr st2"
  shows "acquired X st st2"
proof -
  from acquired_owned [OF X] obtain n where n: "rc st1 v = Some n" "n = -1 \<or> 0 < n" by (auto simp: live_def)
  show ?thesis
  proof (cases "n = -1")
    case True
    with run n have [simp]: "st2 = st1" by (simp add: php_variableGoesOutOfScope_def)
    have "rc st v = None \<or> rc st v = Some (-1)"
      using X n True by (cases "rc st v") (auto simp: acquired_def live_def)
    then have "rc st1 w = Some (if m = -1 then -1 else m + int (count_list X w))" if "rc st w = Some m" for w m
      using acquired_old [OF X that] n True that by (cases "w = v") auto
    moreover have "m = -1 \<or> m = int (count_list X w)" if "rc st w = None" "rc st1 w = Some m" for w m
      using acquired_new [OF X that] n True that by (cases "w = v") auto
    ultimately show ?thesis using X unfolding acquired_def by simp
  next
    case False
    let ?st = "set_refcount v (n - 1) st1"
    have st2: "rc st2 = rc ?st" "next_value st1 \<le> next_value st2"
        "destroyed st2 = destroyed st1 @ (if n = 1 then [v] else [])"
      using run n False
      by (auto simp: php_variableGoesOutOfScope_def runtime_call_def findFunction_def module_functions_def
          CreateCall_def request_def bindE_eq_Inr Let_def split: if_splits)
        (auto simp: emit_instr_def destroyed_def set_refcount_def)
    have "ledger_ok st2"
      using acquired_ok(2) [OF X] n False st2 by (auto simp: ledger_ok_def intro: requested_mono)
    moreover have "rc st2 w = Some (if m = -1 then -1 else m + int (count_list X w))" if "rc st w = Some m" for w m
      using acquired_old [OF X that] n False that st2(1) by (cases "w = v") auto
    moreover have "m = -1 \<or> m = int (count_list X w)" if "rc st w = None" "rc st2 w = Some m" for w m
      using acquired_new [OF X that(1)] n False that st2(1) by (cases "w = v") auto
    moreover have "(rc st w = None \<or> live st w) \<and> rc st2 w \<noteq> None" if "w \<in> set X" for w
      using X that st2(1) by (auto simp: acquired_def)
    ultimately show ?thesis
      using X st2(2) unfolding acquired_def by simp
  qed
qed

section \<open>The operations of the bindings\<close>

text \<open>The reference that an expression hands over with its value.\<close>

definition own :: "lvalue \<Rightarrow> lvalue list" where
  "own v = (if getType v = zval_ptr then [v] else [])"

lemma fresh_quiet: "fresh_result st v st1 \<Longrightarrow> quiet st1 st2 \<Longrightarrow> fresh_result st v st2"
  by (auto simp: fresh_result_def quiet_def intro: requested_mono)

lemma fresh_is_quiet: "fresh_result st v st1 \<Longrightarrow> quiet st st1"
  by (simp add: fresh_result_def)

lemmas builder_quiet = builder_fresh [THEN fresh_is_quiet]

lemma acquire:
  assumes "acquired X st0 st" "fresh_result st v st'" "n = -1 \<or> n = 1"
  shows "acquired (v # X) st0 (set_refcount v n st')"
  by (rule acquired_perm [OF acquired_trans [OF assms(1) acquire_fresh [OF acquired_ok(2) [OF assms(1)] assms(2,3)]]])
    simp

lemma wrap_references:
  assumes X: "acquired (own v @ X) st0 st" and run: "wrapAsVariant v st = Inr (z, st')"
  shows "acquired (z # X) st0 st'"
proof (cases "php_isVariantType (getType v)")
  case True
  with assms show ?thesis by (simp add: wrapAsVariant_def own_def php_isVariantType_def)
next
  case False
  with run obtain f st1 w st2 where "wrappingFunction (getType v) = Inr f"
    and z: "CreateAlloca zval 1 st = Inr (z, st1)"
    and w: "runtime_call f [z, v] st1 = Inr (w, st2)" and st': "st' = set_refcount z (-1) st2"
    by (auto simp: wrapAsVariant_def bindE_eq_Inr)
  then have "f \<noteq> ''destruct_zval''" by (auto simp: wrappingFunction_def split: if_splits)
  then have "fresh_result st z st2"
    using fresh_quiet [OF builder_fresh(1) [OF z] fresh_is_quiet [OF builder_fresh(6) [OF w]]] by simp
  moreover have "acquired X st0 st" using X False by (simp add: own_def php_isVariantType_def)
  ultimately show ?thesis unfolding st' by (intro acquire) simp_all
qed

lemma swap_references: "acquired (v # w # X) st st' \<Longrightarrow> acquired (w # v # X) st st'"
  by (erule acquired_perm) simp

lemma wrap_both:
  assumes X: "acquired (own l @ own r @ X) st0 st"
    and l: "wrapAsVariant l st = Inr (lz, st1)" and r: "wrapAsVariant r st1 = Inr (rz, st2)"
  shows "acquired (lz # rz # X) st0 st2"
proof -
  have "acquired (own r @ lz # X) st0 st1"
    by (rule acquired_perm [OF wrap_references [OF X l]]) simp
  from swap_references [OF wrap_references [OF this r]] show ?thesis .
qed

lemma comparison_references:
  assumes X: "acquired (own l @ own r @ X) st0 st" and run: "php_createVariantComparison op l r st = Inr (v, st')"
  shows "acquired X st0 st'"
proof -
  from run obtain lz st1 rz st2 p st3 c st4 q st5 st6 st7 where
    wrap: "wrapAsVariant l st = Inr (lz, st1)" "wrapAsVariant r st1 = Inr (rz, st2)"
    and quiet: "CreateAlloca (IntTy 8) 1 st2 = Inr (p, st3)"
      "runtime_call ''compare_variant'' [Constant_int 16 (comparison_code op), p, lz, rz] st3 = Inr (c, st4)"
      "CreateLoad p (createRetVoidIfCallFails c st4) = Inr (q, st5)" "CreateTrunc q 1 st5 = Inr (v, st6)"
    and release: "php_variableGoesOutOfScope lz st6 = Inr st7" "php_variableGoesOutOfScope rz st7 = Inr st'"
    by (auto simp: php_createVariantComparison_def bindE_eq_Inr)
  have "quiet st2 st6"
    using builder_quiet(1) [OF quiet(1)] builder_quiet(6) [OF quiet(2)] quiet_test [of st4 c]
      builder_quiet(2) [OF quiet(3)] builder_quiet(4) [OF quiet(4)] by (simp add: quiet_def)
  from release_scope [OF release_scope [OF acquired_quiet [OF wrap_both [OF X wrap] this] release(1)] release(2)]
  show ?thesis .
qed

lemma binary_references:
  assumes X: "acquired (own l @ own r @ X) st0 st" and run: "php_createVariantBinaryOperation op l r st = Inr (v, st')"
  shows "acquired (v # X) st0 st'"
proof -
  from run obtain lz st1 rz st2 p st3 c st4 st5 st6 where
    wrap: "wrapAsVariant l st = Inr (lz, st1)" "wrapAsVariant r st1 = Inr (rz, st2)"
    and quiet: "CreateAlloca zval_ptr 1 st2 = Inr (p, st3)"
      "runtime_call ''binary_variant_operation'' [Constant_int 8 (binary_code op), p, lz, rz] st3 = Inr (c, st4)"
    and v: "CreateLoad p (createRetVoidIfCallFails c st4) = Inr (v, st5)"
    and release: "php_variableGoesOutOfScope lz (set_refcount v 1 st5) = Inr st6"
      "php_variableGoesOutOfScope rz st6 = Inr st'"
    by (auto simp: php_createVariantBinaryOperation_def bindE_eq_Inr)
  have "quiet st2 (createRetVoidIfCallFails c st4)"
    using builder_quiet(1) [OF quiet(1)] builder_quiet(6) [OF quiet(2)] quiet_test [of st4 c] by (simp add: quiet_def)
  from acquire [OF acquired_quiet [OF wrap_both [OF X wrap] this] builder_fresh(2) [OF v], of 1]
  have "acquired (lz # rz # v # X) st0 (set_refcount v 1 st5)" by (simp add: acquired_perm)
  from release_scope [OF release_scope [OF this release(1)] release(2)] show ?thesis .
qed

lemma unary_references:
  assumes X: "acquired (own w @ X) st0 st" and run: "php_createVariantUnaryOperation op w st = Inr (v, st')"
  shows "acquired (v # X) st0 st'"
proof -
  from run obtain wz st2 p st3 c st4 st5 where
    wrap: "wrapAsVariant w st = Inr (wz, st2)"
    and quiet: "CreateAlloca zval_ptr 1 st2 = Inr (p, st3)"
      "runtime_call ''unary_variant_operation'' [Constant_int 8 (code_of_char (unary_char op)), p, wz] st3 = Inr (c, st4)"
    and v: "CreateLoad p (createRetVoidIfCallFails c st4) = Inr (v, st5)"
    and release: "php_variableGoesOutOfScope wz (set_refcount v 1 st5) = Inr st'"
    by (auto simp: php_createVariantUnaryOperation_def bindE_eq_Inr)
  have "quiet st2 (createRetVoidIfCallFails c st4)"
    using builder_quiet(1) [OF quiet(1)] builder_quiet(6) [OF quiet(2)] quiet_test [of st4 c] by (simp add: quiet_def)
  from acquire [OF acquired_quiet [OF wrap_references [OF X wrap] this] builder_fresh(2) [OF v], of 1]
  have "acquired (wz # v # X) st0 (set_refcount v 1 st5)" by (simp add: swap_references)
  from release_scope [OF this release] show ?thesis .
qed

lemma lookup_references:
  assumes "acquired X st0 st" "php_createVariableLookup name st = Inr (v, st')"
  shows "acquired (v # X) st0 st'"
  using assms(2) acquire [OF assms(1) builder_fresh(6), of "''get_value_from_hashtable''" _ v _ "-1"]
  by (auto simp: php_createVariableLookup_def bindE_eq_Inr)

lemma attribute_references:
  assumes X: "acquired (w # X) st0 st" and run: "php_createGetAttribute name w st = Inr (v, st')"
  shows "acquired (v # X) st0 st'"
proof -
  from run obtain st1 where
    v: "runtime_call ''get_attribute'' [w, Global_string name, Constant_int 32 (int (length name))] st = Inr (v, st1)"
    and release: "php_variableGoesOutOfScope w (set_refcount v (-1) st1) = Inr st'"
    by (auto simp: php_createGetAttribute_def bindE_eq_Inr)
  have "acquired (w # v # X) st0 (set_refcount v (-1) st1)"
    by (rule swap_references, rule acquire [OF X builder_fresh(6) [OF v]]) simp_all
  from release_scope [OF this release] show ?thesis .
qed

lemma ledger_ok_set:
  assumes ok: "ledger_ok st" and n: "rc st v = Some n" "0 < n" "0 < m"
  shows "ledger_ok (set_refcount v m st)"
proof -
  have "count_list (destroyed st) w = (if rc st w = Some 0 then 1 else 0)" for w
    using ok unfolding ledger_ok_def by blast
  with ok n show ?thesis by (simp add: ledger_ok_def)
qed

lemma new_reference_references:
  assumes X: "acquired X st0 st" and "live st0 v" and run: "php_getNewReferenceForVariable v st = Inr (w, st')"
  shows "acquired (w # X) st0 st'"
proof -
  obtain n where n: "rc st v = Some n" "n = -1 \<or> 0 < n"
    using acquired_live [OF X assms(2)] by (auto simp: live_def)
  have "acquired [v] st st'"
  proof (cases "n = -1")
    case True
    with run n acquired_ok(2) [OF X] show ?thesis
      by (auto simp: php_getNewReferenceForVariable_def acquired_def live_def)
  next
    case False
    with n have "ledger_ok (set_refcount v (n + 1) st)"
      using ledger_ok_set [OF acquired_ok(2) [OF X] n(1)] by simp
    with False run n acquired_ok(2) [OF X] show ?thesis
      by (auto simp: php_getNewReferenceForVariable_def acquired_def live_def)
  qed
  then show ?thesis
    using run acquired_perm [OF acquired_trans [OF X, of "[v]" st'], of "v # X"]
    by (auto simp: php_getNewReferenceForVariable_def split: option.splits)
qed

lemma store_references:
  "store_arguments p n as st = Inr (ds, st') \<Longrightarrow> acquired X st0 st \<Longrightarrow>
   list_all (\<lambda>a. getType a \<noteq> zval_ptr) as \<Longrightarrow> acquired (ds @ X) st0 st'"
proof (induction as arbitrary: n st ds X)
  case (Cons a as)
  then obtain q st1 z st2 st3 es where q: "CreateInBoundsGEP p n st = Inr (q, st1)"
    and z: "wrapAsVariant a st1 = Inr (z, st2)" and st3: "CreateStore z q st2 = Inr st3"
    and rest: "store_arguments p (Suc n) as st3 = Inr (es, st')" and ds: "ds = z # es"
    by (auto simp: bindE_eq_Inr php_isVariantType_def)
  have "acquired (own a @ X) st0 st1"
    using acquired_quiet [OF Cons.prems(2) builder_quiet(3) [OF q]] Cons.prems(3) by (simp add: own_def)
  from acquired_quiet [OF wrap_references [OF this z] operation_quiet(7) [OF st3]]
  have "acquired (z # X) st0 st3" .
  from Cons.IH [OF rest this] Cons.prems(3) have "acquired (es @ z # X) st0 st'" by simp
  then show ?case unfolding ds by (rule acquired_perm) simp
qed simp

lemma release_all_references:
  "acquired (ds @ X) st0 st \<Longrightarrow> release_all ds st = Inr st' \<Longrightarrow> acquired X st0 st'"
  by (induction ds arbitrary: st) (auto simp: bindE_eq_Inr dest: release_scope)

lemma call_references:
  assumes X: "acquired X st0 st" and args: "list_all (\<lambda>a. getType a \<noteq> zval_ptr) as"
    and run: "php_createMethodCall name as st = Inr (v, st')"
  shows "acquired (v # X) st0 st'"
proof -
  from run obtain p ds st1 st2 st3 c st4 where
    pass: "pass_arguments as st = Inr ((p, ds), st1)"
    and v: "runtime_call ''do_method_call'' [Function_argument 2 hashtable_ptr, Global_string name,
        Constant_int 32 (int (length name)), Constant_int 32 (int (length as)), p] st1 = Inr (v, st2)"
    and release: "release_all ds (set_refcount v 1 st2) = Inr st3"
    and c: "pointer_comparison ''ICmpNE'' v (Null_pointer (getType v)) st3 = Inr (c, st4)"
    and st': "st' = createRetVoidIfCallFails c st4"
    by (auto simp: php_createMethodCall_def bindE_eq_Inr)
  have "acquired (ds @ X) st0 st1"
  proof (cases "as = []")
    case False
    with pass obtain st5 where "CreateAlloca zval_ptr (length as) st = Inr (p, st5)" "store_arguments p 0 as st5 = Inr (ds, st1)"
      by (auto simp: pass_arguments_def bindE_eq_Inr)
    then show ?thesis
      using store_references [OF _ acquired_quiet [OF X builder_quiet(1)] args] by blast
  qed (use pass X in \<open>simp add: pass_arguments_def\<close>)
  from acquire [OF this builder_fresh(6) [OF v], of 1]
  have "acquired (ds @ v # X) st0 (set_refcount v 1 st2)" by (auto elim: acquired_perm)
  from release_all_references [OF this release] builder_quiet(5) [OF c] show ?thesis
    unfolding st' by (blast intro: acquired_quiet quiet_test)
qed

fun loaded :: "lvalue option \<Rightarrow> lvalue list" where
  "loaded None = []"
| "loaded (Some v) = [v]"

lemma loop_variables_references:
  assumes X: "acquired X st0 st"
    and run: "php_createForLoopGetVariables w hasKey hasValue st = Inr ((k, v), st')"
  shows "acquired (loaded k @ loaded v @ X) st0 st'"
proof -
  from run obtain h pos ks st1 vs st2 u st3 st4 where
    slots: "variable_slot hasKey st = Inr (ks, st1)" "variable_slot hasValue st1 = Inr (vs, st2)"
    and call: "runtime_call ''forloop_getvalues'' [h, pos, vs, ks] st2 = Inr (u, st3)"
    and loads: "load_variable hasKey ks 1 st3 = Inr (k, st4)" "load_variable hasValue vs (-1) st4 = Inr (v, st')"
    by (auto simp: php_createForLoopGetVariables_def bindE_eq_Inr split: option.splits)
  have "quiet st st1" "quiet st1 st2"
    using slots by (auto simp: variable_slot_def split: if_splits dest: builder_quiet(1))
  then have "acquired X st0 st3"
    using acquired_quiet [OF acquired_quiet [OF acquired_quiet [OF X]]] builder_quiet(6) [OF call] by simp
  then have "acquired (loaded k @ X) st0 st4"
    using loads(1) by (auto simp: load_variable_def bindE_eq_Inr split: if_splits intro!: acquire dest: builder_fresh(2))
  then have "acquired (loaded v @ loaded k @ X) st0 st'"
    using loads(2) by (auto simp: load_variable_def bindE_eq_Inr split: if_splits intro!: acquire dest: builder_fresh(2))
  then show ?thesis by (rule acquired_perm) simp
qed

lemma init_quiet: "php_createForLoopInit w st = Inr (c, st') \<Longrightarrow> quiet st st'"
  by (auto simp: php_createForLoopInit_def bindE_eq_Inr dest!: builder_quiet intro: quiet_trans)
    (auto simp: quiet_def set_metadata_def destroyed_def)

lemma next_quiet: "php_createForLoopNextIteration w st = Inr (c, st') \<Longrightarrow> quiet st st'"
  by (auto simp: php_createForLoopNextIteration_def split: option.splits dest: builder_quiet)

lemma print_quiet: "php_createPrintCall w st = Inr (c, st') \<Longrightarrow> quiet st st'"
  by (auto simp: php_createPrintCall_def getPrintMethodForType_def bindE_eq_Inr split: if_splits dest: builder_quiet)

section \<open>Expressions\<close>

text \<open>
  The arguments of method calls are not released when they are zvals, so they are excluded here.
\<close>

fun leak_free :: "expr \<Rightarrow> bool" where
  "leak_free (BinaryOperation l r op) = (leak_free l \<and> leak_free r)"
| "leak_free (Comparison l r op) = (leak_free l \<and> leak_free r)"
| "leak_free (UnaryOperation e op) = leak_free e"
| "leak_free (GetAttribute e a) = leak_free e"
| "leak_free (MethodCall m as) = list_all (pred_option (\<lambda>e. leak_free e \<and> \<not> yields_zval e)) as"
| "leak_free e = True"

definition tables_ok :: "php_llvm_state \<Rightarrow> bool" where
  "tables_ok st \<longleftrightarrow> zval_table st \<and> (\<forall>x v. m_overriden_variables st x = Some v \<longrightarrow> live st v)"

lemma tables_ok_acquired:
  "acquired X st st' \<Longrightarrow> m_overriden_variables st' = m_overriden_variables st \<Longrightarrow> tables_ok st \<Longrightarrow> tables_ok st'"
  by (auto simp: tables_ok_def zval_table_def intro: acquired_live)

lemma own_simps [simp]:
  "getType v = zval_ptr \<Longrightarrow> own v = [v]" "getType v \<noteq> zval_ptr \<Longrightarrow> own v = []"
  by (simp_all add: own_def)

lemma to_double_not_zval: "to_double l st = Inr (v, st') \<Longrightarrow> getType v \<noteq> zval_ptr \<and> quiet st st'"
  using llvm_result_types(6) operation_quiet(6) by fastforce

lemma request_quiet:
  "int_comparison_request cop l r st = Inr (v, st') \<Longrightarrow> quiet st st'"
  "double_comparison_request cop l r st = Inr (v, st') \<Longrightarrow> quiet st st'"
  by (cases cop; auto dest: operation_quiet)+

lemma llvm_operation_references:
  assumes X: "acquired (own l @ own r @ X) st0 st"
  shows "llvm_binary_operation php_bindings bop l r st = Inr (v, st') \<Longrightarrow> acquired (own v @ X) st0 st'"
    and "llvm_comparison php_bindings cop l r st = Inr (v, st') \<Longrightarrow> acquired (own v @ X) st0 st'"
proof -
  have quiet: "acquired X st0 st'" if "getType l \<noteq> zval_ptr" "getType r \<noteq> zval_ptr" "quiet st st'"
    using acquired_quiet [OF X that(3)] that(1,2) by simp
  {
    assume run: "llvm_binary_operation php_bindings bop l r st = Inr (v, st')"
    note type = operation_types(1) [OF run]
    show "acquired (own v @ X) st0 st'"
    proof (cases "getType l = zval_ptr \<or> getType r = zval_ptr")
      case True
      with run have "php_createVariantBinaryOperation bop l r st = Inr (v, st')"
        by (auto simp: llvm_binary_operation_def php_isVariantType_def)
      from binary_references [OF X this] True type show ?thesis by simp
    next
      case False
      with run have "quiet st st'"
        by (auto simp: llvm_binary_operation_def php_isVariantType_def bindE_eq_Inr split: if_splits
            dest!: operation_quiet intro: quiet_trans)
      with quiet False type show ?thesis by (auto split: if_splits)
    qed
  next
    assume run: "llvm_comparison php_bindings cop l r st = Inr (v, st')"
    show "acquired (own v @ X) st0 st'"
    proof (cases "getType l = zval_ptr \<or> getType r = zval_ptr")
      case True
      with run have "php_createVariantComparison cop l r st = Inr (v, st')"
        by (auto simp: llvm_comparison_def php_isVariantType_def)
      from comparison_references [OF X this] php_result_types(1) [OF this] show ?thesis by simp
    next
      case False
      with run have "quiet st st'"
        by (auto simp: llvm_comparison_def php_isVariantType_def bindE_eq_Inr split: if_splits
            dest!: request_quiet operation_quiet intro: quiet_trans)
      with quiet False comparison_type [OF run] show ?thesis by (auto split: if_splits)
    qed
  }
qed

lemma llvm_unary_references:
  assumes X: "acquired (own w @ X) st0 st" and run: "llvm_unary_operation php_bindings uop w st = Inr (v, st')"
  shows "acquired (own v @ X) st0 st'"
proof (cases "getType w = zval_ptr")
  case True
  with run have "php_createVariantUnaryOperation uop w st = Inr (v, st')"
    by (simp add: llvm_unary_operation_def php_isVariantType_def)
  from unary_references [OF X this] True operation_types(2) [OF run] show ?thesis by simp
next
  case False
  with run have "quiet st st'"
    by (auto simp: llvm_unary_operation_def php_isVariantType_def split: unary_op.splits dest: operation_quiet)
  from acquired_quiet [OF X this] False operation_types(2) [OF run] show ?thesis by simp
qed

lemma argument_types:
  "llvm_arguments php_bindings as st = Inr (vs, st') \<Longrightarrow> zval_table st \<Longrightarrow>
   list_all (pred_option (\<lambda>e. leak_free e \<and> \<not> yields_zval e)) as \<Longrightarrow> list_all (\<lambda>a. getType a \<noteq> zval_ptr) vs"
proof (induction as arbitrary: st vs)
  case (Cons a as)
  then obtain e v st1 vs' where e: "a = Some e" "llvm_expression php_bindings e st = Inr (v, st1)"
    and vs': "llvm_arguments php_bindings as st1 = Inr (vs', st')" "vs = v # vs'"
    by (cases a) (auto simp: bindE_eq_Inr derefE_def)
  have "zval_table st1" using Cons.prems(2) zval_table_grows [OF php.expression_grows(1) [OF refl e(2)]] by simp
  with Cons.IH [OF vs'(1)] zval_expression [OF e(2) Cons.prems(2)] Cons.prems(3) e(1) vs'(2) show ?case by simp
qed simp

lemma expression_and_arguments_references:
  "B = php_bindings \<Longrightarrow> llvm_expression B e st = Inr (v, st') \<Longrightarrow> ledger_ok st \<Longrightarrow> tables_ok st \<Longrightarrow> leak_free e \<Longrightarrow>
     acquired (own v) st st'"
  "B = php_bindings \<Longrightarrow> llvm_arguments B as st = Inr (vs, st') \<Longrightarrow> ledger_ok st \<Longrightarrow> tables_ok st \<Longrightarrow>
     list_all (pred_option (\<lambda>e. leak_free e \<and> \<not> yields_zval e)) as \<Longrightarrow> acquired [] st st'"
proof (induction B e st and B as st arbitrary: v st' and vs st' rule: llvm_expression_llvm_arguments.induct)
  case (1 B x st)
  show ?case
  proof (cases "m_overriden_variables st x")
    case None
    with 1 have look: "php_createVariableLookup x st = Inr (v, st')" by simp
    from lookup_references [OF acquired_refl this] php_result_types(4) [OF look] 1 show ?thesis by simp
  next
    case (Some w)
    with 1 have new: "php_getNewReferenceForVariable w st = Inr (v, st')" by simp
    from Some 1 have "live st w" "getType w = zval_ptr" by (auto simp: tables_ok_def zval_table_def)
    with new_reference_references [OF acquired_refl _ new] php_result_types(7) [OF new] 1 show ?thesis by simp
  qed
next
  case (2 B e a st)
  then obtain w st1 where e: "llvm_expression B e st = Inr (w, st1)"
    and v: "php_createGetAttribute a w st1 = Inr (v, st')" by (auto simp: bindE_eq_Inr)
  note t = php_result_types(6) [OF v]
  from 2 e have "acquired (own w) st st1" by simp
  with t attribute_references [OF _ v, of "[]"] show ?case by simp
next
  case (3 B name as st)
  then obtain vs st1 where as: "llvm_arguments B as st = Inr (vs, st1)"
    and v: "php_createMethodCall name vs st1 = Inr (v, st')" by (auto simp: bindE_eq_Inr)
  with 3 have "acquired [] st st1" by simp
  moreover have "list_all (\<lambda>a. getType a \<noteq> zval_ptr) vs"
    using argument_types as 3 by (simp add: tables_ok_def)
  ultimately show ?case using call_references [OF _ _ v] php_result_types(5) [OF v] by simp
next
  case (8 B l r op st)
  then obtain lv st1 rv st2 where l: "llvm_expression B l st = Inr (lv, st1)" and r: "llvm_expression B r st1 = Inr (rv, st2)"
    and v: "llvm_binary_operation B op lv rv st2 = Inr (v, st')" by (auto simp: bindE_eq_Inr)
  have st1: "acquired (own lv) st st1" using 8 l by simp
  moreover have "tables_ok st1"
    by (rule tables_ok_acquired [OF st1]) (use php.expression_grows(1) [OF 8(3) l] 8 in \<open>simp_all add: grows_def\<close>)
  ultimately have "acquired (own lv @ own rv @ []) st st2"
    using 8 l r acquired_trans [OF st1] acquired_ok(2) by simp
  from llvm_operation_references(1) [OF this] v 8(3) show ?case by simp
next
  case (9 B e op st)
  then obtain w st1 where e: "llvm_expression B e st = Inr (w, st1)"
    and v: "llvm_unary_operation B op w st1 = Inr (v, st')" by (auto simp: bindE_eq_Inr)
  with 9 llvm_unary_references [of w "[]"] show ?case by simp
next
  case (10 B l r op st)
  then obtain lv st1 rv st2 where l: "llvm_expression B l st = Inr (lv, st1)" and r: "llvm_expression B r st1 = Inr (rv, st2)"
    and v: "llvm_comparison B op lv rv st2 = Inr (v, st')" by (auto simp: bindE_eq_Inr)
  have st1: "acquired (own lv) st st1" using 10 l by simp
  moreover have "tables_ok st1"
    by (rule tables_ok_acquired [OF st1]) (use php.expression_grows(1) [OF 10(3) l] 10 in \<open>simp_all add: grows_def\<close>)
  ultimately have "acquired (own lv @ own rv @ []) st st2"
    using 10 l r acquired_trans [OF st1] acquired_ok(2) by simp
  from llvm_operation_references(2) [OF this] v 10(3) show ?case by simp
next
  case (12 B p ps st)
  then obtain e v st1 vs' where e: "p = Some e" "llvm_expression B e st = Inr (v, st1)"
    and vs': "llvm_arguments B ps st1 = Inr (vs', st')"
    by (cases p) (auto simp: bindE_eq_Inr derefE_def)
  have "\<not> yields_zval e" using 12 e by simp
  then have "own v = []" using zval_expression [of e st v st1] e 12 by (simp add: tables_ok_def)
  moreover have "acquired (own v) st st1" by (rule 12(1) [of e]) (use 12 e in simp_all)
  ultimately have st1: "acquired [] st st1" by simp
  moreover have "tables_ok st1"
    by (rule tables_ok_acquired [OF st1]) (use php.expression_grows(1) [OF 12(3) e(2)] 12 in \<open>simp_all add: grows_def\<close>)
  ultimately have "acquired [] st1 st'"
    using 12 e vs' acquired_ok(2) [OF st1] by (auto simp: derefE_def)
  from acquired_trans [OF st1 this] show ?case by simp
qed (auto intro: acquired_refl)

lemmas expression_references = expression_and_arguments_references(1) [OF refl]

section \<open>Statements\<close>

fun leak_free_node :: "ast \<Rightarrow> bool" where
  "leak_free_node (PrintBlock e) = leak_free e"
| "leak_free_node (IfBlock c th el) = leak_free c"
| "leak_free_node (ForBlock k v i b el) = leak_free i"
| "leak_free_node a = True"

abbreviation balanced :: "ast \<Rightarrow> bool" where
  "balanced a \<equiv> \<forall>st st'. llvm_ast php_bindings a st = Inr st' \<longrightarrow> all_nodes leak_free_node a \<longrightarrow>
     ledger_ok st \<longrightarrow> tables_ok st \<longrightarrow> acquired [] st st'"

lemma balanced_body:
  assumes "\<And>a. a \<in> set_option b \<Longrightarrow> balanced a" and "llvm_body php_bindings b st = Inr st'"
    and "pred_option (all_nodes leak_free_node) b" "ledger_ok st" "tables_ok st"
  shows "acquired [] st st'"
  using assms by (cases b) (auto intro: acquired_refl)

lemma balanced_statements:
  assumes "\<And>a. a \<in> set xs \<Longrightarrow> balanced a"
  shows "llvm_statements php_bindings xs st = Inr st' \<Longrightarrow> list_all (all_nodes leak_free_node) xs \<Longrightarrow>
    ledger_ok st \<Longrightarrow> tables_ok st \<Longrightarrow> acquired [] st st'"
  using assms
proof (induction xs arbitrary: st)
  case (Cons x xs)
  then obtain st1 where x: "llvm_ast php_bindings x st = Inr st1" and xs: "llvm_statements php_bindings xs st1 = Inr st'"
    by (auto simp: bindE_eq_Inr)
  have st1: "acquired [] st st1" using x Cons.prems(2-4) Cons.prems(5) [of x] by simp
  moreover have "tables_ok st1"
    using tables_ok_acquired [OF st1] php.ast_grows [OF x] Cons.prems(4) by (simp add: grows_def)
  moreover have "balanced a" if "a \<in> set xs" for a by (rule Cons.prems(5)) (use that in simp)
  ultimately have "acquired [] st1 st'"
    using Cons.IH [OF xs] Cons.prems(2) acquired_ok(2) [OF st1] by simp
  from acquired_trans [OF st1 this] show ?case by simp
qed (simp add: acquired_refl)

lemma print_block_references:
  assumes run: "llvm_ast php_bindings (PrintBlock e) st = Inr st'" and "leak_free e" "ledger_ok st" "tables_ok st"
  shows "acquired [] st st'"
proof -
  from run obtain v st1 w st2 where e: "llvm_expression php_bindings e st = Inr (v, st1)"
    and print: "php_createPrintCall v st1 = Inr (w, st2)"
    and out: "if php_isVariantType (getType v) then php_variableGoesOutOfScope v st2 = Inr st' else st' = st2"
    by (auto simp: bindE_eq_Inr split: if_splits)
  have "acquired (own v) st st2"
    using acquired_quiet [OF expression_references [OF e] print_quiet [OF print]] assms(2-4) by simp
  with out show ?thesis
    by (auto simp: php_isVariantType_def split: if_splits intro: release_scope)
qed

lemma if_block_references:
  assumes run: "llvm_ast php_bindings (IfBlock c th el) st = Inr st'"
    and th: "\<And>a. a \<in> set_option th \<Longrightarrow> balanced a" and el: "\<And>a. a \<in> set_option el \<Longrightarrow> balanced a"
    and free: "all_nodes leak_free_node (IfBlock c th el)" and ok: "ledger_ok st" "tables_ok st"
  shows "acquired [] st st'"
  using run
proof (rule if_run)
  fix cond st0 b1 st1 b2 st2 b3 st3 st4 st5
  assume cond: "llvm_expression php_bindings c st = Inr (cond, st0)" "getType cond = IntTy 1"
    and bs: "new_block_in_function st0 = (b1, st1)" "new_block st1 = (b2, st2)" "new_block st2 = (b3, st3)"
    and body: "llvm_body php_bindings th (SetInsertPoint b1 (CreateCondBr cond b1 b2 st3)) = Inr st4"
      "llvm_body php_bindings el (SetInsertPoint b2 (push_block b2 (CreateBr b3 st4))) = Inr st5"
    and st': "st' = SetInsertPoint b3 (push_block b3 (CreateBr b3 st5))"
  let ?t = "SetInsertPoint b1 (CreateCondBr cond b1 b2 st3)" and ?e = "SetInsertPoint b2 (push_block b2 (CreateBr b3 st4))"
  note tables = php.if_tables [OF cond(1) bs body(1)]
  have "acquired [] st st0" using expression_references [OF cond(1)] cond(2) free ok by simp
  moreover have "quiet st0 ?t"
    using quiet_new_block(2) [OF bs(1)] quiet_new_block(1) [OF bs(2)] quiet_new_block(1) [OF bs(3)]
    by (auto intro: quiet_trans)
  ultimately have t: "acquired [] st ?t" by (rule acquired_quiet)
  have "tables_ok ?t" by (rule tables_ok_acquired [OF t]) (use tables ok in simp_all)
  with balanced_body [OF th body(1)] free acquired_ok(2) [OF t] have "acquired [] ?t st4" by simp
  from acquired_trans [OF t this] have "acquired [] st st4" by simp
  then have e: "acquired [] st ?e" by (rule acquired_quiet) simp
  have "tables_ok ?e" by (rule tables_ok_acquired [OF e]) (use tables ok in simp_all)
  with balanced_body [OF el body(2)] free acquired_ok(2) [OF e] have "acquired [] ?e st5" by simp
  from acquired_trans [OF e this] have "acquired [] st st5" by simp
  then show ?thesis unfolding st' by (rule acquired_quiet) simp
qed

lemma quiet_loop_variables [simp]:
  "quiet st (set_loop_variable h name v st1) = quiet st st1"
  "quiet st (restore_loop_variable h name v st1) = quiet st st1"
  "quiet (restore_loop_variable h name v st) st1 = quiet st st1"
  by (simp_all add: set_loop_variable_def restore_loop_variable_def override_def quiet_def destroyed_def)

lemma tables_ok_variable:
  "tables_ok st \<Longrightarrow> pred_option (\<lambda>x. getType x = zval_ptr \<and> live st x) v \<Longrightarrow>
   tables_ok (set_loop_variable h name v st)"
  by (cases v) (auto simp: tables_ok_def zval_table_def set_loop_variable_def override_def live_def)

lemma live_variables: "live (set_loop_variable h name v st) = live st"
  by (simp add: live_def fun_eq_iff set_loop_variable_def override_def)

lemma release_references:
  assumes "acquired (loaded v @ X) st0 st" and "release_loop_variable php_bindings h v st = Inr st'"
    and "v \<noteq> None \<longleftrightarrow> h"
  shows "acquired X st0 st'"
  using assms by (cases v) (auto simp: release_loop_variable_def derefE_def intro: release_scope)

lemma for_block_references:
  assumes run: "llvm_ast php_bindings (ForBlock k v i b el) st = Inr st'"
    and b: "\<And>a. a \<in> set_option b \<Longrightarrow> balanced a" and el: "\<And>a. a \<in> set_option el \<Longrightarrow> balanced a"
    and free: "all_nodes leak_free_node (ForBlock k v i b el)" and ok: "ledger_ok st" "tables_ok st"
  shows "acquired [] st st'"
  using run
proof (rule for_run, unfold php_bindings_simps)
  fix it st0 b1 st1 b2 st2 b3 st3 c st4 keyName valueName kv vv st6 st7 st8 st9 st10' c' st10 st11 st12
  assume it: "llvm_expression php_bindings i st = Inr (it, st0)"
    and bs: "new_block_in_function st0 = (b1, st1)" "new_block_in_function st1 = (b2, st2)"
      "new_block_in_function st2 = (b3, st3)"
    and c: "php_createForLoopInit it st3 = Inr (c, st4)"
    and vars: "php_createForLoopGetVariables it (k \<noteq> None) (v \<noteq> None) (SetInsertPoint b1 (CreateCondBr c b1 b2 st4)) = Inr ((kv, vv), st6)"
    and body: "llvm_body php_bindings b (set_loop_variable (v \<noteq> None) valueName vv (set_loop_variable (k \<noteq> None) keyName kv st6)) = Inr st7"
    and out: "release_loop_variable php_bindings (k \<noteq> None) kv st7 = Inr st8"
      "release_loop_variable php_bindings (v \<noteq> None) vv st8 = Inr st9"
    and st10': "st10' = restore_loop_variable (v \<noteq> None) valueName (m_overriden_variables st4 valueName)
      (restore_loop_variable (k \<noteq> None) keyName (m_overriden_variables st4 keyName) st9)"
    and step: "php_createForLoopNextIteration it st10' = Inr (c', st10)"
    and els: "llvm_body php_bindings el (SetInsertPoint b2 (CreateCondBr c' b1 b3 st10)) = Inr st11"
    and clean: "php_createForLoopCleanup it (SetInsertPoint b3 (CreateBr b3 st11)) = Inr st12"
    and final: "php_variableGoesOutOfScope it st12 = Inr st'"
  note tables = php.for_tables [unfolded php_bindings_simps, OF it bs c vars body out st10' step]
  note types = loop_variable_types [OF vars]
  let ?b = "set_loop_variable (v \<noteq> None) valueName vv (set_loop_variable (k \<noteq> None) keyName kv st6)"
    and ?e = "SetInsertPoint b2 (CreateCondBr c' b1 b3 st10)"
  have "acquired [it] st st0"
    using expression_references [OF it ok] php_result_types(8) [OF c] free by simp
  moreover have "quiet st0 (SetInsertPoint b1 (CreateCondBr c b1 b2 st4))"
    using bs [THEN quiet_new_block(2)] init_quiet [OF c] by (auto intro: quiet_trans)
  ultimately have loop: "acquired (loaded kv @ loaded vv @ [it]) st st6"
    by (intro loop_variables_references [OF _ vars]) (rule acquired_quiet)
  then have ready: "acquired (loaded kv @ loaded vv @ [it]) st ?b" by (rule acquired_quiet) simp
  have "pred_option (\<lambda>x. getType x = zval_ptr \<and> live st6 x) kv" "pred_option (\<lambda>x. getType x = zval_ptr \<and> live st6 x) vv"
    using types(1,2) acquired_owned [OF loop] by (cases kv; cases vv; simp)+
  then have "tables_ok ?b"
    using tables_ok_acquired [OF loop tables(1) ok(2)]
    by (auto intro!: tables_ok_variable simp: live_variables)
  with balanced_body [OF b body] free acquired_ok(2) [OF ready] have "acquired [] ?b st7" by simp
  from acquired_trans [OF ready this] have "acquired (loaded kv @ loaded vv @ [it]) st st7" by simp
  from release_references [OF release_references [OF this out(1) types(3)] out(2) types(4)]
  have "acquired [it] st st9" .
  then have e: "acquired [it] st ?e" by (rule acquired_quiet) (use next_quiet [OF step] in \<open>simp add: st10'\<close>)
  moreover from tables_ok_acquired [OF e] tables(2) ok have "tables_ok ?e" by simp
  ultimately have "acquired [it] st st11"
    using balanced_body [OF el els] free acquired_ok(2) acquired_trans [of "[it]" st ?e "[]" st11] by simp
  then have "acquired [it] st st12"
    using clean by (auto simp: php_createForLoopCleanup_def intro: acquired_quiet)
  from release_scope [OF this final] show ?thesis .
qed

lemma all_balanced: "balanced a"
proof (induction a)
  case (Statements xs)
  then show ?case using balanced_statements [of xs] by simp
next
  case (RawBlock t)
  then show ?case
    by (auto simp: bindE_eq_Inr dest!: print_quiet intro: acquired_quiet acquired_refl)
next
  case (PrintBlock e)
  then show ?case using print_block_references by simp
next
  case (IfBlock c th el)
  then show ?case using if_block_references by blast
next
  case (ForBlock k v i b el)
  then show ?case using for_block_references by blast
qed simp

text \<open>
  C23: (balance of the references) When the code of a template that passes no variable, attribute or
  other zval to a method has been generated, every value whose references are counted is destroyed by
  exactly one call; the values that are borrowed (count -1) and those that are not counted are not
  destroyed.  (An argument that is a zval is never destroyed.)
\<close>

theorem references_are_balanced:
  assumes "llvm_ast php_bindings a st = Inr st'" and "all_nodes leak_free_node a"
    and "code st = []" "rc st = Map.empty" "m_overriden_variables st = Map.empty"
  shows "case rc st' v of
      None \<Rightarrow> v \<notin> set (destroyed st')
    | Some n \<Rightarrow> n = -1 \<and> v \<notin> set (destroyed st') \<or> n = 0 \<and> count_list (destroyed st') v = 1"
proof -
  have "ledger_ok st" "tables_ok st"
    using assms(3-5) by (simp_all add: ledger_ok_def tables_ok_def zval_table_def destroyed_def)
  then have "acquired [] st st'" using all_balanced assms(1,2) by blast
  then have "n = -1 \<or> n = 0" if "rc st' v = Some n" for n
    using that assms(4) by (auto simp: acquired_def ledger_ok_def)
  moreover have "count_list (destroyed st') v = (if rc st' v = Some 0 then 1 else 0)"
    using \<open>acquired [] st st'\<close> by (simp add: acquired_def ledger_ok_def)
  ultimately show ?thesis
    by (cases "rc st' v") (auto simp: count_list_0_iff)
qed

theorem references_are_balanced_witness:
  "\<exists>st'. llvm_ast php_bindings (PrintBlock (MethodCall ''f'' [])) (new_llvm_visitor new_php_bindings) = Inr st' \<and>
     count_list (destroyed st') (Request 0 zval_ptr) = 1"
proof -
  let ?a = "PrintBlock (MethodCall ''f'' [])" and ?st = "new_llvm_visitor new_php_bindings"
  let ?P = "\<lambda>r. \<not> isl r \<and> rc (projr r) (Request 0 zval_ptr) = Some 0"
  have "?P (llvm_ast php_bindings ?a ?st)"
    by (simp add: php_eval php_createMethodCall_def pass_arguments_def getArgumentAtIdx_def)
  then obtain st' where st': "llvm_ast php_bindings ?a ?st = Inr st'" and v: "rc st' (Request 0 zval_ptr) = Some 0"
    by (cases "llvm_ast php_bindings ?a ?st") auto
  have "code ?st = []" "rc ?st = Map.empty" "m_overriden_variables ?st = Map.empty"
    by (simp_all add: new_llvm_visitor_def new_php_bindings_def)
  from references_are_balanced [OF st' _ this, of "Request 0 zval_ptr"] v
  have "count_list (destroyed st') (Request 0 zval_ptr) = 1" by simp
  with st' show ?thesis by blast
qed

section \<open>Nested loops over one loop variable\<close>

abbreviation metadata :: "php_llvm_state \<Rightarrow> lvalue \<Rightarrow> (lvalue \<times> lvalue) option" where
  "metadata st \<equiv> m_forLoopMetadata (bindings_state st)"

lemma scope_metadata: "php_variableGoesOutOfScope v st = Inr st' \<Longrightarrow> metadata st' = metadata st"
  by (auto simp: php_variableGoesOutOfScope_def runtime_call_def findFunction_def CreateCall_def request_def
      bindE_eq_Inr Let_def emit_instr_def set_refcount_def split: option.splits if_splits)

lemma release_metadata: "release_loop_variable php_bindings h v st = Inr st' \<Longrightarrow> metadata st' = metadata st"
  by (auto simp: release_loop_variable_def derefE_def split: if_splits option.splits dest: scope_metadata)

lemma restore_metadata: "metadata (restore_loop_variable h name v st) = metadata st"
  by (simp add: restore_loop_variable_def override_def)

lemma other_variable:
  "(h \<longrightarrow> name \<noteq> x) \<Longrightarrow> m_overriden_variables (set_loop_variable h name v st) x = m_overriden_variables st x"
  by (auto simp: set_loop_variable_def override_def)

lemma reference_is_variable:
  "m_overriden_variables st x = Some w \<Longrightarrow> llvm_expression php_bindings (VariableReference x) st = Inr (v, st') \<Longrightarrow> v = w"
  by (auto dest: php_result_types(7))

lemma loop_forgets_metadata:
  assumes "llvm_ast php_bindings (ForBlock k v (VariableReference x) b el) st = Inr st'"
    and "m_overriden_variables st x = Some w"
  shows "metadata st' w = None"
  using assms(1)
proof (rule for_run, unfold php_bindings_simps)
  fix it st0 b3 st11 st12
  assume "llvm_expression php_bindings (VariableReference x) st = Inr (it, st0)"
    and clean: "php_createForLoopCleanup it (SetInsertPoint b3 (CreateBr b3 st11)) = Inr st12"
    and final: "php_variableGoesOutOfScope it st12 = Inr st'"
  then have "it = w" using reference_is_variable assms(2) by blast
  with clean scope_metadata [OF final] show ?thesis
    by (auto simp: php_createForLoopCleanup_def set_metadata_def)
qed

text \<open>
  C32: (nested loops over one variable) A loop over a loop variable cannot be compiled when its body is
  another loop over the same variable: at the end of the inner loop the bindings forget the hash table
  and the position of the outer one, whose next iteration is then called with null pointers.
\<close>

theorem nested_loops_do_not_compile:
  assumes "m_overriden_variables st x = Some w"
    and "k \<noteq> Some (VariableReference x)" and "v \<noteq> Some (VariableReference x)"
  shows "isl (llvm_ast php_bindings (ForBlock k v (VariableReference x)
      (Some (ForBlock k' v' (VariableReference x) b el')) el) st)"
proof (rule ccontr)
  let ?inner = "ForBlock k' v' (VariableReference x) b el'"
  assume "\<not> ?thesis"
  then obtain st' where "llvm_ast php_bindings (ForBlock k v (VariableReference x) (Some ?inner) el) st = Inr st'"
    by (metis isl_def obj_sumE)
  then show False
  proof (rule for_run, unfold php_bindings_simps)
    fix it st0 b1 st1 b2 st2 b3 st3 c st4 keyName valueName kv vv st6 st7 st8 st9 st10' c' st10
    assume it: "llvm_expression php_bindings (VariableReference x) st = Inr (it, st0)"
      and bs: "new_block_in_function st0 = (b1, st1)" "new_block_in_function st1 = (b2, st2)"
        "new_block_in_function st2 = (b3, st3)"
      and c: "php_createForLoopInit it st3 = Inr (c, st4)"
      and names: "llvm_variable_name k = Inr keyName" "llvm_variable_name v = Inr valueName"
      and vars: "php_createForLoopGetVariables it (k \<noteq> None) (v \<noteq> None) (SetInsertPoint b1 (CreateCondBr c b1 b2 st4)) = Inr ((kv, vv), st6)"
      and body: "llvm_body php_bindings (Some ?inner) (set_loop_variable (v \<noteq> None) valueName vv (set_loop_variable (k \<noteq> None) keyName kv st6)) = Inr st7"
      and out: "release_loop_variable php_bindings (k \<noteq> None) kv st7 = Inr st8"
        "release_loop_variable php_bindings (v \<noteq> None) vv st8 = Inr st9"
      and st10': "st10' = restore_loop_variable (v \<noteq> None) valueName (m_overriden_variables st4 valueName)
        (restore_loop_variable (k \<noteq> None) keyName (m_overriden_variables st4 keyName) st9)"
      and step: "php_createForLoopNextIteration it st10' = Inr (c', st10)"
    note tables = php.for_tables [unfolded php_bindings_simps, OF it bs c vars body out st10' step]
    have "k \<noteq> None \<longrightarrow> keyName \<noteq> x" "v \<noteq> None \<longrightarrow> valueName \<noteq> x"
      using names assms(2,3) by (cases k; cases v; auto simp: variable_name_of_def split: expr.splits)+
    then have "m_overriden_variables (set_loop_variable (v \<noteq> None) valueName vv (set_loop_variable (k \<noteq> None) keyName kv st6)) x = Some w"
      using assms(1) tables(1) by (simp add: other_variable)
    then have "metadata st7 w = None"
      using loop_forgets_metadata body by simp
    then have "metadata st10' it = None"
      using out [THEN release_metadata] reference_is_variable [OF assms(1) it] unfolding st10'
      by (simp add: restore_metadata)
    with step show False by (simp add: php_createForLoopNextIteration_def)
  qed
qed

theorem nested_loops_do_not_compile_witness:
  "let st = override ''y'' (Some (Request 0 zval_ptr)) (set_refcount (Request 0 zval_ptr) (-1) (new_llvm_visitor new_php_bindings));
       loop = (\<lambda>body. ForBlock None (Some (VariableReference ''z'')) (VariableReference ''y'') body None)
   in isl (llvm_ast php_bindings (loop (Some (loop None))) st) \<and> \<not> isl (llvm_ast php_bindings (loop None) st)"
  unfolding Let_def
  by (rule conjI, rule nested_loops_do_not_compile [of _ _ "Request 0 zval_ptr"])
    (simp_all add: php_eval)

end
