(* ===== verification/Php_Runtime.thy ===== *)
theory Php_Runtime
  imports Expressions
begin

text \<open>
  The run-time functions that generated code calls: \<open>src/php/php_bindings_functions.c\<close> and the
  buffer of \<open>src/php/php_template.h\<close>.

  The functions and macros of the Zend API are parameters, the fields of the record \<open>zend\<close>.  They
  work on a memory of type \<open>'s\<close>, with pointers to zvals of type \<open>'z\<close>, hash tables of type \<open>'h\<close> and
  positions in hash tables of type \<open>'p\<close>; what the functions of the file do with them is defined here.
\<close>

section \<open>The Zend API\<close>

datatype zend_type = IS_OBJECT | IS_ARRAY | IS_STRING | Other_type

text \<open>What the file stores in a zval; \<open>Zval_copy\<close> is the shallow copy of \<open>ZVAL_COPY_VALUE\<close>.\<close>

datatype 'z zval_content =
    Zval_double double
  | Zval_long long
  | Zval_bool bool
  | Zval_string string
  | Zval_copy 'z

text \<open>
  \<open>convert_to_string\<close> is the text of a local zval that holds the given content after the call of that
  name, in the memory that is left when the zval has been destructed.  An operator of Zend stores into
  its first argument; \<open>False\<close> is its result \<open>FAILURE\<close>.  \<open>zend_hash_find\<close> gets the bytes of the key.
\<close>

record ('s, 'z, 'h, 'p) zend =
  Z_TYPE_P :: "'z \<Rightarrow> 's \<Rightarrow> zend_type"
  Z_STRVAL_P :: "'z \<Rightarrow> 's \<Rightarrow> string"
  Z_OBJPROP_P :: "'z \<Rightarrow> 's \<Rightarrow> 'h"
  Z_ARRVAL_P :: "'z \<Rightarrow> 's \<Rightarrow> 'h"
  zval_used_for_init :: "'z"
  convert_to_string :: "'z zval_content \<Rightarrow> 's \<Rightarrow> string \<times> 's"
  store_zval :: "'z \<Rightarrow> 'z zval_content \<Rightarrow> 's \<Rightarrow> 's"
  local_zval :: "'z zval_content \<Rightarrow> 's \<Rightarrow> 'z \<times> 's"
  MAKE_STD_ZVAL :: "'s \<Rightarrow> 'z \<times> 's"
  ALLOC_INIT_ZVAL :: "'s \<Rightarrow> 'z \<times> 's"
  zval_ptr_dtor :: "'z \<Rightarrow> 's \<Rightarrow> 's"
  zval_is_true :: "'z \<Rightarrow> 's \<Rightarrow> bool"
  compare_function :: "'z \<Rightarrow> 'z \<Rightarrow> 's \<Rightarrow> long option \<times> 's"
  add_function :: "'z \<Rightarrow> 'z \<Rightarrow> 'z \<Rightarrow> 's \<Rightarrow> bool \<times> 's"
  sub_function :: "'z \<Rightarrow> 'z \<Rightarrow> 'z \<Rightarrow> 's \<Rightarrow> bool \<times> 's"
  mul_function :: "'z \<Rightarrow> 'z \<Rightarrow> 'z \<Rightarrow> 's \<Rightarrow> bool \<times> 's"
  div_function :: "'z \<Rightarrow> 'z \<Rightarrow> 'z \<Rightarrow> 's \<Rightarrow> bool \<times> 's"
  mod_function :: "'z \<Rightarrow> 'z \<Rightarrow> 'z \<Rightarrow> 's \<Rightarrow> bool \<times> 's"
  boolean_not_function :: "'z \<Rightarrow> 'z \<Rightarrow> 's \<Rightarrow> bool \<times> 's"
  zend_throw_exception :: "string \<Rightarrow> 's \<Rightarrow> 's"
  zend_hash_find :: "'h \<Rightarrow> string \<Rightarrow> 's \<Rightarrow> 'z option"
  call_user_function :: "'z \<Rightarrow> 'z \<Rightarrow> 'z list \<Rightarrow> 's \<Rightarrow> bool \<times> 's"
  zend_hash_internal_pointer_reset_ex :: "'h \<Rightarrow> 's \<Rightarrow> 'p option"
  zend_hash_num_elements :: "'h \<Rightarrow> 's \<Rightarrow> nat"
  zend_hash_get_current_data_ex :: "'h \<Rightarrow> 'p option \<Rightarrow> 's \<Rightarrow> 'z option"
  zend_hash_get_current_key_zval_ex :: "'h \<Rightarrow> 'z \<Rightarrow> 'p option \<Rightarrow> 's \<Rightarrow> 's"
  zend_hash_move_forward_ex :: "'h \<Rightarrow> 'p option \<Rightarrow> 's \<Rightarrow> bool \<times> 'p option"

section \<open>The buffer\<close>

text \<open>\<open>ptr\<close> is the block of the buffer; the two lengths have the width of \<open>size_t\<close>.\<close>

record template_buffer =
  ptr :: "char list"
  str_length :: "64 word"
  allocated_length :: "64 word"

definition BUFFER_CHUNK_SIZE :: nat where
  "BUFFER_CHUNK_SIZE = 256"

text \<open>\<open>str_len + 1\<close> is a sum of \<open>int\<close>s.\<close>

definition int_successor :: "nat \<Rightarrow> nat res" where
  "int_successor n = (if n + 1 < 2 ^ 31 then Inr (n + 1) else Inl (Undefined SignedOverflow))"

text \<open>The new block of \<open>erealloc\<close> begins as the old one; \<open>garbage\<close> stands for the rest.\<close>

definition erealloc :: "(nat \<Rightarrow> char) \<Rightarrow> char list \<Rightarrow> nat \<Rightarrow> char list" where
  "erealloc garbage block n = take n block @ map garbage [length block..<n]"

definition grow_buffer :: "(nat \<Rightarrow> char) \<Rightarrow> nat \<Rightarrow> template_buffer \<Rightarrow> template_buffer res" where
  "grow_buffer garbage str_len buffer =
     (if allocated_length buffer < str_length buffer + word_of_nat str_len + 1
      then bindE (int_successor str_len) (\<lambda>n.
        let new_length = allocated_length buffer +
              word_of_nat (if BUFFER_CHUNK_SIZE < n then n else BUFFER_CHUNK_SIZE)
        in Inr (buffer\<lparr>ptr := erealloc garbage (ptr buffer) (unat new_length),
                       allocated_length := new_length\<rparr>))
      else Inr buffer)"

definition add_to_buffer :: "(nat \<Rightarrow> char) \<Rightarrow> string \<Rightarrow> template_buffer \<Rightarrow> template_buffer res" where
  "add_to_buffer garbage str buffer =
     bindE (grow_buffer garbage (length str) buffer) (\<lambda>buffer.
     bindE (memcpy_at (ptr buffer) (unat (str_length buffer)) str) (\<lambda>block.
       let new_length = str_length buffer + word_of_nat (length str)
       in bindE (memcpy_at block (unat new_length) [nul]) (\<lambda>block.
          Inr (buffer\<lparr>ptr := block, str_length := new_length\<rparr>))))"

section \<open>Printing\<close>

type_synonym 's printing = "'s \<Rightarrow> (template_buffer \<times> 's) res"

definition append_text :: "(nat \<Rightarrow> char) \<Rightarrow> string \<Rightarrow> template_buffer \<Rightarrow> 's printing" where
  "append_text garbage str buffer s = bindE (add_to_buffer garbage str buffer) (\<lambda>buffer. Inr (buffer, s))"

definition print_double ::
    "('s, 'z, 'h, 'p) zend \<Rightarrow> (nat \<Rightarrow> char) \<Rightarrow> double \<Rightarrow> template_buffer \<Rightarrow> 's printing" where
  "print_double Z garbage v buffer s =
     (let (zv, s) = convert_to_string Z (Zval_double v) s in append_text garbage zv buffer s)"

definition print_integer ::
    "('s, 'z, 'h, 'p) zend \<Rightarrow> (nat \<Rightarrow> char) \<Rightarrow> long \<Rightarrow> template_buffer \<Rightarrow> 's printing" where
  "print_integer Z garbage v buffer s =
     (let (zv, s) = convert_to_string Z (Zval_long v) s in append_text garbage zv buffer s)"

definition print_boolean :: "(nat \<Rightarrow> char) \<Rightarrow> bool \<Rightarrow> template_buffer \<Rightarrow> 's printing" where
  "print_boolean garbage v buffer s = append_text garbage (if v then ''1'' else []) buffer s"

text \<open>\<open>ZVAL_STRING\<close> takes the length from \<open>strlen\<close>, so \<open>v\<close> is the block that the pointer goes to.\<close>

definition print_string :: "(nat \<Rightarrow> char) \<Rightarrow> char list \<Rightarrow> template_buffer \<Rightarrow> 's printing" where
  "print_string garbage v buffer s = append_text garbage (c_string v) buffer s"

definition print_variant ::
    "('s, 'z, 'h, 'p) zend \<Rightarrow> (nat \<Rightarrow> char) \<Rightarrow> 'z \<Rightarrow> template_buffer \<Rightarrow> 's printing" where
  "print_variant Z garbage v buffer s =
     (if Z_TYPE_P Z v s \<noteq> IS_STRING
      then let (str_v, s) = convert_to_string Z (Zval_copy v) s in append_text garbage str_v buffer s
      else append_text garbage (Z_STRVAL_P Z v s) buffer s)"

section \<open>Operators\<close>

definition STR_TO_SHORT :: "char \<Rightarrow> char \<Rightarrow> 16 word" where
  "STR_TO_SHORT x y = word_of_int (push_bit 8 (code_of_char x) OR code_of_char y)"

text \<open>
  The functions with a \<open>bool\<close> result write what they compute through a pointer: \<open>Some x\<close> is \<open>true\<close>
  with \<open>x\<close> written, \<open>None\<close> is \<open>false\<close>.
\<close>

definition compare_variant ::
    "('s, 'z, 'h, 'p) zend \<Rightarrow> 16 word \<Rightarrow> 'z \<Rightarrow> 'z \<Rightarrow> 's \<Rightarrow> bool option \<times> 's" where
  "compare_variant Z op left right s =
     (if op = STR_TO_SHORT CHR ''&'' CHR ''&''
      then (Some (zval_is_true Z left s \<and> zval_is_true Z right s), s)
      else if op = STR_TO_SHORT CHR ''|'' CHR ''|''
      then (Some (zval_is_true Z left s \<or> zval_is_true Z right s), s)
      else (case compare_function Z left right s of
          (None, s) \<Rightarrow> (None, s)
        | (Some z_result, s) \<Rightarrow>
            let result = sint z_result
            in if op = STR_TO_SHORT CHR ''='' CHR ''='' then (Some (result = 0), s)
               else if op = STR_TO_SHORT CHR ''!'' CHR ''='' then (Some (result \<noteq> 0), s)
               else if op = STR_TO_SHORT CHR ''<'' CHR ''='' then (Some (result \<le> 0), s)
               else if op = STR_TO_SHORT CHR ''>'' CHR ''='' then (Some (result \<ge> 0), s)
               else if op = STR_TO_SHORT CHR ''>'' nul then (Some (result > 0), s)
               else if op = STR_TO_SHORT CHR ''<'' nul then (Some (result < 0), s)
               else (None, zend_throw_exception Z (''Unknown compare operator '' @ [squote] @
                       [char_of (uint (op div 256)), char_of (uint (op AND 255))] @ [squote]) s)))"

text \<open>The result of an operator: the zval that was made for it, when the operator succeeded.\<close>

definition store_result :: "'z \<Rightarrow> bool \<times> 's \<Rightarrow> 'z option \<times> 's" where
  "store_result result r = (case r of (success, s) \<Rightarrow> (if success then Some result else None, s))"

definition binary_variant_operation ::
    "('s, 'z, 'h, 'p) zend \<Rightarrow> char \<Rightarrow> 'z \<Rightarrow> 'z \<Rightarrow> 's \<Rightarrow> 'z option \<times> 's" where
  "binary_variant_operation Z op left right s =
     (let (result, s) = MAKE_STD_ZVAL Z s
      in if op = CHR ''+'' then store_result result (add_function Z result left right s)
         else if op = CHR ''-'' then store_result result (sub_function Z result left right s)
         else if op = CHR ''*'' then store_result result (mul_function Z result left right s)
         else if op = CHR ''/'' then store_result result (div_function Z result left right s)
         else if op = CHR ''%'' then store_result result (mod_function Z result left right s)
         else (None, zend_throw_exception Z
                 (''Unknown binary operator '' @ [squote, op, squote]) s))"

text \<open>The sign operators add and subtract from a local zval that holds zero.\<close>

definition unary_variant_operation ::
    "('s, 'z, 'h, 'p) zend \<Rightarrow> char \<Rightarrow> 'z \<Rightarrow> 's \<Rightarrow> 'z option \<times> 's" where
  "unary_variant_operation Z op v s =
     (let (result, s) = MAKE_STD_ZVAL Z s
      in if op = CHR ''!'' then store_result result (boolean_not_function Z result v s)
         else if op = CHR ''+''
         then let (zero, s) = local_zval Z (Zval_long 0) s in store_result result (add_function Z result zero v s)
         else if op = CHR ''-''
         then let (zero, s) = local_zval Z (Zval_long 0) s in store_result result (sub_function Z result zero v s)
         else (None, zend_throw_exception Z
                 (''Unknown unnary operator '' @ [squote, op, squote]) s))"

section \<open>Lookups and calls\<close>

text \<open>The key of a lookup: the first \<open>n\<close> bytes of the block of a C string.\<close>

definition key_bytes :: "char list \<Rightarrow> nat \<Rightarrow> string res" where
  "key_bytes key n = (if n \<le> length key then Inr (take n key) else Inl (Undefined OutOfBounds))"

text \<open>\<open>keyLength + 1\<close> is a sum of \<open>uint\<close>s.\<close>

definition get_value_from_hashtable ::
    "('s, 'z, 'h, 'p) zend \<Rightarrow> 'h \<Rightarrow> char list \<Rightarrow> 32 word \<Rightarrow> 's \<Rightarrow> 'z res" where
  "get_value_from_hashtable Z table key keyLength s =
     bindE (key_bytes key (unat (keyLength + 1))) (\<lambda>k.
       Inr (case zend_hash_find Z table k s of None \<Rightarrow> zval_used_for_init Z | Some v \<Rightarrow> v))"

definition get_attribute ::
    "('s, 'z, 'h, 'p) zend \<Rightarrow> 'z \<Rightarrow> char list \<Rightarrow> 32 word \<Rightarrow> 's \<Rightarrow> 'z res" where
  "get_attribute Z v key keyLength s =
     (case Z_TYPE_P Z v s of
        IS_OBJECT \<Rightarrow> get_value_from_hashtable Z (Z_OBJPROP_P Z v s) key keyLength s
      | IS_ARRAY \<Rightarrow> get_value_from_hashtable Z (Z_ARRVAL_P Z v s) key keyLength s
      | _ \<Rightarrow> Inr (zval_used_for_init Z))"

definition do_method_call ::
    "('s, 'z, 'h, 'p) zend \<Rightarrow> 'h \<Rightarrow> char list \<Rightarrow> 32 word \<Rightarrow> 'z list \<Rightarrow> 's \<Rightarrow> ('z option \<times> 's) res" where
  "do_method_call Z func_table functionName functionNameLength params s =
     (let (return_value, s) = ALLOC_INIT_ZVAL Z s
      in bindE (key_bytes functionName (unat functionNameLength)) (\<lambda>k.
         case zend_hash_find Z func_table k s of
           None \<Rightarrow> Inr (None, zend_throw_exception Z (''No such function: '' @ c_string functionName) s)
         | Some z_function \<Rightarrow>
             let (success, s) = call_user_function Z z_function return_value params s
             in Inr (if success then Some return_value else None, s)))"

section \<open>Loops\<close>

text \<open>
  The result and what \<open>ht_pos\<close> points to afterwards.  The positions are \<open>None\<close> where the pointer of
  the position is null.
\<close>

definition forloop_init ::
    "('s, 'z, 'h, 'p) zend \<Rightarrow> 'z \<Rightarrow> 'p option \<Rightarrow> 's \<Rightarrow> 'h option \<times> 'p option" where
  "forloop_init Z v ht_pos s =
     (let init = (\<lambda>ht. (if 0 < zend_hash_num_elements Z ht s then Some ht else None,
                        zend_hash_internal_pointer_reset_ex Z ht s))
      in case Z_TYPE_P Z v s of
           IS_OBJECT \<Rightarrow> init (Z_OBJPROP_P Z v s)
         | IS_ARRAY \<Rightarrow> init (Z_ARRVAL_P Z v s)
         | _ \<Rightarrow> (None, ht_pos))"

text \<open>The flags say which of the two pointers are not null; what is stored through them is returned.\<close>

definition forloop_getvalues ::
    "('s, 'z, 'h, 'p) zend \<Rightarrow> 'h \<Rightarrow> 'p option \<Rightarrow> bool \<Rightarrow> bool \<Rightarrow> 's \<Rightarrow> ('z option \<times> 'z option) \<times> 's" where
  "forloop_getvalues Z ht ht_pos has_value has_key s =
     (let current = (case zend_hash_get_current_data_ex Z ht ht_pos s of
                       Some v \<Rightarrow> v | None \<Rightarrow> zval_used_for_init Z);
          v = (if has_value then Some current else None)
      in if has_key
         then let (key, s) = MAKE_STD_ZVAL Z s
              in ((v, Some key), zend_hash_get_current_key_zval_ex Z ht key ht_pos s)
         else ((v, None), s))"

definition forloop_next ::
    "('s, 'z, 'h, 'p) zend \<Rightarrow> 'h \<Rightarrow> 'p option \<Rightarrow> 's \<Rightarrow> bool \<times> 'p option" where
  "forloop_next Z ht ht_pos s =
     (let (success, ht_pos) = zend_hash_move_forward_ex Z ht ht_pos s
      in (success \<and> ht_pos \<noteq> None, ht_pos))"

section \<open>Wrapping values\<close>

text \<open>\<open>store_zval\<close> is \<open>INIT_PZVAL\<close> with the macro that stores the content.\<close>

definition set_zval_double :: "('s, 'z, 'h, 'p) zend \<Rightarrow> 'z \<Rightarrow> double \<Rightarrow> 's \<Rightarrow> 's" where
  "set_zval_double Z zv v s = store_zval Z zv (Zval_double v) s"

definition set_zval_bool :: "('s, 'z, 'h, 'p) zend \<Rightarrow> 'z \<Rightarrow> bool \<Rightarrow> 's \<Rightarrow> 's" where
  "set_zval_bool Z zv v s = store_zval Z zv (Zval_bool v) s"

definition set_zval_int :: "('s, 'z, 'h, 'p) zend \<Rightarrow> 'z \<Rightarrow> long \<Rightarrow> 's \<Rightarrow> 's" where
  "set_zval_int Z zv v s = store_zval Z zv (Zval_long v) s"

definition set_zval_string_nocopy :: "('s, 'z, 'h, 'p) zend \<Rightarrow> 'z \<Rightarrow> char list \<Rightarrow> 's \<Rightarrow> 's" where
  "set_zval_string_nocopy Z zv v s = store_zval Z zv (Zval_string (c_string v)) s"

definition destruct_zval :: "('s, 'z, 'h, 'p) zend \<Rightarrow> 'z \<Rightarrow> 's \<Rightarrow> 's" where
  "destruct_zval Z v s = zval_ptr_dtor Z v s"

end
