(* ===== verification/Runtime_Laws.thy ===== *)
theory Runtime_Laws
  imports Php_Runtime
begin

text \<open>
  What the run-time functions of the PHP extension do: the buffer holds the printed text, the
  operators understand the codes that the bindings emit, and a loop visits every element.
\<close>

section \<open>The buffer\<close>

definition contents :: "template_buffer \<Rightarrow> string" where
  "contents b = take (unat (str_length b)) (ptr b)"

definition buffer_ok :: "template_buffer \<Rightarrow> bool" where
  "buffer_ok b \<longleftrightarrow> length (ptr b) = unat (allocated_length b) \<and> str_length b \<le> allocated_length b"

text \<open>There is a byte after the text, and it is the terminator.\<close>

definition terminated :: "template_buffer \<Rightarrow> bool" where
  "terminated b \<longleftrightarrow> str_length b < allocated_length b \<and> ptr b ! unat (str_length b) = nul"

lemma unat_add_of_nat: "unat (w :: 64 word) + n < 2 ^ 64 \<Longrightarrow> unat (w + word_of_nat n) = unat w + n"
  by (simp add: unat_word_ariths unat_of_nat mod_add_right_eq)

lemma length_erealloc [simp]: "length block \<le> n \<Longrightarrow> length (erealloc garbage block n) = n"
  by (simp add: erealloc_def)

lemma take_erealloc: "k \<le> length block \<Longrightarrow> length block \<le> n \<Longrightarrow> take k (erealloc garbage block n) = take k block"
  by (simp add: erealloc_def)

lemma grow_buffer_spec:
  assumes ok: "buffer_ok b" and len: "n + 1 < 2 ^ 31" and room: "unat (allocated_length b) + n + 257 < 2 ^ 64"
  obtains b' where "grow_buffer garbage n b = Inr b'" "buffer_ok b'" "contents b' = contents b"
    "str_length b' = str_length b" "unat (str_length b) + n < unat (allocated_length b')"
    "unat (allocated_length b) \<le> unat (allocated_length b')"
    "unat (allocated_length b') \<le> unat (allocated_length b) + n + 257"
proof -
  have le: "unat (str_length b) \<le> unat (allocated_length b)" using ok by (simp add: buffer_ok_def word_le_nat_alt)
  have needed: "unat (str_length b + word_of_nat n + 1) = unat (str_length b) + n + 1"
    using unat_add_of_nat [of "str_length b" "n + 1"] le room by (simp add: ac_simps)
  show thesis
  proof (cases "allocated_length b < str_length b + word_of_nat n + 1")
    case False
    then have "unat (str_length b) + n < unat (allocated_length b)"
      using needed by (simp add: word_less_nat_alt)
    with False ok show thesis by (intro that [of b]) (simp_all add: grow_buffer_def)
  next
    case True
    define chunk where "chunk = (if BUFFER_CHUNK_SIZE < n + 1 then n + 1 else BUFFER_CHUNK_SIZE)"
    let ?new = "allocated_length b + word_of_nat chunk"
    have chunk: "n + 1 \<le> chunk" "chunk \<le> n + 257" by (auto simp: chunk_def BUFFER_CHUNK_SIZE_def)
    then have new: "unat ?new = unat (allocated_length b) + chunk"
      using room by (intro unat_add_of_nat) simp
    let ?b = "b\<lparr>ptr := erealloc garbage (ptr b) (unat ?new), allocated_length := ?new\<rparr>"
    have run: "grow_buffer garbage n b = Inr ?b"
      using True len by (simp add: grow_buffer_def int_successor_def chunk_def Let_def)
    have length: "length (ptr b) \<le> unat ?new" using ok new by (simp add: buffer_ok_def)
    show thesis
    proof (rule that [OF run])
      show "buffer_ok ?b" using length le new by (simp add: buffer_ok_def word_le_nat_alt)
      show "contents ?b = contents b"
        using ok le length by (simp add: contents_def take_erealloc buffer_ok_def)
    qed (use le new chunk in simp_all)
  qed
qed

lemma add_to_buffer_spec:
  assumes ok: "buffer_ok b" and len: "length str + 1 < 2 ^ 31"
    and room: "unat (allocated_length b) + length str + 257 < 2 ^ 64"
  obtains b' where "add_to_buffer garbage str b = Inr b'" "buffer_ok b'" "contents b' = contents b @ str"
    "terminated b'" "unat (allocated_length b') \<le> unat (allocated_length b) + length str + 257"
proof (rule grow_buffer_spec [OF ok len room, of garbage])
  fix b1
  assume run: "grow_buffer garbage (length str) b = Inr b1" and b1: "buffer_ok b1" "contents b1 = contents b"
      "str_length b1 = str_length b" "unat (str_length b) + length str < unat (allocated_length b1)"
      "unat (allocated_length b1) \<le> unat (allocated_length b) + length str + 257"
  define k where "k = unat (str_length b)"
  have length: "length (ptr b1) = unat (allocated_length b1)" using b1(1) by (simp add: buffer_ok_def)
  have new: "unat (str_length b + word_of_nat (length str)) = k + length str"
    using room b1(4,5) unfolding k_def by (intro unat_add_of_nat) simp
  define block where "block = take k (ptr b1) @ str @ nul # drop (k + length str + 1) (ptr b1)"
  let ?b = "b1\<lparr>ptr := block, str_length := str_length b + word_of_nat (length str)\<rparr>"
  have "add_to_buffer garbage str b = Inr ?b"
    using run b1(3,4) length new
    by (simp add: add_to_buffer_def memcpy_at_def Let_def block_def k_def [symmetric] min_absorb1)
  moreover have k: "length (take k (ptr b1)) = k" using b1(4) length by (simp add: k_def)
  then have "length block = unat (allocated_length b1)" "block ! (k + length str) = nul"
    using b1(4) length unfolding block_def by (simp_all add: k_def nth_append)
  moreover have "contents ?b = take k (ptr b1) @ str"
    using k by (simp add: contents_def block_def new)
  then have "contents ?b = contents b @ str"
    using b1(2,3) by (simp add: contents_def k_def)
  ultimately show thesis
    using b1 new by (intro that [of ?b])
      (simp_all add: buffer_ok_def terminated_def word_le_nat_alt word_less_nat_alt k_def)
qed

text \<open>What a template prints, one text after the other, from the buffer of \<open>render_template\<close>.\<close>

fun add_all :: "(nat \<Rightarrow> char) \<Rightarrow> string list \<Rightarrow> template_buffer \<Rightarrow> template_buffer res" where
  "add_all garbage [] b = Inr b"
| "add_all garbage (str # strs) b = bindE (add_to_buffer garbage str b) (add_all garbage strs)"

lemma add_all_spec:
  assumes "buffer_ok b" "\<forall>str \<in> set strs. length str + 1 < 2 ^ 31"
    and "unat (allocated_length b) + (\<Sum>str\<leftarrow>strs. length str + 257) < 2 ^ 64"
  obtains b' where "add_all garbage strs b = Inr b'" "buffer_ok b'" "contents b' = contents b @ concat strs"
    "strs \<noteq> [] \<longrightarrow> terminated b'"
  using assms
proof (induction strs arbitrary: b thesis)
  case (Cons str strs)
  show ?case
  proof (rule add_to_buffer_spec [of b str garbage])
    fix b1
    assume b1: "add_to_buffer garbage str b = Inr b1" "buffer_ok b1" "contents b1 = contents b @ str"
      "terminated b1" "unat (allocated_length b1) \<le> unat (allocated_length b) + length str + 257"
    show ?case
    proof (rule Cons.IH [OF _ b1(2)])
      fix b' assume "add_all garbage strs b1 = Inr b'" "buffer_ok b'" "contents b' = contents b1 @ concat strs"
        "strs \<noteq> [] \<longrightarrow> terminated b'"
      with b1 show ?case by (intro Cons.prems(1)) (cases strs; simp)+
    qed (use Cons.prems b1(5) in auto)
  qed (use Cons.prems in auto)
qed simp

section \<open>Operators\<close>

text \<open>What a comparison means: the sign of the result of \<open>compare_function\<close>, or the two truth values.\<close>

fun ordering_holds :: "comparison_op \<Rightarrow> int \<Rightarrow> bool" where
  "ordering_holds Equal r = (r = 0)"
| "ordering_holds NotEqual r = (r \<noteq> 0)"
| "ordering_holds LessOrEqual r = (r \<le> 0)"
| "ordering_holds GreaterOrEqual r = (r \<ge> 0)"
| "ordering_holds GreaterThan r = (r > 0)"
| "ordering_holds LessThan r = (r < 0)"
| "ordering_holds _ r = False"

definition compare_zvals ::
    "('s, 'z, 'h, 'p) zend \<Rightarrow> comparison_op \<Rightarrow> 'z \<Rightarrow> 'z \<Rightarrow> 's \<Rightarrow> bool option \<times> 's" where
  "compare_zvals Z op l r s =
     (case op of
        And \<Rightarrow> (Some (zval_is_true Z l s \<and> zval_is_true Z r s), s)
      | Or \<Rightarrow> (Some (zval_is_true Z l s \<or> zval_is_true Z r s), s)
      | _ \<Rightarrow> (case compare_function Z l r s of (c, s) \<Rightarrow> (map_option (\<lambda>x. ordering_holds op (sint x)) c, s)))"

fun zend_operator :: "('s, 'z, 'h, 'p) zend \<Rightarrow> binary_op \<Rightarrow> 'z \<Rightarrow> 'z \<Rightarrow> 'z \<Rightarrow> 's \<Rightarrow> bool \<times> 's" where
  "zend_operator Z Addition = add_function Z"
| "zend_operator Z Subtraction = sub_function Z"
| "zend_operator Z Multiplication = mul_function Z"
| "zend_operator Z Division = div_function Z"
| "zend_operator Z Modulus = mod_function Z"

fun zend_sign :: "('s, 'z, 'h, 'p) zend \<Rightarrow> unary_op \<Rightarrow> 'z \<Rightarrow> 'z \<Rightarrow> 's \<Rightarrow> bool \<times> 's" where
  "zend_sign Z NumericPositive result v s =
     (case local_zval Z (Zval_long 0) s of (zero, s) \<Rightarrow> add_function Z result zero v s)"
| "zend_sign Z NumericNegative result v s =
     (case local_zval Z (Zval_long 0) s of (zero, s) \<Rightarrow> sub_function Z result zero v s)"
| "zend_sign Z BooleanNegation result v s = boolean_not_function Z result v s"

lemma char_of_code [simp]: "char_of (code_of_char c) = c"
  by (simp add: code_of_char_def)

text \<open>
  C24: (operator codes) The run-time functions understand every operator code that the bindings put
  into a call: a comparison code, cut to 16 bits, selects the comparison of its operator, and the
  character of an arithmetic or unary operator selects the function of the interpreter for it; the
  branches that throw for unknown operators are never taken.
\<close>

theorem operator_codes_agree:
  "compare_variant Z (word_of_int (comparison_code cop)) l r s = compare_zvals Z cop l r s \<and>
   binary_variant_operation Z (char_of (binary_code bop)) l r s =
     (case MAKE_STD_ZVAL Z s of (result, s) \<Rightarrow> store_result result (zend_operator Z bop result l r s)) \<and>
   unary_variant_operation Z (char_of (code_of_char (unary_char uop))) v s =
     (case MAKE_STD_ZVAL Z s of (result, s) \<Rightarrow> store_result result (zend_sign Z uop result v s))"
proof (intro conjI)
  show "compare_variant Z (word_of_int (comparison_code cop)) l r s = compare_zvals Z cop l r s"
    by (cases cop)
      (auto simp: compare_variant_def compare_zvals_def code_of_char_def pack_uint16_def STR_TO_SHORT_def Let_def split: prod.splits option.splits)
  show "binary_variant_operation Z (char_of (binary_code bop)) l r s =
     (case MAKE_STD_ZVAL Z s of (result, s) \<Rightarrow> store_result result (zend_operator Z bop result l r s))"
    by (cases bop) (simp_all add: binary_variant_operation_def binary_code_def Let_def split: prod.splits)
  show "unary_variant_operation Z (char_of (code_of_char (unary_char uop))) v s =
     (case MAKE_STD_ZVAL Z s of (result, s) \<Rightarrow> store_result result (zend_sign Z uop result v s))"
    by (cases uop) (simp_all add: unary_variant_operation_def Let_def split: prod.splits)
qed

section \<open>Loops\<close>








end
