(* ===== verification/Php_Engine.thy ===== *)
theory Php_Engine
  imports Php_References Drivers Runtime_Laws
begin

text \<open>
  The extension: the classes \<open>b2\Engine\<close> and \<open>b2\Template\<close> of \<open>src/php/php_b2.cpp\<close>, over
  \<open>LLVMBackend\<close> of \<open>lib/backends/llvm/llvm_backend.cpp\<close>.

  Parameters: the Zend API, \<open>parse\<close> and \<open>fuel\<close> as for the programs, \<open>verifier\<close> for what the verifier of
  LLVM refuses, and \<open>run\<close> for the machine code that LLVM makes of one.  Arguments that
  \<open>zend_parse_parameters\<close> refuses are \<open>None\<close>.  The state of the objects after an exception is not
  part of the results.
\<close>

section \<open>The backend\<close>

text \<open>A function of the module: the state of the visitor when the function was complete.\<close>

type_synonym llvm_function = php_llvm_state

record llvm_backend =
  m_module :: "llvm_function list"
  m_visitor :: php_llvm_state
  m_functions :: "string \<Rightarrow> llvm_function option"

definition new_llvm_backend :: llvm_backend where
  "new_llvm_backend = \<lparr>m_module = [], m_visitor = new_llvm_visitor new_php_bindings, m_functions = Map.empty\<rparr>"

text \<open>
  The verifier of LLVM refuses a function, or the module with all the functions that the visitor has
  completed in it, in the order of their creation.
\<close>

record llvm_verifier =
  verifyFunction :: "llvm_function \<Rightarrow> bool"
  verifyModule :: "llvm_function list \<Rightarrow> bool"

text \<open>The passes of LLVM keep what a function does; they are not modelled.\<close>

definition createFunction ::
    "llvm_verifier \<Rightarrow> string \<Rightarrow> ast \<Rightarrow> llvm_backend \<Rightarrow> (llvm_function \<times> llvm_backend) res" where
  "createFunction verifier name ast backend =
     (case m_functions backend name of
        Some llvmFunc \<Rightarrow> Inr (llvmFunc, backend)
      | None \<Rightarrow>
          bindE (llvm_visit php_bindings ast (m_visitor backend)) (\<lambda>llvmFunc.
            let module = m_module backend @ [llvmFunc]
            in if verifyFunction verifier llvmFunc \<or> verifyModule verifier module
               then Inl (Throws (RuntimeError ''Error occured during verification of IR!''))
               else Inr (llvmFunc, backend\<lparr>m_module := module, m_visitor := llvmFunc,
                                            m_functions := (m_functions backend)(name \<mapsto> llvmFunc)\<rparr>)))"

section \<open>Objects and exceptions\<close>

datatype exception_class = SyntaxError_class | Default_class

datatype php_exception = Php_exception exception_class string

text \<open>\<open>what()\<close> of an exception.\<close>

fun what :: "exn \<Rightarrow> string" where
  "what (SyntaxError msg line_no) = msg"
| "what (OutOfRange msg) = msg"
| "what e = the (runtime_error_text e)"

text \<open>The result of a method: a PHP exception, or a value; other failures end the process.\<close>

type_synonym 'a php = "(php_exception + 'a) res"

definition bindP :: "'a php \<Rightarrow> ('a \<Rightarrow> 'b php) \<Rightarrow> 'b php" where
  "bindP m k = bindE m (\<lambda>r. case r of Inl e \<Rightarrow> Inr (Inl e) | Inr x \<Rightarrow> k x)"

text \<open>The handler for \<open>std::exception\<close>, and the one for \<open>b2::SyntaxError\<close> before it.\<close>

definition catch_exception :: "'a res \<Rightarrow> 'a php" where
  "catch_exception m =
     (case m of
        Inr x \<Rightarrow> Inr (Inr x)
      | Inl (Throws e) \<Rightarrow> Inr (Inl (Php_exception Default_class (what e)))
      | Inl f \<Rightarrow> Inl f)"

definition catch_syntax_error :: "'a res \<Rightarrow> 'a php" where
  "catch_syntax_error m =
     (case m of
        Inl (Throws (SyntaxError msg line_no)) \<Rightarrow>
          Inr (Inl (Php_exception SyntaxError_class (what (SyntaxError msg line_no))))
      | _ \<Rightarrow> catch_exception m)"

record 'h engine_object =
  registeredFunctions :: 'h
  basePath :: string
  backend :: llvm_backend

record template_object =
  estimatedBufferSize :: nat
  renderFunc :: llvm_function

text \<open>The functions of the API that only the classes use; a table is changed in memory.\<close>

record ('s, 'z, 'h, 'p) engine_zend = "('s, 'z, 'h, 'p) zend" +
  zend_hash_init :: "nat \<Rightarrow> 's \<Rightarrow> 'h \<times> 's"
  zend_hash_add :: "'h \<Rightarrow> string \<Rightarrow> 'z \<Rightarrow> 's \<Rightarrow> 's option"
  zend_is_callable :: "'z \<Rightarrow> 's \<Rightarrow> bool"
  Z_ADDREF_P :: "'z \<Rightarrow> 's \<Rightarrow> 's"
  store_string :: "'z \<Rightarrow> char list \<Rightarrow> nat \<Rightarrow> 's \<Rightarrow> 's"
  php_write :: "string \<Rightarrow> 's \<Rightarrow> 's"

section \<open>The class Engine\<close>

definition new_engine :: "('s, 'z, 'h, 'p) engine_zend \<Rightarrow> 's \<Rightarrow> 'h engine_object \<times> 's" where
  "new_engine Z s =
     (let (table, s) = zend_hash_init Z 16 s
      in (\<lparr>registeredFunctions = table, basePath = [], backend = new_llvm_backend\<rparr>, s))"

definition Engine_construct :: "string option \<Rightarrow> 'h engine_object \<Rightarrow> 'h engine_object" where
  "Engine_construct arguments engine =
     (case arguments of None \<Rightarrow> engine | Some base \<Rightarrow> engine\<lparr>basePath := base\<rparr>)"

definition php_optimizeAST :: "nat \<Rightarrow> (string \<Rightarrow> ast res) \<Rightarrow> string \<Rightarrow> ast \<Rightarrow> ast res" where
  "php_optimizeAST fuel parse base ast =
     (let passManager = new_pass_manager;
          passManager = addPass (resolve base parse fuel) passManager;
          passManager = addExpressionPass FoldConstantExpressionsPass passManager;
          passManager = addPass (ast_process ConvertLiteralPrintBlockToRawBlockPass) passManager;
          passManager = addPass (ast_process CoalesceRawBlocksPass) passManager
      in run_passes passManager ast)"

text \<open>\<open>path[0]\<close> of an empty string is the terminator.\<close>

definition template_path :: "string \<Rightarrow> string \<Rightarrow> string" where
  "template_path base input = (if hd (input @ [nul]) \<noteq> CHR ''/'' then base @ ''/'' @ input else input)"

definition Engine_parseTemplate ::
    "nat \<Rightarrow> (string \<Rightarrow> ast res) \<Rightarrow> llvm_verifier \<Rightarrow> string option \<Rightarrow> 'h engine_object \<Rightarrow>
     (template_object option \<times> 'h engine_object) php" where
  "Engine_parseTemplate fuel parse verifier arguments engine =
     (case arguments of
        None \<Rightarrow> Inr (Inr (None, engine))
      | Some input \<Rightarrow>
          bindP (catch_syntax_error (parse (template_path (basePath engine) input))) (\<lambda>ast.
          bindP (catch_exception (php_optimizeAST fuel parse (basePath engine) ast)) (\<lambda>ast.
          bindP (catch_exception (createFunction verifier input ast (backend engine))) (\<lambda>(func, backend').
            Inr (Inr (Some \<lparr>estimatedBufferSize = 200, renderFunc = func\<rparr>, engine\<lparr>backend := backend'\<rparr>))))))"

definition Engine_addFunction ::
    "('s, 'z, 'h, 'p) engine_zend \<Rightarrow> (string \<times> 'z) option \<Rightarrow> 'h engine_object \<Rightarrow> 's \<Rightarrow> php_exception option \<times> 's" where
  "Engine_addFunction Z arguments engine s =
     (case arguments of
        None \<Rightarrow> (None, s)
      | Some (input, cb) \<Rightarrow>
          if \<not> zend_is_callable Z cb s
          then (Some (Php_exception Default_class ''2nd argument passed to addFunction is not callable''), s)
          else case zend_hash_add Z (registeredFunctions engine) input cb s of
                 None \<Rightarrow> (Some (Php_exception Default_class
                            (''Couldn'' @ [squote] @ ''t add function to registeredFunctions hashtable'')), s)
               | Some s \<Rightarrow> (None, Z_ADDREF_P Z cb s))"

section \<open>The class Template\<close>

definition init_buffer :: "(nat \<Rightarrow> char) \<Rightarrow> nat \<Rightarrow> template_buffer" where
  "init_buffer garbage n =
     \<lparr>ptr = map garbage [0..<n], str_length = 0, allocated_length = word_of_nat n\<rparr>"

text \<open>
  The zval of the result takes over the block of the buffer, with the length of the text.
\<close>

definition render_template ::
    "(nat \<Rightarrow> char) \<Rightarrow> (llvm_function \<Rightarrow> 'h \<Rightarrow> 'h \<Rightarrow> template_buffer \<Rightarrow> 's printing) \<Rightarrow>
     'h \<Rightarrow> 'h engine_object \<Rightarrow> template_object \<Rightarrow> 's \<Rightarrow> ((char list \<times> nat) \<times> 's) res" where
  "render_template garbage run assignments engn templ s =
     (let buffer = init_buffer garbage (estimatedBufferSize templ)
      in bindE (run (renderFunc templ) assignments (registeredFunctions engn) buffer s) (\<lambda>(buffer, s).
           Inr ((ptr buffer, unat (str_length buffer)), s)))"

definition Template_construct :: php_exception where
  "Template_construct =
     Php_exception Default_class ''An object of this type cannot be created with the new operator''"

definition Template_render where
  "Template_render Z garbage run arguments engn templ return_value s =
     (case arguments of
        None \<Rightarrow> Inr s
      | Some assignments \<Rightarrow>
          bindE (render_template garbage run assignments engn templ s) (\<lambda>((block, len), s).
            Inr (store_string Z return_value block len s)))"

definition Template_display where
  "Template_display Z garbage run arguments engn templ s =
     (case arguments of
        None \<Rightarrow> Inr s
      | Some assignments \<Rightarrow>
          let (buf, s) = MAKE_STD_ZVAL Z s
          in bindE (render_template garbage run assignments engn templ s) (\<lambda>((block, len), s).
               Inr (zval_ptr_dtor Z buf (php_write Z (take len block) (store_string Z buf block len s)))))"

end
