(* ===== verification/Rendering.thy ===== *)
theory Rendering
  imports Include_Laws
begin

text \<open>
  What a template means: its text in an environment of variables.  The meaning is that of the code
  which the visitor of \<open>lib/backends/llvm/llvm_visitor.cpp\<close> generates, over the values and operators
  of the run-time library: the statements of a list one after the other, the else body of a loop when
  there is no element, and nothing more after an operator that failed.  The meaning of an inclusion is
  that of the included file in the environment that the inclusion describes.
\<close>

section \<open>Values\<close>

text \<open>A run-time library; \<open>None\<close> is an operator that failed.\<close>

record 'v runtime =
  literal_value :: "expr \<Rightarrow> 'v"
  attribute_value :: "string \<Rightarrow> 'v \<Rightarrow> 'v option"
  call_value :: "string \<Rightarrow> 'v list \<Rightarrow> 'v option"
  binary_value :: "binary_op \<Rightarrow> 'v \<Rightarrow> 'v \<Rightarrow> 'v option"
  unary_value :: "unary_op \<Rightarrow> 'v \<Rightarrow> 'v option"
  comparison_value :: "comparison_op \<Rightarrow> 'v \<Rightarrow> 'v \<Rightarrow> 'v option"
  is_true :: "'v \<Rightarrow> bool"
  elements_of :: "'v \<Rightarrow> ('v \<times> 'v) list"
  text_of :: "'v \<Rightarrow> string"

type_synonym 'v environment = "string \<Rightarrow> 'v option"

fun expr_value :: "'v runtime \<Rightarrow> 'v environment \<Rightarrow> expr \<Rightarrow> 'v option" where
  "expr_value R env (VariableReference x) = env x"
| "expr_value R env (GetAttribute e a) = Option.bind (expr_value R env e) (attribute_value R a)"
| "expr_value R env (MethodCall name as) =
     Option.bind (those (map (\<lambda>p. Option.bind p (expr_value R env)) as)) (call_value R name)"
| "expr_value R env (BinaryOperation l r op) =
     Option.bind (expr_value R env l) (\<lambda>v. Option.bind (expr_value R env r) (binary_value R op v))"
| "expr_value R env (UnaryOperation e op) = Option.bind (expr_value R env e) (unary_value R op)"
| "expr_value R env (Comparison l r op) =
     Option.bind (expr_value R env l) (\<lambda>v. Option.bind (expr_value R env r) (comparison_value R op v))"
| "expr_value R env e = Some (literal_value R e)"

section \<open>Texts\<close>

text \<open>A text, and whether the function goes on after it.\<close>

type_synonym rendered = "string \<times> bool"

definition stop :: rendered where
  "stop = ([], False)"

definition followed_by :: "rendered \<Rightarrow> rendered \<Rightarrow> rendered" where
  "followed_by a b = (if snd a then (fst a @ fst b, snd b) else a)"

fun in_sequence :: "rendered list \<Rightarrow> rendered" where
  "in_sequence [] = ([], True)"
| "in_sequence (out # outs) = followed_by out (in_sequence outs)"

lemma followed_by_simps [simp]:
  "followed_by ([], True) b = b" "followed_by a ([], True) = a"
  "followed_by (followed_by a b) c = followed_by a (followed_by b c)"
  by (cases a; auto simp: followed_by_def)+

lemma in_sequence_append: "in_sequence (xs @ ys) = followed_by (in_sequence xs) (in_sequence ys)"
  by (induction xs) auto

lemma in_sequence_concat: "in_sequence (concat xss) = in_sequence (map in_sequence xss)"
  by (induction xss) (auto simp: in_sequence_append)

section \<open>Statements\<close>

fun bind_variable :: "expr option \<Rightarrow> 'v \<Rightarrow> 'v environment \<Rightarrow> 'v environment" where
  "bind_variable (Some (VariableReference x)) v env = env(x := Some v)"
| "bind_variable _ v env = env"

type_synonym 'v inclusion = "'v environment \<Rightarrow> string \<Rightarrow> expr option \<Rightarrow> string_expression_map \<Rightarrow> rendered"

fun render_tree :: "'v runtime \<Rightarrow> 'v inclusion \<Rightarrow> 'v environment \<Rightarrow> ast \<Rightarrow> rendered" where
  "render_tree R inc env (Statements xs) = in_sequence (map (render_tree R inc env) xs)"
| "render_tree R inc env (RawBlock t) = (t, True)"
| "render_tree R inc env (PrintBlock e) =
     (case expr_value R env e of None \<Rightarrow> stop | Some v \<Rightarrow> (text_of R v, True))"
| "render_tree R inc env (IfBlock c th el) =
     (case expr_value R env c of
        None \<Rightarrow> stop
      | Some v \<Rightarrow>
          if is_true R v then (case th of None \<Rightarrow> ([], True) | Some b \<Rightarrow> render_tree R inc env b)
          else (case el of None \<Rightarrow> ([], True) | Some b \<Rightarrow> render_tree R inc env b))"
| "render_tree R inc env (ForBlock k v i b el) =
     (case expr_value R env i of
        None \<Rightarrow> stop
      | Some w \<Rightarrow>
          if elements_of R w = [] then (case el of None \<Rightarrow> ([], True) | Some b \<Rightarrow> render_tree R inc env b)
          else (case b of
                  None \<Rightarrow> ([], True)
                | Some b \<Rightarrow> in_sequence (map (\<lambda>(key, val). render_tree R inc (bind_variable v val (bind_variable k key env)) b)
                                           (elements_of R w))))"
| "render_tree R inc env (IncludeBlock name s m) = inc env name s m"

abbreviation render_body :: "'v runtime \<Rightarrow> 'v inclusion \<Rightarrow> 'v environment \<Rightarrow> ast option \<Rightarrow> rendered" where
  "render_body R inc env b \<equiv> (case b of None \<Rightarrow> ([], True) | Some a \<Rightarrow> render_tree R inc env a)"

text \<open>The environment of an included file: the attributes of the scope, or the mapped variables.\<close>

definition included_environment ::
    "'v runtime \<Rightarrow> 'v environment \<Rightarrow> expr option \<Rightarrow> string_expression_map \<Rightarrow> 'v environment" where
  "included_environment R env s m =
     (case s of
        Some e \<Rightarrow> (\<lambda>x. Option.bind (expr_value R env e) (attribute_value R x))
      | None \<Rightarrow> (\<lambda>x. Option.bind (map_of m x) (expr_value R env)))"

text \<open>The fuel bounds the depth of inclusions.\<close>

fun render :: "'v runtime \<Rightarrow> string \<Rightarrow> (string \<Rightarrow> ast res) \<Rightarrow> nat \<Rightarrow> 'v environment \<Rightarrow> ast \<Rightarrow> rendered" where
  "render R base parse 0 env a = stop"
| "render R base parse (Suc n) env a =
     render_tree R (\<lambda>env name s m.
       case parse (resolvePath base name) of
         Inl _ \<Rightarrow> stop
       | Inr t \<Rightarrow> render R base parse n (included_environment R env s m) t) env a"

lemma render_fold_singleton: "render_tree R inc env (fold_singleton xs) = in_sequence (map (render_tree R inc env) xs)"
  by (auto simp: fold_singleton_def split: list.split)

lemma render_splice: "in_sequence (map (render_tree R inc env) (splice r)) = render_tree R inc env r"
  by (cases r) auto

text \<open>The merging loop of the walkers keeps the meaning of a list, if the walk keeps that of its statements.\<close>

lemma render_merged:
  assumes "merge_statements self [] xs = Inr zs"
    and "\<And>x r. x \<in> set xs \<Longrightarrow> self x = Inr r \<Longrightarrow> render_tree R inc env r = g x"
  shows "render_tree R inc env (fold_singleton zs) = in_sequence (map g xs)"
proof -
  obtain rs where rs: "mapE self xs = Inr rs" and zs: "zs = concat (map splice rs)"
    using merge_statements_result [OF assms(1)] by auto
  have "map (render_tree R inc env) rs = map g xs"
    using rs assms(2) by (induction xs arbitrary: rs) (auto simp: bindE_eq_Inr)
  moreover have "in_sequence (map (render_tree R inc env) zs) = in_sequence (map (render_tree R inc env) rs)"
    by (simp add: zs map_concat in_sequence_concat comp_def render_splice)
  ultimately show ?thesis by (simp add: render_fold_singleton)
qed

section \<open>Passes that keep the meaning of nodes\<close>

context shape_preserving_pass
begin

lemma process_renders:
  assumes statements: "\<And>xs ys env. h (Statements xs) = Inr (Statements ys) \<Longrightarrow>
      in_sequence (map (render_tree R inc env) ys) = in_sequence (map (render_tree R inc env) xs)"
    and inner: "\<And>c c' t e env. h (IfBlock c t e) = Inr (IfBlock c' t e) \<Longrightarrow> expr_value R env c' = expr_value R env c"
      "\<And>k v i i' b e env. h (ForBlock k v i b e) = Inr (ForBlock k v i' b e) \<Longrightarrow> expr_value R env i' = expr_value R env i"
    and leaf: "\<And>t r env. h (RawBlock t) = Inr r \<Longrightarrow> render_tree R inc env r = (t, True)"
      "\<And>e r env. h (PrintBlock e) = Inr r \<Longrightarrow> render_tree R inc env r = render_tree R inc env (PrintBlock e)"
      "\<And>n s m r env. h (IncludeBlock n s m) = Inr r \<Longrightarrow> render_tree R inc env r = inc env n s m"
  shows "ast_process (\<lambda>_. h) a = Inr r \<Longrightarrow> render_tree R inc env r = render_tree R inc env a"
proof (induction a arbitrary: r env rule: measure_induct_rule [where f = size])
  case (less a)
  have body: "render_body R inc env q = render_body R inc env p"
    if "optE (ast_process (\<lambda>_. h)) p = Inr q" "\<And>x. p = Some x \<Longrightarrow> size x < size a" for p q env
    using that less.IH by (cases p) (auto simp: bindE_eq_Inr)
  show ?case
  proof (cases a)
    case (Statements xs)
    with less.prems obtain new where "h a = Inr new"
      by (auto simp: process_statements bindE_eq_Inr)
    with Statements statements_shape obtain ys where
      ys: "h a = Inr (Statements ys)" "\<forall>y \<in> set ys. size y < size a" by blast
    with Statements less.prems obtain zs where
      zs: "merge_statements (ast_process (\<lambda>_. h)) [] ys = Inr zs" and r: "r = fold_singleton zs"
      by (auto simp: process_statements bindE_eq_Inr)
    have "render_tree R inc env r = in_sequence (map (render_tree R inc env) ys)"
      unfolding r using zs by (rule render_merged) (use ys(2) less.IH in blast)
    with statements ys(1) Statements show ?thesis by simp
  next
    case (IfBlock c t e)
    with less.prems if_shape obtain c' t' e' where h: "h a = Inr (IfBlock c' t e)"
      and r: "r = IfBlock c' t' e'"
      and opt: "optE (ast_process (\<lambda>_. h)) t = Inr t'" "optE (ast_process (\<lambda>_. h)) e = Inr e'"
      by (fastforce simp: process_if bindE_eq_Inr)
    have "expr_value R env c' = expr_value R env c" using inner(1) h IfBlock by simp
    with body [OF opt(1), of env] body [OF opt(2), of env] show ?thesis
      by (auto simp: r IfBlock split: option.split)
  next
    case (ForBlock k v i b e)
    with less.prems for_shape obtain i' b' e' where h: "h a = Inr (ForBlock k v i' b e)"
      and r: "r = ForBlock k v i' b' e'"
      and opt: "optE (ast_process (\<lambda>_. h)) b = Inr b'" "optE (ast_process (\<lambda>_. h)) e = Inr e'"
      by (fastforce simp: process_for bindE_eq_Inr)
    have b: "b' = None \<longleftrightarrow> b = None" "\<And>x y env. b = Some x \<Longrightarrow> b' = Some y \<Longrightarrow> render_tree R inc env y = render_tree R inc env x"
      using opt(1) ForBlock less.IH by (cases b; auto simp: bindE_eq_Inr)+
    have "expr_value R env i' = expr_value R env i" using inner(2) h ForBlock by simp
    with b body [OF opt(2), of env] show ?thesis
      by (auto simp: r ForBlock split: option.split)
  qed (use less.prems leaf in \<open>auto simp: process_leaf\<close>)
qed

end

end
