(* ===== verification/Machine.thy ===== *)
theory Machine
  imports Php_Types Rendering
begin

text \<open>
  What generated code does when it runs: the instructions of \<open>Llvm_Builder\<close> on registers, memory and
  the text that was printed, with the calls of the run-time functions of
  \<open>src/php/php_bindings_functions.c\<close>.  PHP values are values here: a pointer to a zval stands for what
  it holds, and nothing is freed; the reference counts are the subject of \<open>Php_References\<close>.
\<close>

section \<open>Operands\<close>

text \<open>
  A hash table is the list of its keys and values, the position in a table the rest of that list; an
  address is the number of a cell of the memory.
\<close>

datatype 'v operand =
    Long long
  | Bit bool
  | Code int
  | Real double
  | Text string
  | Zval 'v
  | Address nat
  | Hashtable "('v \<times> 'v) list"
  | Position "('v \<times> 'v) list"
  | Null
  | Template_argument nat
  | Nothing

text \<open>What the run-time functions compute with PHP values.\<close>

record 'v php_values =
  double_zval :: "double \<Rightarrow> 'v"
  bool_zval :: "bool \<Rightarrow> 'v"
  long_zval :: "long \<Rightarrow> 'v"
  string_zval :: "string \<Rightarrow> 'v"
  double_text :: "double \<Rightarrow> string"
  long_text :: "long \<Rightarrow> string"
  zval_text :: "'v \<Rightarrow> string"
  zval_compare :: "int \<Rightarrow> 'v \<Rightarrow> 'v \<Rightarrow> bool option"
  zval_binary :: "int \<Rightarrow> 'v \<Rightarrow> 'v \<Rightarrow> 'v option"
  zval_unary :: "int \<Rightarrow> 'v \<Rightarrow> 'v option"
  assigned :: "string \<Rightarrow> 'v"
  zval_attribute :: "string \<Rightarrow> 'v \<Rightarrow> 'v"
  zval_call :: "string \<Rightarrow> 'v list \<Rightarrow> 'v option"
  zval_elements :: "'v \<Rightarrow> ('v \<times> 'v) list"

record 'v machine =
  registers :: "nat \<Rightarrow> 'v operand option"
  memory :: "'v operand option list"
  printed_text :: string

fun value_of :: "'v machine \<Rightarrow> lvalue \<Rightarrow> 'v operand option" where
  "value_of m (Request n t) = registers m n"
| "value_of m (Constant_int w i) =
     Some (if w = 64 then Long (word_of_int i) else if w = 1 then Bit (i \<noteq> 0) else Code i)"
| "value_of m (Constant_double d) = Some (Real d)"
| "value_of m (Global_string s) = Some (Text s)"
| "value_of m (Function_argument n t) = Some (Template_argument n)"
| "value_of m (Null_pointer t) = Some Null"

definition read_cell :: "'v operand option list \<Rightarrow> nat \<Rightarrow> 'v operand option" where
  "read_cell mem a = (if a < length mem then mem ! a else None)"

definition write_cell :: "nat \<Rightarrow> 'v operand \<Rightarrow> 'v operand option list \<Rightarrow> 'v operand option list option" where
  "write_cell a x mem = (if a < length mem then Some (mem[a := Some x]) else None)"

text \<open>The PHP value behind a pointer: one of PHP's own, or one in a cell of the function.\<close>

fun zval_at :: "'v operand option list \<Rightarrow> 'v operand \<Rightarrow> 'v option" where
  "zval_at mem (Zval v) = Some v"
| "zval_at mem (Address a) = (case read_cell mem a of Some (Zval v) \<Rightarrow> Some v | _ \<Rightarrow> None)"
| "zval_at mem _ = None"

section \<open>Arithmetic\<close>

definition long_arith :: "string \<Rightarrow> long \<Rightarrow> long \<Rightarrow> 'v operand option" where
  "long_arith name a b =
     (if name = ''Add'' then Some (Long (a + b))
      else if name = ''Sub'' then Some (Long (a - b))
      else if name = ''Mul'' then Some (Long (a * b))
      else if name = ''ExactSDiv''
      then if b \<noteq> 0 \<and> sint b dvd sint a \<and> sint a sdiv sint b < 2 ^ 63
           then Some (Long (word_of_int (sint a sdiv sint b))) else None
      else if name = ''SRem''
      then if b \<noteq> 0 \<and> sint a sdiv sint b < 2 ^ 63
           then Some (Long (word_of_int (sint a smod sint b))) else None
      else if name = ''And'' then Some (Long (and a b))
      else if name = ''Or'' then Some (Long (or a b))
      else if name = ''ICmpEQ'' then Some (Bit (a = b))
      else if name = ''ICmpNE'' then Some (Bit (a \<noteq> b))
      else if name = ''ICmpSLE'' then Some (Bit (sint a \<le> sint b))
      else if name = ''ICmpSGE'' then Some (Bit (sint b \<le> sint a))
      else if name = ''ICmpSGT'' then Some (Bit (sint b < sint a))
      else if name = ''ICmpSLT'' then Some (Bit (sint a < sint b))
      else None)"

text \<open>Integers of one bit: the one is -1 where the sign counts.\<close>

definition bit_arith :: "string \<Rightarrow> bool \<Rightarrow> bool \<Rightarrow> 'v operand option" where
  "bit_arith name a b =
     (if name = ''Add'' \<or> name = ''Sub'' then Some (Bit (a \<noteq> b))
      else if name = ''Mul'' \<or> name = ''And'' then Some (Bit (a \<and> b))
      else if name = ''Or'' then Some (Bit (a \<or> b))
      else if name = ''ICmpEQ'' then Some (Bit (a = b))
      else if name = ''ICmpNE'' then Some (Bit (a \<noteq> b))
      else if name = ''ICmpSLE'' then Some (Bit (b \<longrightarrow> a))
      else if name = ''ICmpSGE'' then Some (Bit (a \<longrightarrow> b))
      else if name = ''ICmpSGT'' then Some (Bit (\<not> a \<and> b))
      else if name = ''ICmpSLT'' then Some (Bit (a \<and> \<not> b))
      else None)"

definition double_arith :: "string \<Rightarrow> double \<Rightarrow> double \<Rightarrow> 'v operand option" where
  "double_arith name a b =
     (if name = ''FAdd'' then Some (Real (dadd a b))
      else if name = ''FSub'' then Some (Real (dsub a b))
      else if name = ''FMul'' then Some (Real (dmul a b))
      else if name = ''FDiv'' then Some (Real (ddiv a b))
      else if name = ''FCmpOEQ'' then Some (Bit (deq a b))
      else if name = ''FCmpONE'' then Some (Bit (dlt a b \<or> dlt b a))
      else if name = ''FCmpOLE'' then Some (Bit (dle a b))
      else if name = ''FCmpOGE'' then Some (Bit (dle b a))
      else if name = ''FCmpOGT'' then Some (Bit (dlt b a))
      else if name = ''FCmpOLT'' then Some (Bit (dlt a b))
      else None)"

definition arith :: "string \<Rightarrow> 'v operand \<Rightarrow> 'v operand \<Rightarrow> 'v operand option" where
  "arith name x y =
     (case x of
        Long a \<Rightarrow> (case y of Long b \<Rightarrow> long_arith name a b | _ \<Rightarrow> None)
      | Bit a \<Rightarrow> (case y of Bit b \<Rightarrow> bit_arith name a b | _ \<Rightarrow> None)
      | Real a \<Rightarrow> (case y of Real b \<Rightarrow> double_arith name a b | _ \<Rightarrow> None)
      | Null \<Rightarrow> if name = ''ICmpNE'' \<and> y = Null then Some (Bit False) else None
      | Zval v \<Rightarrow> if name = ''ICmpNE'' \<and> y = Null then Some (Bit True) else None
      | Hashtable h \<Rightarrow> if name = ''ICmpNE'' \<and> y = Null then Some (Bit True) else None
      | _ \<Rightarrow> None)"

fun to_real :: "'v operand \<Rightarrow> double option" where
  "to_real (Real d) = Some d"
| "to_real (Long l) = Some (double_of_long l)"
| "to_real (Bit b) = Some (double_of_int (if b then - 1 else 0))"
| "to_real _ = None"

definition cast :: "string \<Rightarrow> 'v operand \<Rightarrow> 'v operand option" where
  "cast name x =
     (if name = ''SIToFP'' then map_option Real (to_real x)
      else if name = ''Trunc'' then Some x
      else if name = ''Neg'' then (case x of Long l \<Rightarrow> Some (Long (- l)) | Bit b \<Rightarrow> Some (Bit b) | _ \<Rightarrow> None)
      else if name = ''Not'' then (case x of Long l \<Rightarrow> Some (Long (NOT l)) | Bit b \<Rightarrow> Some (Bit (\<not> b)) | _ \<Rightarrow> None)
      else None)"

section \<open>The run-time functions\<close>

text \<open>The result of a call, the memory after it and what it printed.\<close>

type_synonym 'v called = "('v operand \<times> 'v operand option list \<times> string) option"

definition prints :: "'v operand option list \<Rightarrow> string option \<Rightarrow> 'v called" where
  "prints mem t = map_option (\<lambda>t. (Nothing, mem, t)) t"

fun print_call :: "'v php_values \<Rightarrow> string \<Rightarrow> 'v operand \<Rightarrow> 'v operand option list \<Rightarrow> string option" where
  "print_call P name (Real d) mem = (if name = ''print_double'' then Some (double_text P d) else None)"
| "print_call P name (Long l) mem = (if name = ''print_integer'' then Some (long_text P l) else None)"
| "print_call P name (Bit b) mem = (if name = ''print_boolean'' then Some (if b then ''1'' else []) else None)"
| "print_call P name (Text s) mem = (if name = ''print_string'' then Some (c_string s) else None)"
| "print_call P name x mem = (if name = ''print_variant'' then map_option (zval_text P) (zval_at mem x) else None)"

fun set_zval_call :: "'v php_values \<Rightarrow> string \<Rightarrow> nat \<Rightarrow> 'v operand \<Rightarrow> 'v operand option list \<Rightarrow> 'v called" where
  "set_zval_call P name a x mem =
     Option.bind
       (case x of
          Real d \<Rightarrow> if name = ''set_zval_double'' then Some (double_zval P d) else None
        | Bit b \<Rightarrow> if name = ''set_zval_bool'' then Some (bool_zval P b) else None
        | Long l \<Rightarrow> if name = ''set_zval_int'' then Some (long_zval P l) else None
        | Text s \<Rightarrow> if name = ''set_zval_string_nocopy'' then Some (string_zval P (c_string s)) else None
        | _ \<Rightarrow> None)
       (\<lambda>v. map_option (\<lambda>mem. (Nothing, mem, [])) (write_cell a (Zval v) mem))"

text \<open>An operator stores its result through the pointer, and returns whether it succeeded.\<close>

definition stores :: "nat \<Rightarrow> 'v operand option \<Rightarrow> 'v operand option list \<Rightarrow> 'v called" where
  "stores a result mem =
     (case result of
        None \<Rightarrow> Some (Bit False, mem, [])
      | Some x \<Rightarrow> map_option (\<lambda>mem. (Bit True, mem, [])) (write_cell a x mem))"

definition operator_call ::
    "'v php_values \<Rightarrow> string \<Rightarrow> int \<Rightarrow> nat \<Rightarrow> 'v list \<Rightarrow> 'v operand option list \<Rightarrow> 'v called" where
  "operator_call P name opcode a vs mem =
     (case vs of
        [v, w] \<Rightarrow>
          if name = ''compare_variant'' then stores a (map_option Bit (zval_compare P opcode v w)) mem
          else if name = ''binary_variant_operation'' then stores a (map_option Zval (zval_binary P opcode v w)) mem
          else None
      | [v] \<Rightarrow>
          if name = ''unary_variant_operation'' then stores a (map_option Zval (zval_unary P opcode v)) mem else None
      | _ \<Rightarrow> None)"

text \<open>The arguments of a method: as many cells as there are arguments.\<close>

definition argument_values :: "nat \<Rightarrow> 'v operand \<Rightarrow> 'v operand option list \<Rightarrow> 'v list option" where
  "argument_values n p mem =
     (case p of
        Address a \<Rightarrow> those (map (\<lambda>i. Option.bind (read_cell mem (a + i)) (zval_at mem)) [0..<n])
      | Null \<Rightarrow> if n = 0 then Some [] else None
      | _ \<Rightarrow> None)"

definition nullable_zval :: "'v option \<Rightarrow> 'v operand" where
  "nullable_zval v = (case v of None \<Rightarrow> Null | Some v \<Rightarrow> Zval v)"

text \<open>Storing through a pointer that may be null.\<close>

fun write_nullable :: "'v operand \<Rightarrow> 'v operand \<Rightarrow> 'v operand option list \<Rightarrow> 'v operand option list option" where
  "write_nullable Null x mem = Some mem"
| "write_nullable (Address a) x mem = write_cell a x mem"
| "write_nullable _ x mem = None"

definition loop_init :: "'v php_values \<Rightarrow> 'v operand \<Rightarrow> nat \<Rightarrow> 'v operand option list \<Rightarrow> 'v called" where
  "loop_init P x a mem =
     Option.bind (zval_at mem x) (\<lambda>v.
       map_option (\<lambda>mem. (if zval_elements P v = [] then Null else Hashtable (zval_elements P v), mem, []))
         (write_cell a (Position (zval_elements P v)) mem))"

definition loop_values :: "nat \<Rightarrow> 'v operand \<Rightarrow> 'v operand \<Rightarrow> 'v operand option list \<Rightarrow> 'v called" where
  "loop_values a val key mem =
     (case read_cell mem a of
        Some (Position ((k, v) # rest)) \<Rightarrow>
          map_option (\<lambda>mem. (Nothing, mem, []))
            (Option.bind (write_nullable val (Zval v) mem) (write_nullable key (Zval k)))
      | _ \<Rightarrow> None)"

definition loop_next :: "nat \<Rightarrow> 'v operand option list \<Rightarrow> 'v called" where
  "loop_next a mem =
     (case read_cell mem a of
        Some (Position (x # rest)) \<Rightarrow>
          map_option (\<lambda>mem. (Bit (rest \<noteq> []), mem, [])) (write_cell a (Position rest) mem)
      | _ \<Rightarrow> None)"

text \<open>The functions by the number of their parameters.\<close>

definition call_with_two :: "'v php_values \<Rightarrow> string \<Rightarrow> 'v operand \<Rightarrow> 'v operand \<Rightarrow> 'v operand option list \<Rightarrow> 'v called" where
  "call_with_two P name x y mem =
     (case y of
        Template_argument n \<Rightarrow> if n = 1 then prints mem (print_call P name x mem) else None
      | Address a \<Rightarrow>
          if name = ''forloop_next'' then (case x of Hashtable h \<Rightarrow> loop_next a mem | _ \<Rightarrow> None)
          else if name = ''forloop_init'' then loop_init P x a mem else None
      | _ \<Rightarrow> (case x of Address a \<Rightarrow> set_zval_call P name a y mem | _ \<Rightarrow> None))"

definition call_with_three ::
    "'v php_values \<Rightarrow> string \<Rightarrow> 'v operand \<Rightarrow> 'v operand \<Rightarrow> 'v operand \<Rightarrow> 'v operand option list \<Rightarrow> 'v called" where
  "call_with_three P name x y z mem =
     (case y of
        Text key \<Rightarrow>
          if z \<noteq> Code (int (length key)) then None
          else if name = ''get_value_from_hashtable'' \<and> x = Template_argument 0
          then Some (Zval (assigned P key), mem, [])
          else if name = ''get_attribute''
          then map_option (\<lambda>v. (Zval (zval_attribute P key v), mem, [])) (zval_at mem x)
          else None
      | Address a \<Rightarrow>
          (case x of
             Code c \<Rightarrow> Option.bind (zval_at mem z) (\<lambda>v. operator_call P name c a [v] mem)
           | _ \<Rightarrow> None)
      | _ \<Rightarrow> None)"

definition call_with_four ::
    "'v php_values \<Rightarrow> string \<Rightarrow> 'v operand \<Rightarrow> 'v operand \<Rightarrow> 'v operand \<Rightarrow> 'v operand \<Rightarrow> 'v operand option list \<Rightarrow> 'v called" where
  "call_with_four P name x y z u mem =
     (case y of
        Address a \<Rightarrow>
          (case x of
             Code c \<Rightarrow>
               Option.bind (zval_at mem z) (\<lambda>v. Option.bind (zval_at mem u) (\<lambda>w. operator_call P name c a [v, w] mem))
           | Hashtable h \<Rightarrow> if name = ''forloop_getvalues'' then loop_values a z u mem else None
           | _ \<Rightarrow> None)
      | _ \<Rightarrow> None)"

definition call_with_five ::
    "'v php_values \<Rightarrow> string \<Rightarrow> 'v operand \<Rightarrow> 'v operand \<Rightarrow> 'v operand \<Rightarrow> 'v operand \<Rightarrow> 'v operand \<Rightarrow> 'v operand option list \<Rightarrow> 'v called" where
  "call_with_five P name x y z u v mem =
     (case (y, u) of
        (Text key, Code count) \<Rightarrow>
          if name = ''do_method_call'' \<and> x = Template_argument 2 \<and> z = Code (int (length key))
          then map_option (\<lambda>vs. (nullable_zval (zval_call P key vs), mem, [])) (argument_values (nat count) v mem)
          else None
      | _ \<Rightarrow> None)"

definition call_runtime :: "'v php_values \<Rightarrow> string \<Rightarrow> 'v operand list \<Rightarrow> 'v operand option list \<Rightarrow> 'v called" where
  "call_runtime P name as mem =
     (case as of
        [x] \<Rightarrow> if name = ''destruct_zval'' then map_option (\<lambda>_. (Nothing, mem, [])) (zval_at mem x) else None
      | [x, y] \<Rightarrow> call_with_two P name x y mem
      | [x, y, z] \<Rightarrow> call_with_three P name x y z mem
      | [x, y, z, u] \<Rightarrow> call_with_four P name x y z u mem
      | [x, y, z, u, v] \<Rightarrow> call_with_five P name x y z u v mem
      | _ \<Rightarrow> None)"

section \<open>Instructions and blocks\<close>

text \<open>Whether an instruction is a request with a result.\<close>

fun is_request :: "instr \<Rightarrow> bool" where
  "is_request (Store v p) = False"
| "is_request i = (\<not> is_terminator i)"

fun execute :: "'v php_values \<Rightarrow> instr \<Rightarrow> 'v machine \<Rightarrow> ('v operand \<times> 'v machine) option" where
  "execute P (Call name as) m =
     Option.bind (those (map (value_of m) as)) (\<lambda>xs.
       map_option (\<lambda>(x, mem, t). (x, m\<lparr>memory := mem, printed_text := printed_text m @ t\<rparr>))
         (call_runtime P name xs (memory m)))"
| "execute P (Arith name l r) m =
     Option.bind (value_of m l) (\<lambda>x. Option.bind (value_of m r) (\<lambda>y. map_option (\<lambda>z. (z, m)) (arith name x y)))"
| "execute P (Cast name v) m = Option.bind (value_of m v) (\<lambda>x. map_option (\<lambda>z. (z, m)) (cast name x))"
| "execute P (Alloca t n) m =
     Some (Address (length (memory m)), m\<lparr>memory := memory m @ replicate n None\<rparr>)"
| "execute P (Load p) m =
     (case value_of m p of
        Some (Address a) \<Rightarrow> map_option (\<lambda>x. (x, m)) (read_cell (memory m) a)
      | _ \<Rightarrow> None)"
| "execute P (Store v p) m =
     (case value_of m p of
        Some (Address a) \<Rightarrow>
          Option.bind (value_of m v) (\<lambda>x.
            map_option (\<lambda>mem. (Nothing, m\<lparr>memory := mem\<rparr>)) (write_cell a x (memory m)))
      | _ \<Rightarrow> None)"
| "execute P (InBoundsGEP p i) m =
     (case value_of m p of Some (Address a) \<Rightarrow> Some (Address (a + i), m) | _ \<Rightarrow> None)"
| "execute P _ m = None"

text \<open>The instructions with the numbers of their results; \<open>n\<close> is the number of the first one.\<close>

fun numbered :: "nat \<Rightarrow> (nat \<times> instr) list \<Rightarrow> (nat \<times> nat \<times> instr) list" where
  "numbered n [] = []"
| "numbered n ((b, i) # cs) = (b, n, i) # numbered (if is_request i then Suc n else n) cs"

definition items_of :: "nat \<Rightarrow> (nat \<times> nat \<times> instr) list \<Rightarrow> (nat \<times> instr) list" where
  "items_of b cs = map snd (filter (\<lambda>x. fst x = b) cs)"

datatype 'v running = Running "(nat \<times> instr) list" "'v machine" | Returned string

text \<open>One step; \<open>F\<close> has the instructions of every block.\<close>

fun step :: "'v php_values \<Rightarrow> (nat \<Rightarrow> (nat \<times> instr) list) \<Rightarrow> 'v running \<Rightarrow> 'v running option" where
  "step P F (Running ((n, Br b) # items) m) = Some (Running (F b) m)"
| "step P F (Running ((n, CondBr c a b) # items) m) =
     (case value_of m c of Some (Bit x) \<Rightarrow> Some (Running (if x then F a else F b) m) | _ \<Rightarrow> None)"
| "step P F (Running ((n, RetVoid) # items) m) = Some (Returned (printed_text m))"
| "step P F (Running ((n, i) # items) m) =
     map_option (\<lambda>(x, m'). Running items (if is_request i then m'\<lparr>registers := (registers m')(n \<mapsto> x)\<rparr> else m'))
       (execute P i m)"
| "step P F s = None"

text \<open>A run of at most \<open>fuel\<close> steps to the return of the function.\<close>

fun run_machine :: "'v php_values \<Rightarrow> (nat \<Rightarrow> (nat \<times> instr) list) \<Rightarrow> nat \<Rightarrow> 'v running \<Rightarrow> string option" where
  "run_machine P F fuel (Returned t) = Some t"
| "run_machine P F 0 s = None"
| "run_machine P F (Suc fuel) s = Option.bind (step P F s) (run_machine P F fuel)"

definition blocks_of :: "nat \<Rightarrow> (nat \<times> instr) list \<Rightarrow> nat \<Rightarrow> (nat \<times> instr) list" where
  "blocks_of base cs b = items_of b (numbered base cs)"

text \<open>A call of the function that was generated: it begins at its first block.\<close>

definition call_template :: "'v php_values \<Rightarrow> nat \<Rightarrow> (nat \<times> instr) list \<Rightarrow> nat \<Rightarrow> string option" where
  "call_template P base cs fuel =
     run_machine P (blocks_of base cs) fuel
       (Running (blocks_of base cs 0) \<lparr>registers = Map.empty, memory = [], printed_text = []\<rparr>)"

section \<open>The values of expressions\<close>

text \<open>
  The run-time library that the meaning of templates is taken over: native operands are combined by the
  arithmetic of their machine types, and an operator with a PHP value is one of the run-time functions.
\<close>

fun as_zval :: "'v php_values \<Rightarrow> 'v operand \<Rightarrow> 'v option" where
  "as_zval P (Zval v) = Some v"
| "as_zval P (Real d) = Some (double_zval P d)"
| "as_zval P (Bit b) = Some (bool_zval P b)"
| "as_zval P (Long l) = Some (long_zval P l)"
| "as_zval P (Text s) = Some (string_zval P (c_string s))"
| "as_zval P _ = None"

fun is_variant_operand :: "'v operand \<Rightarrow> bool" where
  "is_variant_operand (Zval v) = True"
| "is_variant_operand _ = False"

fun is_int_operand :: "'v operand \<Rightarrow> bool" where
  "is_int_operand (Long l) = True"
| "is_int_operand (Bit b) = True"
| "is_int_operand _ = False"

text \<open>
  Native operators, written down without the instructions that the visitor picks for them.  Integers are
  signed numbers of their width: a boolean is one bit, of which the true one is \<open>- 1\<close>, and a sum of two of
  them is taken modulo two.  Comparisons of doubles are ordered, so each is false for a NaN.
\<close>

fun ordered :: "comparison_op \<Rightarrow> int \<Rightarrow> int \<Rightarrow> bool" where
  "ordered Equal a b = (a = b)"
| "ordered NotEqual a b = (a \<noteq> b)"
| "ordered GreaterThan a b = (a > b)"
| "ordered GreaterOrEqual a b = (a \<ge> b)"
| "ordered LessThan a b = (a < b)"
| "ordered LessOrEqual a b = (a \<le> b)"
| "ordered _ a b = False"

definition signed_bit :: "bool \<Rightarrow> int" where
  "signed_bit b = (if b then - 1 else 0)"

fun native_longs :: "binary_op \<Rightarrow> long \<Rightarrow> long \<Rightarrow> long option" where
  "native_longs Addition a b = Some (a + b)"
| "native_longs Subtraction a b = Some (a - b)"
| "native_longs Multiplication a b = Some (a * b)"
| "native_longs Division a b = (if b = 0 then None else Some (word_of_int (sint a sdiv sint b)))"
| "native_longs Modulus a b = (if b = 0 then None else Some (word_of_int (sint a smod sint b)))"

fun native_bits :: "binary_op \<Rightarrow> bool \<Rightarrow> bool \<Rightarrow> bool option" where
  "native_bits Addition a b = Some (odd (signed_bit a + signed_bit b))"
| "native_bits Subtraction a b = Some (odd (signed_bit a - signed_bit b))"
| "native_bits Multiplication a b = Some (odd (signed_bit a * signed_bit b))"
| "native_bits _ a b = None"

definition native_integers :: "binary_op \<Rightarrow> 'v operand \<Rightarrow> 'v operand \<Rightarrow> 'v operand option" where
  "native_integers op x y =
     (case (x, y) of
        (Long a, Long b) \<Rightarrow> map_option Long (native_longs op a b)
      | (Bit a, Bit b) \<Rightarrow> map_option Bit (native_bits op a b)
      | _ \<Rightarrow> None)"

fun native_doubles :: "binary_op \<Rightarrow> double \<Rightarrow> double \<Rightarrow> 'v operand option" where
  "native_doubles Addition a b = Some (Real (dadd a b))"
| "native_doubles Subtraction a b = Some (Real (dsub a b))"
| "native_doubles Multiplication a b = Some (Real (dmul a b))"
| "native_doubles Division a b = Some (Real (ddiv a b))"
| "native_doubles Modulus a b = None"

fun compared_longs :: "comparison_op \<Rightarrow> long \<Rightarrow> long \<Rightarrow> 'v operand" where
  "compared_longs And a b = Long (and a b)"
| "compared_longs Or a b = Long (or a b)"
| "compared_longs op a b = Bit (ordered op (sint a) (sint b))"

fun compared_bits :: "comparison_op \<Rightarrow> bool \<Rightarrow> bool \<Rightarrow> bool" where
  "compared_bits And a b = (a \<and> b)"
| "compared_bits Or a b = (a \<or> b)"
| "compared_bits op a b = ordered op (signed_bit a) (signed_bit b)"

definition compared_integers :: "comparison_op \<Rightarrow> 'v operand \<Rightarrow> 'v operand \<Rightarrow> 'v operand option" where
  "compared_integers op x y =
     (case (x, y) of
        (Long a, Long b) \<Rightarrow> Some (compared_longs op a b)
      | (Bit a, Bit b) \<Rightarrow> Some (Bit (compared_bits op a b))
      | _ \<Rightarrow> None)"

fun compared_doubles :: "comparison_op \<Rightarrow> double \<Rightarrow> double \<Rightarrow> 'v operand option" where
  "compared_doubles Equal a b = Some (Bit (deq a b))"
| "compared_doubles NotEqual a b = Some (Bit (dlt a b \<or> dlt b a))"
| "compared_doubles GreaterThan a b = Some (Bit (dlt b a))"
| "compared_doubles GreaterOrEqual a b = Some (Bit (dle b a))"
| "compared_doubles LessThan a b = Some (Bit (dlt a b))"
| "compared_doubles LessOrEqual a b = Some (Bit (dle a b))"
| "compared_doubles _ a b = None"

definition native_unary :: "unary_op \<Rightarrow> 'v operand \<Rightarrow> 'v operand option" where
  "native_unary op x =
     (case op of
        NumericPositive \<Rightarrow> Some x
      | NumericNegative \<Rightarrow>
          (case x of Long a \<Rightarrow> Some (Long (- a)) | Bit a \<Rightarrow> Some (Bit (odd (- signed_bit a))) | _ \<Rightarrow> None)
      | BooleanNegation \<Rightarrow>
          (case x of Long a \<Rightarrow> Some (Long (not a)) | Bit a \<Rightarrow> Some (Bit (\<not> a)) | _ \<Rightarrow> None))"

definition combine ::
    "'v php_values \<Rightarrow> ('v \<Rightarrow> 'v \<Rightarrow> 'v operand option) \<Rightarrow> ('v operand \<Rightarrow> 'v operand \<Rightarrow> 'v operand option) \<Rightarrow>
     (double \<Rightarrow> double \<Rightarrow> 'v operand option) \<Rightarrow> 'v operand \<Rightarrow> 'v operand \<Rightarrow> 'v operand option" where
  "combine P variant integers doubles x y =
     (if is_variant_operand x \<or> is_variant_operand y
      then Option.bind (as_zval P x) (\<lambda>v. Option.bind (as_zval P y) (variant v))
      else if is_int_operand x \<and> is_int_operand y then integers x y
      else Option.bind (to_real x) (\<lambda>a. Option.bind (to_real y) (doubles a)))"

fun literal_operand :: "expr \<Rightarrow> 'v operand" where
  "literal_operand (DoubleLiteral d) = Real d"
| "literal_operand (IntegerLiteral l) = Long l"
| "literal_operand (BooleanLiteral b) = Bit b"
| "literal_operand (StringLiteral s) = Text s"
| "literal_operand e = Nothing"

definition php_runtime :: "'v php_values \<Rightarrow> 'v operand runtime" where
  "php_runtime P =
     \<lparr>literal_value = literal_operand,
      attribute_value = \<lambda>a x. (case x of Zval v \<Rightarrow> Some (Zval (zval_attribute P a v)) | _ \<Rightarrow> None),
      call_value = \<lambda>name xs. Option.bind (those (map (as_zval P) xs)) (\<lambda>vs. map_option Zval (zval_call P name vs)),
      binary_value = \<lambda>op. combine P (\<lambda>v w. map_option Zval (zval_binary P (binary_code op) v w))
        (native_integers op) (native_doubles op),
      unary_value = \<lambda>op x.
        (case x of
           Zval v \<Rightarrow> map_option Zval (zval_unary P (code_of_char (unary_char op)) v)
         | _ \<Rightarrow> native_unary op x),
      comparison_value = \<lambda>op. combine P (\<lambda>v w. map_option Bit (zval_compare P (comparison_code op) v w))
        (compared_integers op) (compared_doubles op),
      is_true = \<lambda>x. x = Bit True,
      elements_of = \<lambda>x. (case x of Zval v \<Rightarrow> map (map_prod Zval Zval) (zval_elements P v) | _ \<Rightarrow> []),
      text_of = \<lambda>x.
        (case x of
           Real d \<Rightarrow> double_text P d
         | Long l \<Rightarrow> long_text P l
         | Bit b \<Rightarrow> (if b then ''1'' else [])
         | Text s \<Rightarrow> c_string s
         | Zval v \<Rightarrow> zval_text P v
         | _ \<Rightarrow> [])\<rparr>"

definition assigned_variables :: "'v php_values \<Rightarrow> 'v operand environment" where
  "assigned_variables P x = Some (Zval (assigned P x))"

end
