(* ===== verification/Code_Shape.thy ===== *)
theory Code_Shape
  imports Machine
begin

text \<open>
  Where the code of a piece of a template is found in the code of the function: generating a piece adds
  its instructions to the block of the insertion point and to new blocks only.
\<close>

section \<open>Added code\<close>

definition requests :: "(nat \<times> instr) list \<Rightarrow> nat" where
  "requests cs = length (filter (\<lambda>x. is_request (snd x)) cs)"

lemma requests_simps [simp]:
  "requests [] = 0" "requests (x # cs) = (if is_request (snd x) then 1 else 0) + requests cs"
  "requests (xs @ ys) = requests xs + requests ys"
  by (simp_all add: requests_def)

text \<open>From \<open>st\<close> to \<open>st'\<close> code was added in the blocks of \<open>A\<close> and in new ones, and the insertion point is in one of them.\<close>

definition adds_in :: "nat set \<Rightarrow> 'b llvm_state \<Rightarrow> 'b llvm_state \<Rightarrow> bool" where
  "adds_in A st st' \<longleftrightarrow>
     (\<exists>new. code st' = code st @ new \<and> next_value st' = next_value st + requests new \<and>
        fst ` set new \<subseteq> A \<union> {next_block st..<next_block st'}) \<and>
     next_block st \<le> next_block st' \<and> insert_point st' \<in> A \<union> {next_block st..<next_block st'}"

abbreviation adds :: "'b llvm_state \<Rightarrow> 'b llvm_state \<Rightarrow> bool" where
  "adds st st' \<equiv> adds_in {insert_point st} st st'"

lemma adds_refl [simp]: "adds st st"
  by (simp add: adds_in_def)

lemma adds_in_trans:
  assumes "adds_in A st st1" "adds_in B st1 st2" "B \<subseteq> A \<union> {next_block st..<next_block st1}"
  shows "adds_in A st st2"
proof -
  from assms(1) obtain new1 where 1: "code st1 = code st @ new1" "next_value st1 = next_value st + requests new1"
    "fst ` set new1 \<subseteq> A \<union> {next_block st..<next_block st1}" "next_block st \<le> next_block st1"
    by (auto simp: adds_in_def)
  from assms(2) obtain new2 where 2: "code st2 = code st1 @ new2" "next_value st2 = next_value st1 + requests new2"
    "fst ` set new2 \<subseteq> B \<union> {next_block st1..<next_block st2}" "next_block st1 \<le> next_block st2"
    "insert_point st2 \<in> B \<union> {next_block st1..<next_block st2}"
    by (auto simp: adds_in_def)
  have wider: "B \<union> {next_block st1..<next_block st2} \<subseteq> A \<union> {next_block st..<next_block st2}"
    using assms(3) 1(4) 2(4) by fastforce
  have "fst ` set (new1 @ new2) \<subseteq> A \<union> {next_block st..<next_block st2}"
    using 1(3) 2(3,4) wider by (auto simp: subset_iff)
  then show ?thesis
    unfolding adds_in_def using 1 2 wider by (intro conjI exI [of _ "new1 @ new2"]) auto
qed

lemma adds_trans: "adds st st1 \<Longrightarrow> adds st1 st2 \<Longrightarrow> adds st st2"
  by (rule adds_in_trans, assumption+) (simp add: adds_in_def)

lemma adds_emit:
  "adds st (emit_instr i st\<lparr>next_value := if is_request i then Suc (next_value st) else next_value st\<rparr>)"
  by (auto simp: adds_in_def emit_instr_def)

lemma adds_no_result: "\<not> is_request i \<Longrightarrow> adds st (emit_instr i st)"
  by (auto simp: adds_in_def emit_instr_def)

lemma adds_cong:
  assumes "next_block st' = next_block st" "code st' = code st" "insert_point st' = insert_point st"
    "next_value st' = next_value st"
  shows "adds st st'"
  using assms by (simp add: adds_in_def)

section \<open>Generators\<close>

definition added :: "'b llvm_state \<Rightarrow> ('a \<times> 'b llvm_state) res \<Rightarrow> bool" where
  "added st r \<longleftrightarrow> (\<forall>v st'. r = Inr (v, st') \<longrightarrow> adds st st')"

definition added_step :: "'b llvm_state \<Rightarrow> 'b llvm_state res \<Rightarrow> bool" where
  "added_step st r \<longleftrightarrow> (\<forall>st'. r = Inr st' \<longrightarrow> adds st st')"

lemma added_simps [simp]:
  "added st (Inl k)" "added st (Inr (v, st')) \<longleftrightarrow> adds st st'"
  "added_step st (Inl k)" "added_step st (Inr st') \<longleftrightarrow> adds st st'"
  by (auto simp: added_def added_step_def)

lemma addedD: "added st r \<Longrightarrow> r = Inr (v, st') \<Longrightarrow> adds st st'"
  by (simp add: added_def)

lemma added_stepD: "added_step st r \<Longrightarrow> r = Inr st' \<Longrightarrow> adds st st'"
  by (simp add: added_step_def)

lemma added_bind:
  "added st m \<Longrightarrow> (\<And>x st1. added st1 (f x st1)) \<Longrightarrow> added st (bindE m (\<lambda>(x, st1). f x st1))"
  by (fastforce simp: added_def bindE_eq_Inr intro: adds_trans)

lemma added_bind_step:
  "added_step st m \<Longrightarrow> (\<And>st1. added st1 (f st1)) \<Longrightarrow> added st (bindE m f)"
  by (fastforce simp: added_def added_step_def bindE_eq_Inr intro: adds_trans)

lemma added_step_bind:
  "added st m \<Longrightarrow> (\<And>x st1. added_step st1 (f x st1)) \<Longrightarrow> added_step st (bindE m (\<lambda>(x, st1). f x st1))"
  by (fastforce simp: added_def added_step_def bindE_eq_Inr intro: adds_trans)

lemma added_step_bind_step:
  "added_step st m \<Longrightarrow> (\<And>st1. added_step st1 (f st1)) \<Longrightarrow> added_step st (bindE m f)"
  by (fastforce simp: added_step_def bindE_eq_Inr intro: adds_trans)

lemma added_from:
  "adds st st1 \<Longrightarrow> added st1 r \<Longrightarrow> added st r" "adds st st1 \<Longrightarrow> added_step st1 s \<Longrightarrow> added_step st s"
  by (auto simp: added_def added_step_def intro: adds_trans)

lemma added_request [simp]: "is_request i \<Longrightarrow> added st (request t i st)"
  using adds_emit [of st i] by (simp add: request_def emit_instr_def)

lemma added_operations [simp]:
  "added st (int_operation name l r st)" "added st (int_comparison name l r st)"
  "added st (double_operation name l r st)" "added st (double_comparison name l r st)"
  "added st (int_unary name l st)" "added st (to_double l st)" "added st (pointer_comparison name l r st)"
  "added st (CreateAlloca t n st)" "added st (CreateLoad l st)" "added st (CreateInBoundsGEP l n st)"
  "added st (CreateTrunc l w st)" "added st (CreateCall f as st)" "added_step st (CreateStore l r st)"
  by (simp_all add: int_operation_def int_comparison_def double_operation_def double_comparison_def
      int_unary_def to_double_def pointer_comparison_def CreateAlloca_def CreateLoad_def
      CreateInBoundsGEP_def CreateTrunc_def CreateCall_def CreateStore_def adds_no_result
      split: ltype.split prod.split)

lemma added_comparison_requests [simp]:
  "added st (int_comparison_request op l r st)" "added st (double_comparison_request op l r st)"
  by (cases op; simp)+

lemma adds_bindings [simp]:
  "adds st (set_refcount v n st)" "adds st (set_metadata v m st)" "adds st (st\<lparr>bindings_state := b\<rparr>)"
  by (auto intro!: adds_cong simp: set_refcount_def set_metadata_def)

lemma added_call [simp]: "added st (runtime_call name as st)"
  by (cases "findFunction name") (simp_all add: runtime_call_def)

lemma adds_test: "adds st (createRetVoidIfCallFails c st)"
  by (auto simp: createRetVoidIfCallFails_def adds_in_def Let_def new_block_in_function_def new_block_def
      push_block_def CreateCondBr_def CreateRetVoid_def SetInsertPoint_def emit_instr_def)

lemma added_after [simp]:
  "added st (runtime_call name as (set_refcount v n st))"
  "added st (pointer_comparison name l r (set_metadata v m st))"
  "added st (CreateLoad l (createRetVoidIfCallFails c st))"
  by (rule added_from(1) [OF adds_bindings(1) added_call]
      added_from(1) [OF adds_bindings(2) added_operations(7)]
      added_from(1) [OF adds_test added_operations(9)])+

lemma wrap_added [simp]: "added st (wrapAsVariant v st)"
  by (cases "wrappingFunction (getType v)") (auto simp: wrapAsVariant_def intro!: added_bind)

lemma scope_added [simp]: "added_step st (php_variableGoesOutOfScope v st)"
  by (auto simp: php_variableGoesOutOfScope_def Let_def split: option.split intro!: added_step_bind)

lemma scope_after_added [simp]: "added_step st (php_variableGoesOutOfScope v (set_refcount w n st))"
  by (rule added_from(2) [OF adds_bindings(1) scope_added])

lemma reference_added [simp]: "added st (php_getNewReferenceForVariable v st)"
  by (auto simp: php_getNewReferenceForVariable_def split: option.split)

lemma print_added [simp]: "added st (php_createPrintCall v st)"
  by (cases "getPrintMethodForType (getType v)") (simp_all add: php_createPrintCall_def)

lemma lookup_added [simp]: "added st (php_createVariableLookup name st)"
  by (auto simp: php_createVariableLookup_def intro!: added_bind)

lemma attribute_added [simp]: "added st (php_createGetAttribute name v st)"
  by (auto simp: php_createGetAttribute_def intro!: added_bind added_bind_step)

lemma init_added [simp]: "added st (php_createForLoopInit v st)"
  by (auto simp: php_createForLoopInit_def intro!: added_bind)

lemma next_added [simp]: "added st (php_createForLoopNextIteration v st)"
  by (auto simp: php_createForLoopNextIteration_def split: option.split)

lemma slot_added [simp]: "added st (variable_slot h st)"
  by (simp add: variable_slot_def)

lemma load_added [simp]: "added st (load_variable h s n st)"
  by (auto simp: load_variable_def intro!: added_bind)

lemma variables_added [simp]: "added st (php_createForLoopGetVariables v hasKey hasValue st)"
  by (auto simp: php_createForLoopGetVariables_def split: option.split intro!: added_bind)

lemma comparison_added [simp]: "added st (php_createVariantComparison op l r st)"
  unfolding php_createVariantComparison_def by (intro added_bind added_bind_step) simp_all

lemma binary_added [simp]: "added st (php_createVariantBinaryOperation op l r st)"
  unfolding php_createVariantBinaryOperation_def by (intro added_bind added_bind_step) simp_all

lemma unary_added [simp]: "added st (php_createVariantUnaryOperation op v st)"
  unfolding php_createVariantUnaryOperation_def by (intro added_bind added_bind_step) simp_all

lemma store_added [simp]: "added st (store_arguments p n as st)"
  by (induction as arbitrary: n st) (auto intro!: added_bind added_bind_step)

lemma release_all_added [simp]: "added_step st (release_all vs st)"
  by (induction vs arbitrary: st) (auto intro!: added_step_bind_step)

lemma release_all_after_added [simp]: "added_step st (release_all vs (set_refcount w n st))"
  by (rule added_from(2) [OF adds_bindings(1) release_all_added])

lemma pass_added [simp]: "added st (pass_arguments as st)"
  by (auto simp: pass_arguments_def intro!: added_bind)

lemma call_added [simp]: "added st (php_createMethodCall name as st)"
  unfolding php_createMethodCall_def arguments_of_template bindE_simps case_prod_beta'
  by (intro added_bind [unfolded case_prod_beta'] added_bind_step) (simp_all add: adds_test)

section \<open>The visitor\<close>

lemma llvm_operations_added:
  "added st (llvm_binary_operation php_bindings bop l r st)" "added st (llvm_unary_operation php_bindings uop l st)"
  "added st (llvm_comparison php_bindings cop l r st)"
  by (auto simp: llvm_binary_operation_def llvm_unary_operation_def llvm_comparison_def
      intro!: added_bind split: unary_op.split)

lemma expression_added:
  "C = php_bindings \<Longrightarrow> added st (llvm_expression C e st)"
  "C = php_bindings \<Longrightarrow> added st (llvm_arguments C as st)"
proof (induction C e st and C as st rule: llvm_expression_llvm_arguments.induct)
  case (11 B)
  then show ?case by simp
next
  case (12 B p ps st)
  then show ?case
    by (cases p) (fastforce simp: added_def bindE_eq_Inr intro: adds_trans)+
qed (fastforce simp: added_def bindE_eq_Inr split: option.split
      intro: adds_trans addedD [OF llvm_operations_added(1)] addedD [OF llvm_operations_added(2)]
        addedD [OF llvm_operations_added(3)] addedD [OF reference_added] addedD [OF lookup_added]
        addedD [OF attribute_added] addedD [OF call_added])+

lemmas expression_adds = addedD [OF expression_added(1) [OF refl]]

text \<open>Branches to blocks that wait.\<close>

lemma adds_branch:
  "adds_in {insert_point st, b} st (SetInsertPoint b (CreateCondBr c b1 b2 st))"
  "adds_in {insert_point st, b} st (SetInsertPoint b (CreateBr b1 st))"
  "adds_in {insert_point st, b} st (SetInsertPoint b (push_block b' (CreateBr b1 st)))"
  by (auto simp: adds_in_def SetInsertPoint_def CreateCondBr_def CreateBr_def push_block_def emit_instr_def)

lemma adds_new_block:
  "new_block st = (b, st') \<Longrightarrow> adds st st'" "new_block_in_function st = (b, st') \<Longrightarrow> adds st st'"
  by (auto simp: adds_in_def new_block_in_function_def new_block_def push_block_def)

lemma adds_same:
  "adds st (override name v st)" "adds st (set_loop_variable h name v st)" "adds st (restore_loop_variable h name v st)"
  by (auto intro!: adds_cong simp: override_def set_loop_variable_def restore_loop_variable_def)

lemma release_added [simp]: "added_step st (release_loop_variable php_bindings h v st)"
  by (cases v) (simp_all add: release_loop_variable_def)

lemma adds_inD:
  assumes "adds_in A st st'"
  shows "next_block st \<le> next_block st'" "insert_point st' \<in> A \<union> {next_block st..<next_block st'}"
  using assms by (auto simp: adds_in_def)

lemma if_adds:
  assumes cond: "adds st st0"
    and bs: "new_block_in_function st0 = (b1, st1)" "new_block st1 = (b2, st2)" "new_block st2 = (b3, st3)"
    and th: "adds (SetInsertPoint b1 (CreateCondBr c b1 b2 st3)) st4"
    and el: "adds (SetInsertPoint b2 (push_block b2 (CreateBr b3 st4))) st5"
    and st': "st' = SetInsertPoint b3 (push_block b3 (CreateBr b3 st5))"
  shows "adds st st'"
proof -
  note eqs = new_block_in_function_eqs [OF bs(1)] new_block_eqs [OF bs(2)] new_block_eqs [OF bs(3)]
  have "adds st0 st3"
    using adds_trans [OF adds_trans [OF adds_new_block(2) [OF bs(1)] adds_new_block(1) [OF bs(2)]] adds_new_block(1) [OF bs(3)]] .
  then have "adds st0 (SetInsertPoint b1 (CreateCondBr c b1 b2 st3))"
    using adds_branch(1) [of st3 b1 c b1 b2] by (rule adds_in_trans) (auto simp: eqs)
  then have 4: "adds st0 st4"
    using th by (rule adds_in_trans) (auto simp: eqs)
  have n4: "b3 < next_block st4" using adds_inD(1) [OF th] by (simp add: eqs)
  have "adds st0 (SetInsertPoint b2 (push_block b2 (CreateBr b3 st4)))"
    using 4 adds_branch(3) [of st4 b2 b2 b3]
    by (rule adds_in_trans) (use adds_inD(2) [OF 4] n4 in \<open>auto simp: eqs\<close>)
  then have 5: "adds st0 st5"
    using el by (rule adds_in_trans) (use n4 in \<open>auto simp: eqs\<close>)
  have n5: "b3 < next_block st5" using adds_inD(1) [OF el] n4 by simp
  have "adds st0 st'"
    unfolding st' using 5 adds_branch(3) [of st5 b3 b3 b3]
    by (rule adds_in_trans) (use adds_inD(2) [OF 5] n5 in \<open>auto simp: eqs\<close>)
  with cond show ?thesis by (rule adds_trans)
qed

lemma for_adds:
  assumes it: "adds st st0"
    and bs: "new_block_in_function st0 = (b1, st1)" "new_block_in_function st1 = (b2, st2)"
      "new_block_in_function st2 = (b3, st3)"
    and c: "adds st3 st4" and loop: "adds (SetInsertPoint b1 (CreateCondBr c b1 b2 st4)) st10"
    and el: "adds (SetInsertPoint b2 (CreateCondBr c' b1 b3 st10)) st11"
    and out: "adds (SetInsertPoint b3 (CreateBr b3 st11)) st'"
  shows "adds st st'"
proof -
  note eqs = new_block_in_function_eqs [OF bs(1)] new_block_in_function_eqs [OF bs(2)] new_block_in_function_eqs [OF bs(3)]
  have "adds st0 st3"
    using adds_trans [OF adds_trans [OF adds_new_block(2) [OF bs(1)] adds_new_block(2) [OF bs(2)]] adds_new_block(2) [OF bs(3)]] .
  then have 4: "adds st0 st4" using c by (rule adds_trans)
  have n4: "b3 < next_block st4" using adds_inD(1) [OF c] by (simp add: eqs)
  have "adds st0 (SetInsertPoint b1 (CreateCondBr c b1 b2 st4))"
    using 4 adds_branch(1) [of st4 b1 c b1 b2]
    by (rule adds_in_trans) (use adds_inD(2) [OF 4] n4 in \<open>auto simp: eqs\<close>)
  then have 10: "adds st0 st10"
    using loop by (rule adds_in_trans) (use n4 in \<open>auto simp: eqs\<close>)
  have n10: "b3 < next_block st10" using adds_inD(1) [OF loop] n4 by simp
  have "adds st0 (SetInsertPoint b2 (CreateCondBr c' b1 b3 st10))"
    using 10 adds_branch(1) [of st10 b2 c' b1 b3]
    by (rule adds_in_trans) (use adds_inD(2) [OF 10] n10 in \<open>auto simp: eqs\<close>)
  then have 11: "adds st0 st11"
    using el by (rule adds_in_trans) (use n10 in \<open>auto simp: eqs\<close>)
  have n11: "b3 < next_block st11" using adds_inD(1) [OF el] n10 by simp
  have "adds st0 (SetInsertPoint b3 (CreateBr b3 st11))"
    using 11 adds_branch(2) [of st11 b3 b3]
    by (rule adds_in_trans) (use adds_inD(2) [OF 11] n11 in \<open>auto simp: eqs\<close>)
  then have "adds st0 st'"
    using out by (rule adds_in_trans) (use n11 in \<open>auto simp: eqs\<close>)
  with it show ?thesis by (rule adds_trans)
qed

lemma body_adds:
  assumes "\<And>a st st'. a \<in> set_option b \<Longrightarrow> llvm_ast php_bindings a st = Inr st' \<Longrightarrow> adds st st'"
    and "llvm_body php_bindings b st = Inr st'"
  shows "adds st st'"
  using assms by (cases b) auto

lemma statements_add:
  assumes "\<And>a st st'. a \<in> set xs \<Longrightarrow> llvm_ast php_bindings a st = Inr st' \<Longrightarrow> adds st st'"
  shows "llvm_statements php_bindings xs st = Inr st' \<Longrightarrow> adds st st'"
  using assms by (induction xs arbitrary: st) (fastforce simp: bindE_eq_Inr intro: adds_trans)+

lemma loop_adds:
  assumes vars: "php_createForLoopGetVariables it hk hv st5 = Inr ((kv, vv), st6)"
    and body: "adds (set_loop_variable hv vn vv (set_loop_variable hk kn kv st6)) st7"
    and out: "release_loop_variable php_bindings hk kv st7 = Inr st8" "release_loop_variable php_bindings hv vv st8 = Inr st9"
    and step: "php_createForLoopNextIteration it
      (restore_loop_variable hv vn ov (restore_loop_variable hk kn ok st9)) = Inr (c', st10)"
  shows "adds st5 st6" "adds st6 st10" "adds st7 st10"
proof -
  have 79: "adds st7 st9"
    using added_stepD [OF release_added out(1)] added_stepD [OF release_added out(2)] by (rule adds_trans)
  have "adds st9 (restore_loop_variable hv vn ov (restore_loop_variable hk kn ok st9))"
    using adds_same(3) adds_same(3) by (rule adds_trans)
  with 79 have "adds st7 (restore_loop_variable hv vn ov (restore_loop_variable hk kn ok st9))"
    by (rule adds_trans)
  then show 710: "adds st7 st10"
    using addedD [OF next_added step] by (rule adds_trans)
  show "adds st5 st6" by (rule addedD [OF variables_added vars])
  have "adds st6 (set_loop_variable hv vn vv (set_loop_variable hk kn kv st6))"
    using adds_same(2) adds_same(2) by (rule adds_trans)
  then have "adds st6 st7" using body by (rule adds_trans)
  then show "adds st6 st10" using 710 by (rule adds_trans)
qed

lemma ast_adds: "llvm_ast php_bindings a st = Inr st' \<Longrightarrow> adds st st'"
proof (induction a arbitrary: st st')
  case (Statements xs)
  then show ?case using statements_add [of xs st st'] by simp
next
  case (RawBlock t)
  then show ?case by (auto simp: bindE_eq_Inr intro: addedD [OF print_added])
next
  case (PrintBlock e)
  then obtain v st1 w st2 where "llvm_expression php_bindings e st = Inr (v, st1)"
      "php_createPrintCall v st1 = Inr (w, st2)" "st' = st2 \<or> php_variableGoesOutOfScope v st2 = Inr st'"
    by (auto simp: bindE_eq_Inr split: if_splits)
  moreover have "php_variableGoesOutOfScope v st2 = Inr st' \<Longrightarrow> adds st2 st'"
    by (rule added_stepD [OF scope_added])
  ultimately show ?case
    using expression_adds addedD [OF print_added] by (metis adds_trans)
next
  case (IfBlock c th el)
  show ?case
  proof (rule if_run [OF IfBlock.prems])
    fix cond st0 b1 st1 b2 st2 b3 st3 st4 st5
    assume "llvm_expression php_bindings c st = Inr (cond, st0)"
      and bs: "new_block_in_function st0 = (b1, st1)" "new_block st1 = (b2, st2)" "new_block st2 = (b3, st3)"
      and body: "llvm_body php_bindings th (SetInsertPoint b1 (CreateCondBr cond b1 b2 st3)) = Inr st4"
        "llvm_body php_bindings el (SetInsertPoint b2 (push_block b2 (CreateBr b3 st4))) = Inr st5"
      and st': "st' = SetInsertPoint b3 (push_block b3 (CreateBr b3 st5))"
    then have "adds st st0" by (simp add: expression_adds)
    from if_adds [OF this bs body_adds [OF IfBlock.IH(1) body(1)] body_adds [OF IfBlock.IH(2) body(2)] st']
    show ?thesis .
  qed
next
  case (ForBlock k v i b el)
  show ?case
  proof (rule for_run [OF ForBlock.prems])
    fix it st0 b1 st1 b2 st2 b3 st3 c st4 keyName valueName kv vv st6 st7 st8 st9 st10' c' st10 st11 st12
    assume it: "llvm_expression php_bindings i st = Inr (it, st0)"
      and bs: "new_block_in_function st0 = (b1, st1)" "new_block_in_function st1 = (b2, st2)"
        "new_block_in_function st2 = (b3, st3)"
      and c: "createForLoopInit php_bindings it st3 = Inr (c, st4)"
      and vars: "createForLoopGetVariables php_bindings it (k \<noteq> None) (v \<noteq> None) (SetInsertPoint b1 (CreateCondBr c b1 b2 st4)) = Inr ((kv, vv), st6)"
      and body: "llvm_body php_bindings b (set_loop_variable (v \<noteq> None) valueName vv (set_loop_variable (k \<noteq> None) keyName kv st6)) = Inr st7"
      and out: "release_loop_variable php_bindings (k \<noteq> None) kv st7 = Inr st8" "release_loop_variable php_bindings (v \<noteq> None) vv st8 = Inr st9"
      and st10': "st10' = restore_loop_variable (v \<noteq> None) valueName (m_overriden_variables st4 valueName)
        (restore_loop_variable (k \<noteq> None) keyName (m_overriden_variables st4 keyName) st9)"
      and step: "createForLoopNextIteration php_bindings it st10' = Inr (c', st10)"
      and els: "llvm_body php_bindings el (SetInsertPoint b2 (CreateCondBr c' b1 b3 st10)) = Inr st11"
      and clean: "createForLoopCleanup php_bindings it (SetInsertPoint b3 (CreateBr b3 st11)) = Inr st12"
      and final: "variableGoesOutOfScope php_bindings it st12 = Inr st'"
    note loop = loop_adds [OF vars [unfolded php_bindings_simps] body_adds [OF ForBlock.IH(1) body] out step [unfolded st10' php_bindings_simps]]
    have "st12 = set_metadata it None (SetInsertPoint b3 (CreateBr b3 st11))"
      using clean by (simp add: php_createForLoopCleanup_def)
    then have "adds (SetInsertPoint b3 (CreateBr b3 st11)) st12"
      by (simp only: adds_bindings)
    moreover have "adds st12 st'" using added_stepD [OF scope_added] final by simp
    ultimately have "adds (SetInsertPoint b3 (CreateBr b3 st11)) st'" by (rule adds_trans)
    from for_adds [OF expression_adds [OF it] bs addedD [OF init_added c [unfolded php_bindings_simps]]
        adds_trans [OF loop(1,2)] body_adds [OF ForBlock.IH(2) els] this]
    show ?thesis .
  qed
qed simp

end
