(* ===== verification/Code_Runs.thy ===== *)
theory Code_Runs
  imports Code_Shape "HOL-Library.Sublist"
begin

text \<open>
  How the machine runs the code of one piece: from the place where the generator stood before the piece
  to the place where it stood after it.
\<close>

section \<open>Runs\<close>

definition reaches :: "'v php_values \<Rightarrow> (nat \<Rightarrow> (nat \<times> instr) list) \<Rightarrow> 'v running \<Rightarrow> 'v running \<Rightarrow> bool" where
  "reaches P F = (\<lambda>s s'. step P F s = Some s')\<^sup>*\<^sup>*"

lemma reaches_refl [simp]: "reaches P F s s"
  by (simp add: reaches_def)

lemma reaches_trans: "reaches P F s s1 \<Longrightarrow> reaches P F s1 s2 \<Longrightarrow> reaches P F s s2"
  by (simp add: reaches_def)

lemma reaches_step: "step P F s = Some s' \<Longrightarrow> reaches P F s s'"
  unfolding reaches_def by (rule r_into_rtranclp)

lemma reaches_run:
  assumes "reaches P F s (Returned t)"
  shows "\<exists>fuel. run_machine P F fuel s = Some t"
  using assms unfolding reaches_def
proof (induction rule: converse_rtranclp_induct)
  case base
  have "run_machine P F 0 (Returned t) = Some t" by simp
  then show ?case by blast
next
  case (step s s1)
  then obtain fuel where "run_machine P F fuel s1 = Some t" by blast
  with step.hyps(1) have "run_machine P F (Suc fuel) s = Some t"
    by (cases s) auto
  then show ?case by blast
qed

section \<open>Places in the code\<close>

text \<open>\<open>st\<close> is a state of the generator on the way to the code \<open>C\<close>; \<open>rest_of C st\<close> is what follows in its block.\<close>

definition good :: "nat \<Rightarrow> 'b llvm_state \<Rightarrow> bool" where
  "good base st \<longleftrightarrow> next_value st = base + requests (code st) \<and>
     fst ` set (code st) \<subseteq> {..<next_block st} \<and> insert_point st < next_block st"

definition within :: "(nat \<times> instr) list \<Rightarrow> 'b llvm_state \<Rightarrow> bool" where
  "within C st \<longleftrightarrow> prefix (code st) C"

definition rest_of :: "(nat \<times> instr) list \<Rightarrow> 'b llvm_state \<Rightarrow> (nat \<times> instr) list" where
  "rest_of C st = items_of (insert_point st) (numbered (next_value st) (drop (length (code st)) C))"

lemma items_of_simps [simp]:
  "items_of b [] = []" "items_of b (x # xs) = (if fst x = b then [snd x] else []) @ items_of b xs"
  "items_of b (xs @ ys) = items_of b xs @ items_of b ys"
  by (simp_all add: items_of_def)

lemma numbered_append: "numbered n (xs @ ys) = numbered n xs @ numbered (n + requests xs) ys"
  by (induction n xs rule: numbered.induct) auto

lemma items_of_other: "b \<notin> fst ` set cs \<Longrightarrow> items_of b (numbered n cs) = []"
  by (induction n cs rule: numbered.induct) auto

lemma good_adds:
  assumes "adds_in A st st'" "good base st" "A \<subseteq> {..<next_block st}"
  shows "good base st'"
  using assms by (fastforce simp: good_def adds_in_def)

lemma within_adds: "adds_in A st st' \<Longrightarrow> within C st' \<Longrightarrow> within C st"
  by (auto simp: adds_in_def within_def prefix_def)

lemma good_D: "good base st \<Longrightarrow> {insert_point st} \<subseteq> {..<next_block st}"
  by (simp add: good_def)

lemmas good_added = good_adds [OF _ _ good_D]

text \<open>The first instruction at a place.\<close>

lemma rest_of_emit:
  assumes "within C st'" "code st' = code st @ [(insert_point st, i)]"
  shows "rest_of C st = (next_value st, i) #
    items_of (insert_point st) (numbered (if is_request i then Suc (next_value st) else next_value st)
      (drop (length (code st')) C))"
proof -
  from assms obtain rest where C: "C = code st @ (insert_point st, i) # rest" by (auto simp: within_def prefix_def)
  then show ?thesis by (simp add: rest_of_def assms(2))
qed

lemma rest_of_next:
  assumes "within C st'" "code st' = code st @ [(insert_point st, i)]" "insert_point st' = insert_point st"
    and "next_value st' = (if is_request i then Suc (next_value st) else next_value st)"
  shows "rest_of C st = (next_value st, i) # rest_of C st'"
  using rest_of_emit [OF assms(1,2)] assms(3,4) by (simp add: rest_of_def)

text \<open>The beginning of a block without code so far is the place where the generator goes to it.\<close>

lemma block_begins:
  assumes "good base st" "within C st" "insert_point st \<notin> fst ` set (code st)"
  shows "blocks_of base C (insert_point st) = rest_of C st"
proof -
  from assms(2) obtain rest where "C = code st @ rest" by (auto simp: within_def prefix_def)
  then show ?thesis
    using assms(1,3) by (simp add: blocks_of_def rest_of_def numbered_append items_of_other good_def)
qed

section \<open>Values of generated code\<close>

fun known :: "nat \<Rightarrow> lvalue \<Rightarrow> bool" where
  "known n (Request k t) = (k < n)"
| "known n v = True"

fun has_type :: "'v operand \<Rightarrow> ltype \<Rightarrow> bool" where
  "has_type (Long l) t = (t = IntTy 64)"
| "has_type (Bit b) t = (t = IntTy 1)"
| "has_type (Real d) t = (t = DoubleTy)"
| "has_type (Text s) t = (t = c_string_type)"
| "has_type (Zval v) t = (t = zval_ptr)"
| "has_type x t = False"

text \<open>The machine has the operand \<open>x\<close> for the value \<open>v\<close>.\<close>

definition has :: "'b llvm_state \<Rightarrow> 'v machine \<Rightarrow> lvalue \<Rightarrow> 'v operand \<Rightarrow> bool" where
  "has st m v x \<longleftrightarrow> known (next_value st) v \<and> value_of m v = Some x"

definition has_typed :: "'b llvm_state \<Rightarrow> 'v machine \<Rightarrow> lvalue \<Rightarrow> 'v operand \<Rightarrow> bool" where
  "has_typed st m v x \<longleftrightarrow> has st m v x \<and> has_type x (getType v)"

text \<open>The value is a pointer to a zval that holds \<open>z\<close>.\<close>

definition points_to :: "'b llvm_state \<Rightarrow> 'v machine \<Rightarrow> lvalue \<Rightarrow> 'v \<Rightarrow> bool" where
  "points_to st m v z \<longleftrightarrow> (\<exists>x. has st m v x \<and> zval_at (memory m) x = Some z)"

lemma known_mono: "known n v \<Longrightarrow> n \<le> n' \<Longrightarrow> known n' v"
  by (cases v) auto

text \<open>
  Running the code between \<open>st\<close> and \<open>st'\<close> takes the machine from \<open>m\<close> to \<open>m'\<close> and prints \<open>t\<close>; the registers of
  the values that were known and the memory that was there are kept.
\<close>

definition goes ::
    "'v php_values \<Rightarrow> nat \<Rightarrow> (nat \<times> instr) list \<Rightarrow> string \<Rightarrow> 'b llvm_state \<Rightarrow> 'v machine \<Rightarrow> 'b llvm_state \<Rightarrow> 'v machine \<Rightarrow> bool" where
  "goes P base C t st m st' m' \<longleftrightarrow>
     reaches P (blocks_of base C) (Running (rest_of C st) m) (Running (rest_of C st') m') \<and>
     printed_text m' = printed_text m @ t \<and>
     (\<forall>r < next_value st. registers m' r = registers m r) \<and> prefix (memory m) (memory m') \<and>
     next_value st \<le> next_value st'"

definition returns ::
    "'v php_values \<Rightarrow> nat \<Rightarrow> (nat \<times> instr) list \<Rightarrow> string \<Rightarrow> 'b llvm_state \<Rightarrow> 'v machine \<Rightarrow> bool" where
  "returns P base C t st m \<longleftrightarrow>
     reaches P (blocks_of base C) (Running (rest_of C st) m) (Returned (printed_text m @ t))"

lemma goes_trans:
  "goes P base C t st m st1 m1 \<Longrightarrow> goes P base C u st1 m1 st2 m2 \<Longrightarrow> goes P base C (t @ u) st m st2 m2"
  by (auto simp: goes_def intro: reaches_trans prefix_order.trans)

lemma goes_silent:
  "goes P base C [] st m st1 m1 \<Longrightarrow> goes P base C u st1 m1 st2 m2 \<Longrightarrow> goes P base C u st m st2 m2"
  using goes_trans [of P base C "[]" st m st1 m1 u st2 m2] by simp

lemma goes_returns: "goes P base C t st m st1 m1 \<Longrightarrow> returns P base C u st1 m1 \<Longrightarrow> returns P base C (t @ u) st m"
  by (auto simp: goes_def returns_def intro: reaches_trans)

lemma silent_returns: "goes P base C [] st m st1 m1 \<Longrightarrow> returns P base C u st1 m1 \<Longrightarrow> returns P base C u st m"
  using goes_returns [of P base C "[]" st m st1 m1 u] by simp

lemma rest_of_same:
  assumes "code st' = code st" "insert_point st' = insert_point st" "next_value st' = next_value st"
  shows "rest_of C st' = rest_of C st"
  using assms by (simp add: rest_of_def)

lemma goes_same:
  assumes "code st' = code st" "insert_point st' = insert_point st" "next_value st' = next_value st"
  shows "goes P base C [] st m st' m"
  using rest_of_same [OF assms] assms(3) by (simp add: goes_def)

lemma goes_refcount [simp]: "goes P base C [] st m (set_refcount v n st) m"
  by (rule goes_same) (simp_all add: set_refcount_def)

lemma goes_metadata [simp]: "goes P base C [] st m (set_metadata v x st) m"
  by (rule goes_same) (simp_all add: set_metadata_def)

lemma has_goes: "goes P base C t st m st' m' \<Longrightarrow> has st m v x \<Longrightarrow> has st' m' v x"
  by (cases v) (auto simp: goes_def has_def)

lemma has_typed_goes: "goes P base C t st m st' m' \<Longrightarrow> has_typed st m v x \<Longrightarrow> has_typed st' m' v x"
  by (auto simp: has_typed_def intro: has_goes)

lemma read_cell_prefix: "prefix mem mem' \<Longrightarrow> read_cell mem a = Some x \<Longrightarrow> read_cell mem' a = Some x"
  by (auto simp: read_cell_def prefix_def nth_append split: if_splits)

lemma zval_at_prefix: "prefix mem mem' \<Longrightarrow> zval_at mem x = Some z \<Longrightarrow> zval_at mem' x = Some z"
  by (cases x) (auto split: option.splits operand.splits dest: read_cell_prefix)

lemma points_to_goes: "goes P base C t st m st' m' \<Longrightarrow> points_to st m v z \<Longrightarrow> points_to st' m' v z"
  unfolding points_to_def using has_goes zval_at_prefix by (metis goes_def)

lemma has_typed_variant: "has_typed st m v (Zval z) \<Longrightarrow> points_to st m v z"
  by (auto simp: has_typed_def points_to_def)

section \<open>Single requests\<close>

definition with_register :: "nat \<Rightarrow> 'v operand \<Rightarrow> 'v machine \<Rightarrow> 'v machine" where
  "with_register n x m = m\<lparr>registers := (registers m)(n \<mapsto> x)\<rparr>"

lemma with_register_simps [simp]:
  "memory (with_register n x m) = memory m" "printed_text (with_register n x m) = printed_text m"
  "registers (with_register n x m) = (registers m)(n \<mapsto> x)"
  by (simp_all add: with_register_def)

lemma step_execute:
  assumes "execute P i m = Some (x, m')"
  shows "step P F (Running ((n, i) # items) m) = Some (Running items (if is_request i then with_register n x m' else m'))"
  using assms by (cases i) (auto simp: with_register_def)

lemma request_runs:
  assumes "request t i st = Inr (v, st')" "within C st'" "is_request i"
    and "execute P i m = Some (x, m1)" "registers m1 = registers m" "prefix (memory m) (memory m1)"
    and "printed_text m1 = printed_text m @ u"
  shows "goes P base C u st m st' (with_register (next_value st) x m1)"
    "has st' (with_register (next_value st) x m1) v x" "getType v = t"
proof -
  from assms(1) have v: "v = Request (next_value st) t"
    and st': "st' = (emit_instr i st)\<lparr>next_value := Suc (next_value st)\<rparr>" by (auto simp: request_def)
  have "rest_of C st = (next_value st, i) # rest_of C st'"
    by (rule rest_of_next [OF assms(2)]) (use assms(3) in \<open>simp_all add: st' emit_instr_def\<close>)
  then have "reaches P (blocks_of base C) (Running (rest_of C st) m)
      (Running (rest_of C st') (with_register (next_value st) x m1))"
    using step_execute [OF assms(4)] assms(3) by (intro reaches_step) simp
  then show "goes P base C u st m st' (with_register (next_value st) x m1)"
    using assms(5-7) by (simp add: goes_def st' emit_instr_def)
  show "has st' (with_register (next_value st) x m1) v x" "getType v = t"
    by (simp_all add: has_def v st')
qed

text \<open>A request that only computes.\<close>

lemma compute_runs:
  assumes "request t i st = Inr (v, st')" "within C st'" "is_request i" "execute P i m = Some (x, m)"
  shows "\<exists>m'. goes P base C [] st m st' m' \<and> memory m' = memory m \<and> has st' m' v x \<and> getType v = t"
  using request_runs [OF assms, of "[]"] by (intro exI [of _ "with_register (next_value st) x m"]) simp

lemma arith_runs:
  assumes "has st m l x" "has st m r y" "arith name x y = Some z"
    and "request t (Arith name l r) st = Inr (v, st')" "within C st'"
  shows "\<exists>m'. goes P base C [] st m st' m' \<and> memory m' = memory m \<and> has st' m' v z \<and> getType v = t"
  by (rule compute_runs [OF assms(4,5)]) (use assms(1-3) in \<open>simp_all add: has_def\<close>)

lemma cast_runs:
  assumes "has st m l x" "cast name x = Some z" "request t (Cast name l) st = Inr (v, st')" "within C st'"
  shows "\<exists>m'. goes P base C [] st m st' m' \<and> memory m' = memory m \<and> has st' m' v z \<and> getType v = t"
  by (rule compute_runs [OF assms(3,4)]) (use assms(1,2) in \<open>simp_all add: has_def\<close>)

lemma alloca_runs:
  assumes "CreateAlloca t n st = Inr (v, st')" "within C st'"
  shows "\<exists>m'. goes P base C [] st m st' m' \<and> memory m' = memory m @ replicate n None \<and>
    has st' m' v (Address (length (memory m))) \<and> getType v = PointerTy t"
  using request_runs [OF assms(1) [unfolded CreateAlloca_def] assms(2),
      of P m "Address (length (memory m))" "m\<lparr>memory := memory m @ replicate n None\<rparr>" "[]"]
  by (intro exI [of _ "with_register (next_value st) (Address (length (memory m)))
      (m\<lparr>memory := memory m @ replicate n None\<rparr>)"]) simp

lemma load_runs:
  assumes "has st m p (Address a)" "read_cell (memory m) a = Some x" "CreateLoad p st = Inr (v, st')" "within C st'"
  shows "\<exists>m'. goes P base C [] st m st' m' \<and> memory m' = memory m \<and> has st' m' v x \<and> PointerTy (getType v) = getType p"
proof -
  from assms(3) obtain t where t: "getType p = PointerTy t" "request t (Load p) st = Inr (v, st')"
    by (auto simp: CreateLoad_def split: ltype.splits)
  show ?thesis
    using compute_runs [OF t(2) assms(4), of P m x] assms(1,2) t(1) by (auto simp: has_def)
qed

text \<open>A call; the memory may have grown or changed in cells from \<open>k\<close> on.\<close>

lemma call_runs:
  assumes "runtime_call name as st = Inr (v, st')" "within C st'"
    and "list_all2 (has st m) as xs" "call_runtime P name xs (memory m) = Some (x, mem, u)"
  shows "reaches P (blocks_of base C) (Running (rest_of C st) m)
      (Running (rest_of C st') (with_register (next_value st) x (m\<lparr>memory := mem, printed_text := printed_text m @ u\<rparr>)))"
    "has st' (with_register (next_value st) x (m\<lparr>memory := mem, printed_text := printed_text m @ u\<rparr>)) v x"
    "next_value st' = Suc (next_value st)"
proof -
  from assms(1) obtain t where req: "request t (Call name as) st = Inr (v, st')"
    by (auto simp: runtime_call_def findFunction_def CreateCall_def bindE_eq_Inr split: option.splits if_splits)
  from req have v: "v = Request (next_value st) t"
    and st': "st' = (emit_instr (Call name as) st)\<lparr>next_value := Suc (next_value st)\<rparr>" by (auto simp: request_def)
  have "map (value_of m) as = map Some xs"
    using assms(3) by (induction rule: list_all2_induct) (auto simp: has_def)
  moreover have "those (map Some xs) = Some xs" by (induction xs) auto
  ultimately have ex: "execute P (Call name as) m = Some (x, m\<lparr>memory := mem, printed_text := printed_text m @ u\<rparr>)"
    using assms(4) by simp
  have "rest_of C st = (next_value st, Call name as) # rest_of C st'"
    by (rule rest_of_next [OF assms(2)]) (simp_all add: st' emit_instr_def)
  with step_execute [OF ex] show "reaches P (blocks_of base C) (Running (rest_of C st) m)
      (Running (rest_of C st') (with_register (next_value st) x (m\<lparr>memory := mem, printed_text := printed_text m @ u\<rparr>)))"
    by (intro reaches_step) simp
  show "has st' (with_register (next_value st) x (m\<lparr>memory := mem, printed_text := printed_text m @ u\<rparr>)) v x"
    "next_value st' = Suc (next_value st)"
    by (simp_all add: has_def v st')
qed

lemma call_goes:
  assumes "runtime_call name as st = Inr (v, st')" "within C st'"
    and "list_all2 (has st m) as xs" "call_runtime P name xs (memory m) = Some (x, mem, u)"
    and "prefix (memory m) mem"
  shows "\<exists>m'. goes P base C u st m st' m' \<and> memory m' = mem \<and> has st' m' v x"
  using call_runs [OF assms(1-4)] assms(5)
  by (intro exI [of _ "with_register (next_value st) x (m\<lparr>memory := mem, printed_text := printed_text m @ u\<rparr>)"])
    (simp add: goes_def)

text \<open>Runs that also change cells from \<open>k\<close> on.\<close>

definition moves ::
    "'v php_values \<Rightarrow> nat \<Rightarrow> (nat \<times> instr) list \<Rightarrow> nat \<Rightarrow> string \<Rightarrow> 'b llvm_state \<Rightarrow> 'v machine \<Rightarrow> 'b llvm_state \<Rightarrow> 'v machine \<Rightarrow> bool" where
  "moves P base C k t st m st' m' \<longleftrightarrow>
     reaches P (blocks_of base C) (Running (rest_of C st) m) (Running (rest_of C st') m') \<and>
     printed_text m' = printed_text m @ t \<and>
     (\<forall>r < next_value st. registers m' r = registers m r) \<and>
     take k (memory m') = take k (memory m) \<and> k \<le> length (memory m') \<and>
     next_value st \<le> next_value st'"

lemma goes_moves: "goes P base C t st m st' m' \<Longrightarrow> k \<le> length (memory m) \<Longrightarrow> moves P base C k t st m st' m'"
  by (auto simp: goes_def moves_def prefix_def)

lemma moves_goes: "moves P base C (length (memory m)) t st m st' m' \<Longrightarrow> goes P base C t st m st' m'"
  unfolding goes_def moves_def prefix_def by (metis append_take_drop_id take_all_iff order_refl)

lemma moves_join:
  "moves P base C k t st m st1 m1 \<Longrightarrow> moves P base C k u st1 m1 st2 m2 \<Longrightarrow> moves P base C k (t @ u) st m st2 m2"
  by (auto simp: moves_def intro: reaches_trans)

lemma moves_silent:
  "moves P base C k [] st m st1 m1 \<Longrightarrow> moves P base C k u st1 m1 st2 m2 \<Longrightarrow> moves P base C k u st m st2 m2"
  using moves_join [of P base C k "[]" st m st1 m1 u st2 m2] by simp

lemma moves_returns: "moves P base C k t st m st1 m1 \<Longrightarrow> returns P base C u st1 m1 \<Longrightarrow> returns P base C (t @ u) st m"
  by (auto simp: moves_def returns_def intro: reaches_trans)

lemma has_moves: "moves P base C k t st m st' m' \<Longrightarrow> has st m v x \<Longrightarrow> has st' m' v x"
  by (cases v) (auto simp: moves_def has_def)

lemma read_cell_take: "take k mem' = take k mem \<Longrightarrow> k \<le> length mem' \<Longrightarrow> a < k \<Longrightarrow> read_cell mem a = Some x \<Longrightarrow> read_cell mem' a = Some x"
  by (auto simp: read_cell_def split: if_splits) (metis nth_take)

lemma call_moves:
  assumes "runtime_call name as st = Inr (v, st')" "within C st'"
    and "list_all2 (has st m) as xs" "call_runtime P name xs (memory m) = Some (x, mem, u)"
    and "take k mem = take k (memory m)" "k \<le> length mem"
  shows "\<exists>m'. moves P base C k u st m st' m' \<and> memory m' = mem \<and> has st' m' v x"
  using call_runs [OF assms(1-4)] assms(5,6)
  by (intro exI [of _ "with_register (next_value st) x (m\<lparr>memory := mem, printed_text := printed_text m @ u\<rparr>)"])
    (simp add: moves_def)

end
