(* ===== verification/Binding_Runs.thy ===== *)
theory Binding_Runs
  imports Code_Runs
begin

text \<open>
  What the code that the PHP bindings generate does when it runs: it computes what the run-time library
  of the meaning computes, and returns where an operator fails.
\<close>

section \<open>Wrapping and releasing\<close>

lemma has_type_variant: "has_type x zval_ptr \<longleftrightarrow> (\<exists>z. x = Zval z)"
  by (cases x) auto

lemma has_typed_D: "has_typed st m v x \<Longrightarrow> has st m v x" "has_typed st m v x \<Longrightarrow> has_type x (getType v)"
  by (simp_all add: has_typed_def)

lemma write_fresh_cell [simp]: "write_cell (length mem) x (mem @ [None]) = Some (mem @ [Some x])"
  by (simp add: write_cell_def)

lemma read_fresh_cell [simp]: "read_cell (mem @ [x]) (length mem) = x"
  by (simp add: read_cell_def)

lemma wrapping_call:
  assumes "has_type x t" "t \<noteq> zval_ptr" "wrappingFunction t = Inr f"
  shows "\<exists>z. as_zval P x = Some z \<and>
    call_runtime P f [Address (length mem), x] (mem @ [None]) = Some (Nothing, mem @ [Some (Zval z)], [])"
  using assms
  by (cases x) (auto simp: call_runtime_def call_with_two_def wrappingFunction_def split: if_splits)

lemma wrap_runs:
  assumes "wrapAsVariant v st = Inr (w, st')" "within C st'" "has_typed st m v x"
  shows "\<exists>m' z. as_zval P x = Some z \<and> goes P base C [] st m st' m' \<and> points_to st' m' w z \<and> getType w = zval_ptr"
proof (cases "getType v = zval_ptr")
  case True
  with assms(1) have "w = v" "st' = st" by (simp_all add: wrapAsVariant_def php_isVariantType_def)
  moreover from assms(3) True obtain z where "x = Zval z" by (auto simp: has_typed_def has_type_variant)
  ultimately show ?thesis
    using assms(3) True has_typed_variant
    by (intro exI [of _ m] exI [of _ z]) (auto simp: goes_same)
next
  case False
  then obtain f u st1 st2 where f: "wrappingFunction (getType v) = Inr f"
    and alloca: "CreateAlloca zval 1 st = Inr (w, st1)" and call: "runtime_call f [w, v] st1 = Inr (u, st2)"
    and st': "st' = set_refcount w (- 1) st2"
    using assms(1) by (auto simp: wrapAsVariant_def php_isVariantType_def bindE_eq_Inr)
  have within: "within C st2" "within C st1"
    using assms(2) within_adds [OF addedD [OF added_call call]] by (simp_all add: st' within_def set_refcount_def)
  obtain m1 where m1: "goes P base C [] st m st1 m1" "memory m1 = memory m @ [None]"
    "has st1 m1 w (Address (length (memory m)))" "getType w = zval_ptr"
    using alloca_runs [OF alloca within(2), of P base m] by auto
  obtain z where z: "as_zval P x = Some z"
    "call_runtime P f [Address (length (memory m)), x] (memory m1) = Some (Nothing, memory m @ [Some (Zval z)], [])"
    using wrapping_call [OF has_typed_D(2) [OF assms(3)] False f, of P "memory m"] m1(2) by auto
  obtain m2 where m2: "moves P base C (length (memory m)) [] st1 m1 st2 m2" "memory m2 = memory m @ [Some (Zval z)]"
    using call_moves [OF call within(1) _ z(2), of "length (memory m)" base] m1 has_goes [OF m1(1) has_typed_D(1) [OF assms(3)]]
    by auto
  have "goes P base C [] st m st2 m2"
    by (rule moves_goes [OF moves_silent [OF goes_moves [OF m1(1)] m2(1)]]) simp
  then have "goes P base C [] st m st' m2"
    unfolding st' by (rule goes_silent) simp
  moreover have "has st' m2 w (Address (length (memory m)))"
    using has_moves [OF m2(1) m1(3)] by (simp add: st' has_def set_refcount_def)
  then have "points_to st' m2 w z" by (auto simp: points_to_def m2(2))
  ultimately show ?thesis using z(1) m1(4) by blast
qed

lemma scope_runs:
  assumes "php_variableGoesOutOfScope v st = Inr st'" "within C st'" "points_to st m v z"
  shows "\<exists>m'. goes P base C [] st m st' m' \<and> memory m' = memory m"
proof -
  from assms(1) obtain n where n: "m_variablesRefCount (bindings_state st) v = Some n"
    by (auto simp: php_variableGoesOutOfScope_def split: option.splits)
  let ?st1 = "set_refcount v (n - 1) st"
  consider "st' = st" | "st' = ?st1" | u where "runtime_call ''destruct_zval'' [v] ?st1 = Inr (u, st')"
    using assms(1) n by (auto simp: php_variableGoesOutOfScope_def Let_def bindE_eq_Inr split: if_splits)
  then show ?thesis
  proof cases
    case 1
    then show ?thesis by (auto intro!: exI [of _ m] goes_same)
  next
    case 2
    then show ?thesis by (auto intro: exI [of _ m])
  next
    case 3
    have "points_to ?st1 m v z" using points_to_goes [OF goes_refcount assms(3)] .
    then obtain x where x: "has ?st1 m v x" "zval_at (memory m) x = Some z" by (auto simp: points_to_def)
    then have "call_runtime P ''destruct_zval'' [x] (memory m) = Some (Nothing, memory m, [])"
      by (simp add: call_runtime_def)
    from call_goes [OF 3 assms(2) _ this, of base] x(1) obtain m' where
      "goes P base C [] ?st1 m st' m'" "memory m' = memory m" by auto
    then show ?thesis using goes_silent [OF goes_refcount] by blast
  qed
qed

section \<open>Tests of calls\<close>

lemma test_runs:
  assumes "good base st" "within C (createRetVoidIfCallFails c st)" "has st m c (Bit b)"
  shows "if b then goes P base C [] st m (createRetVoidIfCallFails c st) m else returns P base C [] st m"
proof -
  let ?n = "next_block st" and ?F = "blocks_of base C" and ?st' = "createRetVoidIfCallFails c st"
  let ?st2 = "st\<lparr>code := code st @ [(insert_point st, CondBr c ?n (Suc ?n))], next_block := Suc (Suc ?n),
    insert_point := Suc ?n\<rparr>"
  have st': "code ?st' = code st @ [(insert_point st, CondBr c ?n (Suc ?n)), (Suc ?n, RetVoid)]"
    "insert_point ?st' = ?n" "next_value ?st' = next_value st" "next_block ?st' = Suc (Suc ?n)"
    by (simp_all add: createRetVoidIfCallFails_def Let_def new_block_in_function_def new_block_def push_block_def
        CreateCondBr_def CreateRetVoid_def SetInsertPoint_def emit_instr_def)
  from assms(1) have fresh: "?n \<notin> fst ` set (code st)" "Suc ?n \<notin> fst ` set (code st)" "insert_point st < ?n"
    by (auto simp: good_def)
  have g: "good base ?st'" "good base ?st2"
    using assms(1) by (auto simp: good_def st')
  have w2: "within C ?st2" using assms(2) by (auto simp: within_def st' prefix_def)
  have "rest_of C st = (next_value st, CondBr c ?n (Suc ?n)) #
      items_of (insert_point st) (numbered (next_value st) (drop (length (code ?st2)) C))"
    using rest_of_emit [OF w2, of st "CondBr c ?n (Suc ?n)"] by simp
  then have branch: "reaches P ?F (Running (rest_of C st) m) (Running (if b then ?F ?n else ?F (Suc ?n)) m)"
    using assms(3) by (intro reaches_step) (auto simp: has_def)
  show ?thesis
  proof (cases b)
    case True
    have "?F ?n = rest_of C ?st'"
      using block_begins [OF g(1) assms(2)] fresh by (simp add: st')
    with branch True show ?thesis by (simp add: goes_def st')
  next
    case False
    have "?F (Suc ?n) = rest_of C ?st2"
      using block_begins [OF g(2) w2] fresh by simp
    also have "\<dots> = (next_value st, RetVoid) # items_of (Suc ?n) (numbered (next_value st) (drop (length (code ?st')) C))"
      using rest_of_emit [OF assms(2), of ?st2 RetVoid] by (simp add: st')
    finally have "reaches P ?F (Running (?F (Suc ?n)) m) (Returned (printed_text m))"
      by (intro reaches_step) simp
    with branch False show ?thesis by (auto simp: returns_def intro: reaches_trans)
  qed
qed

text \<open>An expression whose code computes \<open>r\<close>: it goes on with the value, or the function returns.\<close>

definition computes ::
    "'v php_values \<Rightarrow> nat \<Rightarrow> (nat \<times> instr) list \<Rightarrow> 'b llvm_state \<Rightarrow> 'v machine \<Rightarrow> 'b llvm_state \<Rightarrow> lvalue \<Rightarrow> 'v operand option \<Rightarrow> bool" where
  "computes P base C st m st' v r \<longleftrightarrow>
     (case r of
        None \<Rightarrow> returns P base C [] st m
      | Some x \<Rightarrow> \<exists>m'. goes P base C [] st m st' m' \<and> has_typed st' m' v x)"

lemma computes_after: "goes P base C [] st m st1 m1 \<Longrightarrow> computes P base C st1 m1 st' v r \<Longrightarrow> computes P base C st m st' v r"
  by (auto simp: computes_def intro: goes_silent silent_returns split: option.splits)

section \<open>Operators on PHP values\<close>

text \<open>
  The common part: a cell for the result, the call, the test, the loading of the result.
\<close>

lemma operator_runs:
  assumes alloca: "CreateAlloca t 1 st = Inr (p, st1)"
    and call: "runtime_call name (Constant_int w opcode # p # vs) st1 = Inr (c, st2)"
    and load: "CreateLoad p (createRetVoidIfCallFails c st2) = Inr (v, st3)"
    and "within C st3" "good base st" "w \<noteq> 64" "w \<noteq> 1"
    and operands: "list_all2 (has st m) vs xs"
    and result: "\<And>mem. prefix (memory m) mem \<Longrightarrow>
      call_runtime P name (Code opcode # Address (length (memory m)) # xs) mem = stores (length (memory m)) r mem"
  shows "case r of None \<Rightarrow> returns P base C [] st m
    | Some x \<Rightarrow> \<exists>m'. goes P base C [] st m st3 m' \<and> has st3 m' v x \<and> getType v = t"
proof -
  let ?test = "createRetVoidIfCallFails c st2"
  note adds = addedD [OF added_operations(8) alloca] addedD [OF added_call call] adds_test [of st2 c]
  have w: "within C ?test" using within_adds [OF addedD [OF added_operations(9) load] \<open>within C st3\<close>] .
  then have w2: "within C st2" by (rule within_adds [OF adds(3)])
  then have w1: "within C st1" by (rule within_adds [OF adds(2)])
  have g2: "good base st2" using good_added [OF adds(2) good_added [OF adds(1) assms(5) assms(5)]] good_added [OF adds(1) assms(5) assms(5)] by blast
  obtain m1 where m1: "goes P base C [] st m st1 m1" "memory m1 = memory m @ [None]"
    "has st1 m1 p (Address (length (memory m)))" "getType p = PointerTy t"
    using alloca_runs [OF alloca w1, of P base m] by auto
  have "list_all2 (has st1 m1) vs xs"
    using operands by (rule list_all2_mono) (rule has_goes [OF m1(1)])
  then have args: "list_all2 (has st1 m1) (Constant_int w opcode # p # vs) (Code opcode # Address (length (memory m)) # xs)"
    using m1(3) assms(6,7) by (simp add: has_def)
  have res: "call_runtime P name (Code opcode # Address (length (memory m)) # xs) (memory m1) =
      Some (Bit (r \<noteq> None), memory m @ [r], [])"
    using result [of "memory m1"] m1(2) by (cases r) (simp_all add: stores_def)
  obtain m2 where m2: "moves P base C (length (memory m)) [] st1 m1 st2 m2" "memory m2 = memory m @ [r]"
    "has st2 m2 c (Bit (r \<noteq> None))"
    using call_moves [OF call w2 args res, of "length (memory m)" base] m1(2) by auto
  have go: "goes P base C [] st m st2 m2"
    by (rule moves_goes [OF moves_silent [OF goes_moves [OF m1(1)] m2(1)]]) simp
  note test = test_runs [OF g2 w m2(3), of P]
  show ?thesis
  proof (cases r)
    case None
    with test silent_returns [OF go] show ?thesis by simp
  next
    case (Some x)
    with test have t: "goes P base C [] st2 m2 ?test m2" by simp
    have "has ?test m2 p (Address (length (memory m)))"
      by (rule has_goes [OF t has_moves [OF m2(1) m1(3)]])
    from load_runs [OF this _ load assms(4), of x P base] Some m2(2) obtain m3 where
      "goes P base C [] ?test m2 st3 m3" "has st3 m3 v x" "PointerTy (getType v) = getType p" by auto
    with goes_silent [OF go goes_silent [OF t]] Some m1(4) show ?thesis by auto
  qed
qed

text \<open>Wrapping both operands.\<close>

lemma points_to_value:
  assumes "points_to st m v z"
  obtains x where "has st m v x" "zval_at (memory m) x = Some z"
    "\<And>mem. prefix (memory m) mem \<Longrightarrow> zval_at mem x = Some z"
  using assms zval_at_prefix unfolding points_to_def by metis

lemma wrap_both_runs:
  assumes left: "wrapAsVariant l st = Inr (left, st1)" and right: "wrapAsVariant r st1 = Inr (right, st2)"
    and w2: "within C st2" and x: "has_typed st m l x" and y: "has_typed st m r y"
  shows "\<exists>m2 z1 z2. as_zval P x = Some z1 \<and> as_zval P y = Some z2 \<and> goes P base C [] st m st2 m2 \<and>
    points_to st2 m2 left z1 \<and> points_to st2 m2 right z2"
proof -
  have w1: "within C st1" by (rule within_adds [OF addedD [OF wrap_added right] w2])
  obtain m1 z1 where 1: "as_zval P x = Some z1" "goes P base C [] st m st1 m1" "points_to st1 m1 left z1"
    using wrap_runs [OF left w1 x, of P base] by blast
  obtain m2 z2 where 2: "as_zval P y = Some z2" "goes P base C [] st1 m1 st2 m2" "points_to st2 m2 right z2"
    using wrap_runs [OF right w2 has_typed_goes [OF 1(2) y], of P base] by blast
  from 1 2 goes_silent [OF 1(2) 2(2)] points_to_goes [OF 2(2) 1(3)] show ?thesis by blast
qed

lemma release_both_runs:
  assumes out: "php_variableGoesOutOfScope left st = Inr st1" "php_variableGoesOutOfScope right st1 = Inr st2"
    and w2: "within C st2" and "points_to st m left z1" "points_to st m right z2"
  shows "\<exists>m'. goes P base C [] st m st2 m'"
proof -
  have w1: "within C st1" by (rule within_adds [OF added_stepD [OF scope_added out(2)] w2])
  obtain m1 where 1: "goes P base C [] st m st1 m1"
    using scope_runs [OF out(1) w1 assms(4), of P base] by blast
  obtain m2 where "goes P base C [] st1 m1 st2 m2"
    using scope_runs [OF out(2) w2 points_to_goes [OF 1 assms(5)], of P base] by blast
  with goes_silent [OF 1] show ?thesis by blast
qed

lemma wrap_both_adds:
  assumes "wrapAsVariant l st = Inr (left, st1)" "wrapAsVariant r st1 = Inr (right, st2)" "good base st"
  shows "good base st2"
  using good_added [OF addedD [OF wrap_added assms(1)] assms(3,3)] good_added [OF addedD [OF wrap_added assms(2)]] by blast

lemma release_both_within:
  assumes "php_variableGoesOutOfScope left st = Inr st1" "php_variableGoesOutOfScope right st1 = Inr st2" "within C st2"
  shows "within C st"
  by (rule within_adds [OF added_stepD [OF scope_added assms(1)]
      within_adds [OF added_stepD [OF scope_added assms(2)] assms(3)]])

lemma operator_within:
  assumes "CreateAlloca t 1 st = Inr (p, st1)" "runtime_call name as st1 = Inr (c, st2)"
    "CreateLoad p (createRetVoidIfCallFails c st2) = Inr (v, st3)" "within C st3"
  shows "within C st"
  by (rule within_adds [OF addedD [OF added_operations(8) assms(1)]
      within_adds [OF addedD [OF added_call assms(2)]
        within_adds [OF adds_test within_adds [OF addedD [OF added_operations(9) assms(3)] assms(4)]]]])

lemma comparison_runs:
  assumes run: "php_createVariantComparison op l r st = Inr (v, st')" and w: "within C st'" and g: "good base st"
    and x: "has_typed st m l x" and y: "has_typed st m r y"
    and z: "is_variant_operand x \<or> is_variant_operand y"
  shows "computes P base C st m st' v (comparison_value (php_runtime P) op x y)"
proof -
  obtain left st1 right st2 p st3 c st4 loaded st5 st6 st7 where
    wrap: "wrapAsVariant l st = Inr (left, st1)" "wrapAsVariant r st1 = Inr (right, st2)" and
    op: "CreateAlloca (IntTy 8) 1 st2 = Inr (p, st3)"
      "runtime_call ''compare_variant'' [Constant_int 16 (comparison_code op), p, left, right] st3 = Inr (c, st4)"
      "CreateLoad p (createRetVoidIfCallFails c st4) = Inr (loaded, st5)" and
    trunc: "CreateTrunc loaded 1 st5 = Inr (v, st6)" and
    out: "php_variableGoesOutOfScope left st6 = Inr st7" "php_variableGoesOutOfScope right st7 = Inr st'"
    using run by (auto simp: php_createVariantComparison_def bindE_eq_Inr)
  have w6: "within C st6" by (rule release_both_within [OF out w])
  have w5: "within C st5" by (rule within_adds [OF addedD [OF added_operations(11) trunc] w6])
  have w2: "within C st2" by (rule operator_within [OF op w5])
  obtain m2 z1 z2 where vals: "as_zval P x = Some z1" "as_zval P y = Some z2" and go: "goes P base C [] st m st2 m2"
    and pts: "points_to st2 m2 left z1" "points_to st2 m2 right z2"
    using wrap_both_runs [OF wrap w2 x y, of P base] by blast
  obtain x1 where x1: "has st2 m2 left x1" "\<And>mem. prefix (memory m2) mem \<Longrightarrow> zval_at mem x1 = Some z1"
    using points_to_value [OF pts(1)] by metis
  obtain x2 where x2: "has st2 m2 right x2" "\<And>mem. prefix (memory m2) mem \<Longrightarrow> zval_at mem x2 = Some z2"
    using points_to_value [OF pts(2)] by metis
  let ?r = "map_option Bit (zval_compare P (comparison_code op) z1 z2)"
  have res: "case ?r of None \<Rightarrow> returns P base C [] st2 m2
      | Some b \<Rightarrow> \<exists>m'. goes P base C [] st2 m2 st5 m' \<and> has st5 m' loaded b \<and> getType loaded = IntTy 8"
    by (rule operator_runs [OF op w5 wrap_both_adds [OF wrap g]])
      (use x1 x2 in \<open>auto simp: call_runtime_def call_with_four_def operator_call_def\<close>)
  have "computes P base C st2 m2 st' v ?r"
  proof (cases "zval_compare P (comparison_code op) z1 z2")
    case None
    with res show ?thesis by (simp add: computes_def)
  next
    case (Some b)
    with res obtain m3 where 3: "goes P base C [] st2 m2 st5 m3" "has st5 m3 loaded (Bit b)" by auto
    have "request (IntTy 1) (Cast ''Trunc'' loaded) st5 = Inr (v, st6)"
      using trunc by (auto simp: CreateTrunc_def split: if_splits)
    from cast_runs [OF 3(2) _ this w6, of "Bit b" P base] obtain m4 where
      4: "goes P base C [] st5 m3 st6 m4" "has st6 m4 v (Bit b)" "getType v = IntTy 1" by (auto simp: cast_def)
    note 24 = goes_silent [OF 3(1) 4(1)]
    obtain m6 where 6: "goes P base C [] st6 m4 st' m6"
      using release_both_runs [OF out w points_to_goes [OF 24 pts(1)] points_to_goes [OF 24 pts(2)], of P base] by blast
    have "has_typed st' m6 v (Bit b)"
      using has_goes [OF 6 4(2)] 4(3) by (simp add: has_typed_def)
    with goes_silent [OF 24 6] Some show ?thesis by (auto simp: computes_def)
  qed
  moreover have "comparison_value (php_runtime P) op x y = ?r"
    using z vals by (simp add: php_runtime_def combine_def)
  ultimately show ?thesis using computes_after [OF go] by simp
qed

lemma binary_runs:
  assumes run: "php_createVariantBinaryOperation op l r st = Inr (v, st')" and w: "within C st'" and g: "good base st"
    and x: "has_typed st m l x" and y: "has_typed st m r y"
    and z: "is_variant_operand x \<or> is_variant_operand y"
  shows "computes P base C st m st' v (binary_value (php_runtime P) op x y)"
proof -
  obtain left st1 right st2 p st3 c st4 st5 st7 where
    wrap: "wrapAsVariant l st = Inr (left, st1)" "wrapAsVariant r st1 = Inr (right, st2)" and
    op: "CreateAlloca zval_ptr 1 st2 = Inr (p, st3)"
      "runtime_call ''binary_variant_operation'' [Constant_int 8 (binary_code op), p, left, right] st3 = Inr (c, st4)"
      "CreateLoad p (createRetVoidIfCallFails c st4) = Inr (v, st5)" and
    out: "php_variableGoesOutOfScope left (set_refcount v 1 st5) = Inr st7" "php_variableGoesOutOfScope right st7 = Inr st'"
    using run by (auto simp: php_createVariantBinaryOperation_def bindE_eq_Inr)
  have w5: "within C st5"
    using release_both_within [OF out w] by (simp add: within_def set_refcount_def)
  have w2: "within C st2" by (rule operator_within [OF op w5])
  obtain m2 z1 z2 where vals: "as_zval P x = Some z1" "as_zval P y = Some z2" and go: "goes P base C [] st m st2 m2"
    and pts: "points_to st2 m2 left z1" "points_to st2 m2 right z2"
    using wrap_both_runs [OF wrap w2 x y, of P base] by blast
  obtain x1 where x1: "has st2 m2 left x1" "\<And>mem. prefix (memory m2) mem \<Longrightarrow> zval_at mem x1 = Some z1"
    using points_to_value [OF pts(1)] by metis
  obtain x2 where x2: "has st2 m2 right x2" "\<And>mem. prefix (memory m2) mem \<Longrightarrow> zval_at mem x2 = Some z2"
    using points_to_value [OF pts(2)] by metis
  let ?r = "map_option Zval (zval_binary P (binary_code op) z1 z2)"
  have res: "case ?r of None \<Rightarrow> returns P base C [] st2 m2
      | Some b \<Rightarrow> \<exists>m'. goes P base C [] st2 m2 st5 m' \<and> has st5 m' v b \<and> getType v = zval_ptr"
    by (rule operator_runs [OF op w5 wrap_both_adds [OF wrap g]])
      (use x1 x2 in \<open>auto simp: call_runtime_def call_with_four_def operator_call_def\<close>)
  have "computes P base C st2 m2 st' v ?r"
  proof (cases "zval_binary P (binary_code op) z1 z2")
    case None
    with res show ?thesis by (simp add: computes_def)
  next
    case (Some b)
    with res obtain m3 where 3: "goes P base C [] st2 m2 st5 m3" "has st5 m3 v (Zval b)" "getType v = zval_ptr" by auto
    note 24 = goes_silent [OF 3(1) goes_refcount [of P base C st5 m3 v 1]]
    obtain m6 where 6: "goes P base C [] (set_refcount v 1 st5) m3 st' m6"
      using release_both_runs [OF out w points_to_goes [OF 24 pts(1)] points_to_goes [OF 24 pts(2)], of P base] by blast
    have "has_typed st' m6 v (Zval b)"
      using has_goes [OF 6 has_goes [OF goes_refcount 3(2)]] 3(3) by (simp add: has_typed_def)
    with goes_silent [OF 24 6] Some show ?thesis by (auto simp: computes_def)
  qed
  moreover have "binary_value (php_runtime P) op x y = ?r"
    using z vals by (simp add: php_runtime_def combine_def)
  ultimately show ?thesis using computes_after [OF go] by simp
qed

lemma unary_runs:
  assumes run: "php_createVariantUnaryOperation op e st = Inr (v, st')" and w: "within C st'" and g: "good base st"
    and x: "has_typed st m e (Zval z)"
  shows "computes P base C st m st' v (unary_value (php_runtime P) op (Zval z))"
proof -
  obtain e' st1 p st3 c st4 st5 where
    wrap: "wrapAsVariant e st = Inr (e', st1)" and
    op: "CreateAlloca zval_ptr 1 st1 = Inr (p, st3)"
      "runtime_call ''unary_variant_operation'' [Constant_int 8 (code_of_char (unary_char op)), p, e'] st3 = Inr (c, st4)"
      "CreateLoad p (createRetVoidIfCallFails c st4) = Inr (v, st5)" and
    out: "php_variableGoesOutOfScope e' (set_refcount v 1 st5) = Inr st'"
    using run by (auto simp: php_createVariantUnaryOperation_def bindE_eq_Inr)
  have w5: "within C st5"
    using within_adds [OF added_stepD [OF scope_added out] w] by (simp add: within_def set_refcount_def)
  have w1: "within C st1" by (rule operator_within [OF op w5])
  obtain m2 where go: "goes P base C [] st m st1 m2" and pts: "points_to st1 m2 e' z"
    using wrap_runs [OF wrap w1 x, of P base] by auto
  obtain x1 where x1: "has st1 m2 e' x1" "\<And>mem. prefix (memory m2) mem \<Longrightarrow> zval_at mem x1 = Some z"
    using points_to_value [OF pts] by metis
  let ?r = "map_option Zval (zval_unary P (code_of_char (unary_char op)) z)"
  have res: "case ?r of None \<Rightarrow> returns P base C [] st1 m2
      | Some b \<Rightarrow> \<exists>m'. goes P base C [] st1 m2 st5 m' \<and> has st5 m' v b \<and> getType v = zval_ptr"
    by (rule operator_runs [OF op w5 good_added [OF addedD [OF wrap_added wrap] g g]])
      (use x1 in \<open>auto simp: call_runtime_def call_with_three_def operator_call_def\<close>)
  have "computes P base C st1 m2 st' v ?r"
  proof (cases "zval_unary P (code_of_char (unary_char op)) z")
    case None
    with res show ?thesis by (simp add: computes_def)
  next
    case (Some b)
    with res obtain m3 where 3: "goes P base C [] st1 m2 st5 m3" "has st5 m3 v (Zval b)" "getType v = zval_ptr" by auto
    note 24 = goes_silent [OF 3(1) goes_refcount [of P base C st5 m3 v 1]]
    obtain m6 where 6: "goes P base C [] (set_refcount v 1 st5) m3 st' m6"
      using scope_runs [OF out w points_to_goes [OF 24 pts], of P base] by blast
    have "has_typed st' m6 v (Zval b)"
      using has_goes [OF 6 has_goes [OF goes_refcount 3(2)]] 3(3) by (simp add: has_typed_def)
    with goes_silent [OF 24 6] Some show ?thesis by (auto simp: computes_def)
  qed
  moreover have "unary_value (php_runtime P) op (Zval z) = ?r"
    by (simp add: php_runtime_def)
  ultimately show ?thesis using computes_after [OF go] by simp
qed

end
