(* ===== verification/Operator_Runs.thy ===== *)
theory Operator_Runs
  imports Binding_Runs
begin

text \<open>
  What the code of the other operations does when it runs: variables, attributes, method calls, printing,
  and the operators on native integers, booleans and doubles.
\<close>

lemma within_refcount [simp]: "within C (set_refcount v n st) = within C st"
  by (simp add: within_def set_refcount_def)

lemma good_refcount [simp]: "good base (set_refcount v n st) = good base st"
  by (simp add: good_def set_refcount_def)

section \<open>Variables and attributes\<close>

lemma reference_runs:
  assumes "php_getNewReferenceForVariable v st = Inr (w, st')"
  shows "w = v" "goes P base C [] st m st' m"
  using assms by (auto simp: php_getNewReferenceForVariable_def goes_same split: option.splits)

lemma lookup_runs:
  assumes "php_createVariableLookup x st = Inr (v, st')" "within C st'"
  shows "computes P base C st m st' v (Some (Zval (assigned P x)))"
proof -
  from assms(1) obtain st1 where
    call: "runtime_call ''get_value_from_hashtable''
      [Function_argument 0 hashtable_ptr, Global_string x, Constant_int 32 (int (length x))] st = Inr (v, st1)"
    and st': "st' = set_refcount v (- 1) st1" by (auto simp: php_createVariableLookup_def bindE_eq_Inr)
  obtain m1 where 1: "goes P base C [] st m st1 m1" "has st1 m1 v (Zval (assigned P x))"
    using call_goes [OF call, of C m "[Template_argument 0, Text x, Code (int (length x))]" P _ _ "[]" base]
      assms(2) by (auto simp: st' has_def call_runtime_def call_with_three_def)
  note g = goes_silent [OF 1(1) goes_refcount [of P base C st1 m1 v "- 1"]]
  have "has_typed st' m1 v (Zval (assigned P x))"
    using has_goes [OF goes_refcount 1(2)] runtime_results(5) [OF call] by (simp add: has_typed_def st')
  with g show ?thesis by (auto simp: computes_def st')
qed

lemma attribute_runs:
  assumes "php_createGetAttribute a v st = Inr (w, st')" "within C st'" "has_typed st m v x"
  shows "computes P base C st m st' w (attribute_value (php_runtime P) a x)"
proof -
  from assms(1) obtain st1 where
    call: "runtime_call ''get_attribute'' [v, Global_string a, Constant_int 32 (int (length a))] st = Inr (w, st1)"
    and out: "php_variableGoesOutOfScope v (set_refcount w (- 1) st1) = Inr st'"
    by (auto simp: php_createGetAttribute_def bindE_eq_Inr)
  from assms(3) runtime_results(6) [OF call] obtain z where x: "x = Zval z"
    by (auto simp: has_typed_def has_type_variant)
  have w1: "within C st1"
    using within_adds [OF added_stepD [OF scope_added out] assms(2)] by simp
  obtain m1 where 1: "goes P base C [] st m st1 m1" "has st1 m1 w (Zval (zval_attribute P a z))"
    using call_goes [OF call w1, of m "[Zval z, Text a, Code (int (length a))]" P _ _ "[]" base] assms(3)
    by (auto simp: x has_typed_def has_def call_runtime_def call_with_three_def)
  note g = goes_silent [OF 1(1) goes_refcount [of P base C st1 m1 w "- 1"]]
  obtain m2 where 2: "goes P base C [] (set_refcount w (- 1) st1) m1 st' m2"
    using scope_runs [OF out assms(2), of m1 z P base] points_to_goes [OF g has_typed_variant] assms(3) x by blast
  have "has_typed st' m2 w (Zval (zval_attribute P a z))"
    using has_goes [OF 2 has_goes [OF goes_refcount 1(2)]] runtime_results(6) [OF call] by (simp add: has_typed_def)
  with goes_silent [OF g 2] show ?thesis by (auto simp: computes_def php_runtime_def x)
qed

section \<open>Printing\<close>

lemma print_runs:
  assumes "php_createPrintCall v st = Inr (u, st')" "within C st'" "has_typed st m v x"
  shows "\<exists>m'. goes P base C (text_of (php_runtime P) x) st m st' m'"
proof -
  from assms(1) obtain f where f: "getPrintMethodForType (getType v) = Inr f"
    and call: "runtime_call f [v, Function_argument 1 buffer_ptr] st = Inr (u, st')"
    by (auto simp: php_createPrintCall_def bindE_eq_Inr)
  have "call_runtime P f [x, Template_argument 1] (memory m) = Some (Nothing, memory m, text_of (php_runtime P) x)"
    using f has_typed_D(2) [OF assms(3)]
    by (cases x) (auto simp: call_runtime_def call_with_two_def prints_def php_runtime_def
        getPrintMethodForType_def php_isVariantType_def split: if_splits)
  from call_goes [OF call assms(2) _ this, of base] has_typed_D(1) [OF assms(3)] show ?thesis
    by (auto simp: has_def)
qed

section \<open>Native operators\<close>

lemma is_variant_type: "has_typed st m v x \<Longrightarrow> php_isVariantType (getType v) = is_variant_operand x"
  by (cases x) (auto simp: has_typed_def php_isVariantType_def)

lemma is_int_type: "has_typed st m v x \<Longrightarrow> is_int (getType v) = is_int_operand x"
  by (cases x) (auto simp: has_typed_def)

lemma to_double_runs:
  assumes "to_double v st = Inr (w, st')" "within C st'" "has_typed st m v x"
  shows "\<exists>m' d. to_real x = Some d \<and> goes P base C [] st m st' m' \<and> has_typed st' m' w (Real d)"
proof (cases "getType v = DoubleTy")
  case True
  with assms(3) obtain d where "x = Real d" by (cases x) (auto simp: has_typed_def)
  with True assms goes_same [of st st P base C m] show ?thesis by (auto simp: to_double_def)
next
  case False
  with assms(1) have req: "request DoubleTy (Cast ''SIToFP'' v) st = Inr (w, st')" and int: "is_int (getType v)"
    by (auto simp: to_double_def split: if_splits)
  from int assms(3) obtain d where d: "to_real x = Some d" by (cases x) (auto simp: has_typed_def)
  from cast_runs [OF has_typed_D(1) [OF assms(3)] _ req assms(2), of "Real d" P base] d
  show ?thesis by (auto simp: has_typed_def cast_def)
qed

text \<open>A request on two operands that computes the value of the operator.\<close>

lemma native_runs:
  assumes "request t (Arith name l r) st = Inr (v, st')" "within C st'"
    and "has st m l x" "has st m r y" "arith name x y = Some z" "has_type z t"
  shows "computes P base C st m st' v (Some z)"
  using arith_runs [OF assms(3-5,1,2), of P base] assms(6) by (auto simp: computes_def has_typed_def)

lemma double_native_runs:
  assumes left: "to_double l st = Inr (left, st1)" and right: "to_double r st1 = Inr (right, st2)"
    and req: "request t (Arith name left right) st2 = Inr (v, st')" and w: "within C st'" "within C st2" "within C st1"
    and x: "has_typed st m l x" and y: "has_typed st m r y"
    and arith: "\<And>a b. \<exists>z. arith name (Real a :: 'v operand) (Real b) = Some z \<and> f a b = Some z \<and> has_type z t"
  shows "computes P base C st m st' v (Option.bind (to_real x) (\<lambda>a. Option.bind (to_real y) (f a)))"
proof -
  obtain m1 a where 1: "to_real x = Some a" "goes P base C [] st m st1 m1" "has_typed st1 m1 left (Real a)"
    using to_double_runs [OF left w(3) x, of P base] by blast
  obtain m2 b where 2: "to_real y = Some b" "goes P base C [] st1 m1 st2 m2" "has_typed st2 m2 right (Real b)"
    using to_double_runs [OF right w(2) has_typed_goes [OF 1(2) y], of P base] by blast
  obtain z :: "'v operand" where z: "arith name (Real a) (Real b) = Some z" "f a b = Some z" "has_type z t"
    using arith by blast
  have "computes P base C st2 m2 st' v (Some z)"
    by (rule native_runs [OF req w(1) _ _ z(1,3)]) (use has_goes [OF 2(2)] 1(3) 2(3) in \<open>auto simp: has_typed_def\<close>)
  from computes_after [OF goes_silent [OF 1(2) 2(2)] this] show ?thesis by (simp add: 1(1) 2(1) z(2))
qed

text \<open>The instruction of each comparison.\<close>

fun int_comparison_name :: "comparison_op \<Rightarrow> string" where
  "int_comparison_name Equal = ''ICmpEQ''"
| "int_comparison_name NotEqual = ''ICmpNE''"
| "int_comparison_name LessOrEqual = ''ICmpSLE''"
| "int_comparison_name GreaterOrEqual = ''ICmpSGE''"
| "int_comparison_name GreaterThan = ''ICmpSGT''"
| "int_comparison_name LessThan = ''ICmpSLT''"
| "int_comparison_name And = ''And''"
| "int_comparison_name Or = ''Or''"

fun double_comparison_name :: "comparison_op \<Rightarrow> string" where
  "double_comparison_name Equal = ''FCmpOEQ''"
| "double_comparison_name NotEqual = ''FCmpONE''"
| "double_comparison_name LessOrEqual = ''FCmpOLE''"
| "double_comparison_name GreaterOrEqual = ''FCmpOGE''"
| "double_comparison_name GreaterThan = ''FCmpOGT''"
| "double_comparison_name LessThan = ''FCmpOLT''"
| "double_comparison_name And = ''And''"
| "double_comparison_name Or = ''Or''"

lemma int_comparison_requestD:
  assumes "int_comparison_request op l r st = Inr (v, st')"
  shows "getType l = getType r" "is_int (getType l)"
    "request (if op \<in> {And, Or} then getType l else IntTy 1) (Arith (int_comparison_name op) l r) st = Inr (v, st')"
  using assms by (cases op; auto simp: int_comparison_def int_operation_def split: if_splits)+

lemma double_comparison_requestD:
  assumes "double_comparison_request op l r st = Inr (v, st')" "getType l = DoubleTy"
  shows "request (IntTy 1) (Arith (double_comparison_name op) l r) st = Inr (v, st')" "op \<notin> {And, Or}"
  using assms by (cases op; auto simp: double_comparison_def int_operation_def split: if_splits)+

lemma int_operands:
  assumes "has_type x t" "has_type y t" "is_int t"
  obtains (long) a b where "x = Long a" "y = Long b" "t = IntTy 64" | (bit) a b where "x = Bit a" "y = Bit b" "t = IntTy 1"
  using assms by (cases x; cases y) auto

text \<open>The instructions compute the operators.\<close>

lemma int_arith:
  assumes "has_type x t" "has_type y t" "is_int t" "op \<notin> {Division, Modulus}"
  shows "\<exists>z. arith (int_binary_name op) x y = Some z \<and> native_integers op x y = Some z \<and> has_type z t"
  using assms(1-3) by (cases rule: int_operands)
    (use assms(4) in \<open>cases op; auto simp: native_integers_def arith_def long_arith_def bit_arith_def signed_bit_def\<close>)+

lemma int_comparison_arith:
  assumes "has_type x t" "has_type y t" "is_int t"
  shows "\<exists>z. arith (int_comparison_name op) x y = Some z \<and> compared_integers op x y = Some z \<and>
    has_type z (if op \<in> {And, Or} then t else IntTy 1)"
  using assms by (cases rule: int_operands)
    (cases op; auto simp: compared_integers_def arith_def long_arith_def bit_arith_def signed_bit_def)+

lemma double_arith:
  "op \<notin> {Division, Modulus} \<Longrightarrow>
   \<exists>z. arith (double_binary_name op) (Real a) (Real b) = Some z \<and> native_doubles op a b = Some z \<and> has_type z DoubleTy"
  by (cases op) (simp_all add: arith_def double_arith_def)

lemma double_comparison_arith:
  "op \<notin> {And, Or} \<Longrightarrow>
   \<exists>z. arith (double_comparison_name op) (Real a) (Real b) = Some z \<and> compared_doubles op a b = Some z \<and>
     has_type z (IntTy 1)"
  by (cases op) (simp_all add: arith_def double_arith_def)

lemma native_unary_cast:
  assumes "is_int t" "has_type x t"
  shows "native_unary NumericNegative x = cast ''Neg'' x" and "native_unary BooleanNegation x = cast ''Not'' x"
  using assms by (cases x; auto simp: native_unary_def cast_def signed_bit_def)+

text \<open>The operators of the visitor.\<close>

lemma binary_operation_runs:
  assumes run: "llvm_binary_operation php_bindings op l r st = Inr (v, st')" and w: "within C st'" and g: "good base st"
    and x: "has_typed st m l x" and y: "has_typed st m r y"
    and native: "is_variant_operand x \<or> is_variant_operand y \<or> op \<notin> {Division, Modulus}"
  shows "computes P base C st m st' v (binary_value (php_runtime P) op x y)"
proof (cases "is_variant_operand x \<or> is_variant_operand y")
  case True
  with run is_variant_type [OF x] is_variant_type [OF y] binary_runs [OF _ w g x y] show ?thesis
    by (simp add: llvm_binary_operation_def)
next
  case False
  note val = False native
  show ?thesis
  proof (cases "is_int_operand x \<and> is_int_operand y")
    case True
    with run False is_variant_type [OF x] is_variant_type [OF y] is_int_type [OF x] is_int_type [OF y]
    have op: "int_operation (int_binary_name op) l r st = Inr (v, st')" by (simp add: llvm_binary_operation_def)
    then have t: "is_int (getType l)" "getType l = getType r"
      and req: "request (getType l) (Arith (int_binary_name op) l r) st = Inr (v, st')"
      by (auto simp: int_operation_def split: if_splits)
    obtain z where z: "arith (int_binary_name op) x y = Some z" "native_integers op x y = Some z" "has_type z (getType l)"
      using int_arith [of x "getType l" y op] t val has_typed_D(2) [OF x] has_typed_D(2) [OF y] by auto
    from native_runs [OF req w has_typed_D(1) [OF x] has_typed_D(1) [OF y] z(1,3)] z(2) False True show ?thesis
      by (simp add: php_runtime_def combine_def)
  next
    case no_int: False
    with run False is_variant_type [OF x] is_variant_type [OF y] is_int_type [OF x] is_int_type [OF y]
    obtain left st1 right st2 where
      conv: "to_double l st = Inr (left, st1)" "to_double r st1 = Inr (right, st2)"
      and op: "double_operation (double_binary_name op) left right st2 = Inr (v, st')"
      by (auto simp: llvm_binary_operation_def bindE_eq_Inr)
    from op have req: "request DoubleTy (Arith (double_binary_name op) left right) st2 = Inr (v, st')"
      by (auto simp: double_operation_def split: if_splits)
    have w2: "within C st2" by (rule within_adds [OF addedD [OF added_operations(3) op] w])
    have w1: "within C st1" by (rule within_adds [OF addedD [OF added_operations(6) conv(2)] w2])
    have "op \<notin> {Division, Modulus}" using val by simp
    from double_native_runs [OF conv req w w2 w1 x y double_arith [OF this], of P base] False no_int show ?thesis
      by (auto simp: php_runtime_def combine_def)
  qed
qed

lemma comparison_operation_runs:
  assumes run: "llvm_comparison php_bindings op l r st = Inr (v, st')" and w: "within C st'" and g: "good base st"
    and x: "has_typed st m l x" and y: "has_typed st m r y"
  shows "computes P base C st m st' v (comparison_value (php_runtime P) op x y)"
proof (cases "is_variant_operand x \<or> is_variant_operand y")
  case True
  with run is_variant_type [OF x] is_variant_type [OF y] comparison_runs [OF _ w g x y] show ?thesis
    by (simp add: llvm_comparison_def)
next
  case False
  show ?thesis
  proof (cases "is_int_operand x \<and> is_int_operand y")
    case True
    with run False is_variant_type [OF x] is_variant_type [OF y] is_int_type [OF x] is_int_type [OF y]
    have op: "int_comparison_request op l r st = Inr (v, st')" by (simp add: llvm_comparison_def)
    note req = int_comparison_requestD [OF op]
    obtain z where z: "arith (int_comparison_name op) x y = Some z" "compared_integers op x y = Some z"
        "has_type z (if op \<in> {And, Or} then getType l else IntTy 1)"
      using int_comparison_arith [of x "getType l" y op] req(1,2) has_typed_D(2) [OF x] has_typed_D(2) [OF y] by auto
    from native_runs [OF req(3) w has_typed_D(1) [OF x] has_typed_D(1) [OF y] z(1,3)] z(2) False True show ?thesis
      by (simp add: php_runtime_def combine_def)
  next
    case no_int: False
    with run False is_variant_type [OF x] is_variant_type [OF y] is_int_type [OF x] is_int_type [OF y]
    obtain left st1 right st2 where
      conv: "to_double l st = Inr (left, st1)" "to_double r st1 = Inr (right, st2)"
      and op: "double_comparison_request op left right st2 = Inr (v, st')"
      by (auto simp: llvm_comparison_def bindE_eq_Inr)
    from llvm_result_types(6) [OF conv(1)] have "getType left = DoubleTy" by simp
    note req = double_comparison_requestD [OF op this]
    have w2: "within C st2" by (rule within_adds [OF addedD [OF added_comparison_requests(2) op] w])
    have w1: "within C st1" by (rule within_adds [OF addedD [OF added_operations(6) conv(2)] w2])
    from double_native_runs [OF conv req(1) w w2 w1 x y double_comparison_arith [OF req(2)], of P base] False no_int
    show ?thesis by (auto simp: php_runtime_def combine_def)
  qed
qed

lemma unary_operation_runs:
  assumes run: "llvm_unary_operation php_bindings op e st = Inr (v, st')" and w: "within C st'" and g: "good base st"
    and x: "has_typed st m e x"
  shows "computes P base C st m st' v (unary_value (php_runtime P) op x)"
proof (cases "\<exists>z. x = Zval z")
  case True
  then obtain z where "x = Zval z" ..
  with run is_variant_type [OF x] unary_runs [OF _ w g] x show ?thesis
    by (simp add: llvm_unary_operation_def)
next
  case False
  then have "\<not> is_variant_operand x" by (cases x) auto
  with run is_variant_type [OF x] have op: "(case op of NumericPositive \<Rightarrow> Inr (e, st)
      | NumericNegative \<Rightarrow> int_unary ''Neg'' e st | BooleanNegation \<Rightarrow> int_unary ''Not'' e st) = Inr (v, st')"
    by (simp add: llvm_unary_operation_def)
  have cast: "is_int (getType e) \<and> computes P base C st m st' v (cast name x)"
    if unary: "int_unary name e st = Inr (v, st')" and name: "name = ''Neg'' \<or> name = ''Not''" for name
  proof -
    from unary have t: "is_int (getType e)" and req: "request (getType e) (Cast name e) st = Inr (v, st')"
      by (auto simp: int_unary_def split: if_splits)
    obtain z where z: "cast name x = Some z" "has_type z (getType e)"
      using name t has_typed_D(2) [OF x] by (cases x) (auto simp: cast_def)
    from cast_runs [OF has_typed_D(1) [OF x] z(1) req w, of P base] z show ?thesis
      using t by (auto simp: computes_def has_typed_def)
  qed
  have "computes P base C st m st v (Some x)" if "v = e"
    using that x goes_same [of st st P base C m] by (auto simp: computes_def)
  moreover have "unary_value (php_runtime P) op x = native_unary op x"
    using False by (cases x) (simp_all add: php_runtime_def)
  ultimately show ?thesis
    using op cast [of "''Neg''"] cast [of "''Not''"] native_unary_cast [OF _ has_typed_D(2) [OF x]]
    by (cases op) (auto simp: native_unary_def)
qed

end
