(* ===== verification/Expression_Runs.thy ===== *)
theory Expression_Runs
  imports Operator_Runs
begin

text \<open>
  Method calls, and the value of every expression: the code of an expression computes what the expression
  means.
\<close>

section \<open>The arguments of a method\<close>

text \<open>Storing into cells that were never written keeps what the other cells hold.\<close>

definition keeps :: "'v operand option list \<Rightarrow> 'v operand option list \<Rightarrow> bool" where
  "keeps mem mem' \<longleftrightarrow> (\<forall>a x. read_cell mem a = Some x \<longrightarrow> read_cell mem' a = Some x)"

lemma keeps_prefix: "prefix mem mem' \<Longrightarrow> keeps mem mem'"
  by (auto simp: keeps_def intro: read_cell_prefix)

lemma keeps_trans: "keeps mem mem1 \<Longrightarrow> keeps mem1 mem2 \<Longrightarrow> keeps mem mem2"
  by (simp add: keeps_def)

lemma keeps_fresh: "read_cell mem a = None \<Longrightarrow> keeps mem (mem[a := Some x])"
  by (auto simp: keeps_def read_cell_def nth_list_update split: if_splits)

lemma keeps_zval: "keeps mem mem' \<Longrightarrow> zval_at mem x = Some z \<Longrightarrow> zval_at mem' x = Some z"
  by (cases x) (auto simp: keeps_def split: option.splits operand.splits)

lemma points_to_keeps:
  "moves P base C k t st m st' m' \<Longrightarrow> keeps (memory m) (memory m') \<Longrightarrow> points_to st m v z \<Longrightarrow> points_to st' m' v z"
  unfolding points_to_def using has_moves keeps_zval by metis

text \<open>The cells \<open>a\<close>, \<open>a + 1\<close>, and so on hold pointers to zvals with the given values.\<close>

definition cells_hold :: "'v operand option list \<Rightarrow> nat \<Rightarrow> 'v list \<Rightarrow> bool" where
  "cells_hold mem a zs \<longleftrightarrow> (\<forall>i < length zs. Option.bind (read_cell mem (a + i)) (zval_at mem) = Some (zs ! i))"

lemma cells_hold_Cons:
  "cells_hold mem a (z # zs) \<longleftrightarrow> Option.bind (read_cell mem a) (zval_at mem) = Some z \<and> cells_hold mem (Suc a) zs"
  by (auto simp: cells_hold_def less_Suc_eq_0_disj)

lemma those_map_Some: "(\<And>i. i \<in> set is \<Longrightarrow> f i = Some (g i)) \<Longrightarrow> those (map f is) = Some (map g is)"
  by (induction "is") auto

lemma argument_values_cells: "cells_hold mem a zs \<Longrightarrow> argument_values (length zs) (Address a) mem = Some zs"
  using those_map_Some [of "[0..<length zs]" "\<lambda>i. Option.bind (read_cell mem (a + i)) (zval_at mem)" "(!) zs"]
  by (simp add: argument_values_def cells_hold_def map_nth)

lemma store_runs:
  assumes "CreateStore v p st = Inr st'" "within C st'" "has st m v x" "has st m p (Address a)" "a < length (memory m)"
    and "k \<le> a"
  shows "moves P base C k [] st m st' (m\<lparr>memory := (memory m)[a := Some x]\<rparr>)"
proof -
  from assms(1) have st': "st' = emit_instr (Store v p) st" by (auto simp: CreateStore_def split: if_splits)
  have "rest_of C st = (next_value st, Store v p) # rest_of C st'"
    by (rule rest_of_next [OF assms(2)]) (simp_all add: st' emit_instr_def)
  moreover have "execute P (Store v p) m = Some (Nothing, m\<lparr>memory := (memory m)[a := Some x]\<rparr>)"
    using assms(3-5) by (simp add: has_def write_cell_def)
  ultimately have "reaches P (blocks_of base C) (Running (rest_of C st) m)
      (Running (rest_of C st') (m\<lparr>memory := (memory m)[a := Some x]\<rparr>))"
    using step_execute [of P "Store v p" m] by (intro reaches_step) simp
  then show ?thesis
    using assms(5,6) by (simp add: moves_def st' emit_instr_def)
qed

lemma store_arguments_run:
  assumes "store_arguments p n as st = Inr (ds, st')" "within C st'" "list_all2 (has_typed st m) as xs"
    and "has st m p (Address a)"
    and "\<forall>i < length as. a + n + i < length (memory m) \<and> read_cell (memory m) (a + n + i) = None"
    and "a \<le> length (memory m)"
  shows "\<exists>m' zs. those (map (as_zval P) xs) = Some zs \<and> moves P base C a [] st m st' m' \<and>
    keeps (memory m) (memory m') \<and> length zs = length as \<and> cells_hold (memory m') (a + n) zs \<and>
    (\<forall>d \<in> set ds. \<exists>z. points_to st' m' d z)"
  using assms
proof (induction as arbitrary: n st ds xs m)
  case Nil
  then show ?case
    by (auto intro!: exI [of _ m] goes_moves goes_same simp: keeps_def cells_hold_def)
next
  case (Cons v as)
  from Cons.prems(1) obtain ptr st1 w st2 st3 ds' where
    gep: "CreateInBoundsGEP p n st = Inr (ptr, st1)" and wrap: "wrapAsVariant v st1 = Inr (w, st2)"
    and store: "CreateStore w ptr st2 = Inr st3" and rest: "store_arguments p (Suc n) as st3 = Inr (ds', st')"
    and ds: "ds = (if php_isVariantType (getType v) then ds' else w # ds')"
    by (auto simp: bindE_eq_Inr)
  from Cons.prems(3) obtain x ys where xs: "xs = x # ys" and x: "has_typed st m v x" "list_all2 (has_typed st m) as ys"
    by (auto simp: list_all2_Cons1)
  have w3: "within C st3" by (rule within_adds [OF addedD [OF store_added rest] Cons.prems(2)])
  have w2: "within C st2" by (rule within_adds [OF added_stepD [OF added_operations(13) store] w3])
  have w1: "within C st1" by (rule within_adds [OF addedD [OF wrap_added wrap] w2])
  have "request (getType p) (InBoundsGEP p n) st = Inr (ptr, st1)"
    using gep by (auto simp: CreateInBoundsGEP_def split: if_splits)
  from compute_runs [OF this w1, of P m "Address (a + n)" base] Cons.prems(4) obtain m1 where
    1: "goes P base C [] st m st1 m1" "memory m1 = memory m" "has st1 m1 ptr (Address (a + n))"
    by (auto simp: has_def)
  obtain m2 z where 2: "as_zval P x = Some z" "goes P base C [] st1 m1 st2 m2" "points_to st2 m2 w z"
    using wrap_runs [OF wrap w2 has_typed_goes [OF 1(1) x(1)], of P base] by blast
  obtain y where y: "has st2 m2 w y" "zval_at (memory m2) y = Some z" using 2(3) by (auto simp: points_to_def)
  from 2(2) 1(2) have pre: "prefix (memory m) (memory m2)" by (simp add: goes_def)
  then have len: "length (memory m) \<le> length (memory m2)" by (rule prefix_length_le)
  have fresh: "a + n + i < length (memory m2) \<and> read_cell (memory m2) (a + n + i) = None" if "i < length (v # as)" for i
    using Cons.prems(5) that pre len by (auto simp: read_cell_def prefix_def nth_append)
  let ?m3 = "m2\<lparr>memory := (memory m2)[a + n := Some y]\<rparr>"
  have 3: "moves P base C a [] st2 m2 st3 ?m3"
    by (rule store_runs [OF store w3 y(1) has_goes [OF 2(2) 1(3)]]) (use fresh [of 0] in auto)
  note 12 = goes_silent [OF 1(1) 2(2)]
  note 13 = moves_silent [OF goes_moves [OF 12 Cons.prems(6)] 3]
  have keep3: "keeps (memory m) (memory ?m3)"
    using keeps_trans [OF keeps_prefix [OF pre] keeps_fresh [of _ "a + n" y]] fresh [of 0] by simp
  have cell: "read_cell (memory ?m3) (a + n) = Some y" using fresh [of 0] by (simp add: read_cell_def)
  have "zval_at (memory ?m3) y = Some z"
    using keeps_zval [OF keeps_fresh y(2)] fresh [of 0] by simp
  have typed: "list_all2 (has_typed st3 ?m3) as ys"
    by (rule list_all2_mono [OF x(2)]) (use has_moves [OF 13] in \<open>auto simp: has_typed_def\<close>)
  obtain m4 zs where 4: "those (map (as_zval P) ys) = Some zs" "moves P base C a [] st3 ?m3 st' m4"
    "keeps (memory ?m3) (memory m4)" "length zs = length as" "cells_hold (memory m4) (a + Suc n) zs"
    "\<forall>d \<in> set ds'. \<exists>z. points_to st' m4 d z"
    using Cons.IH [OF rest Cons.prems(2) typed has_moves [OF 13 Cons.prems(4)]] fresh [of "Suc _"] len Cons.prems(6)
    by (fastforce simp: read_cell_def)
  have "Option.bind (read_cell (memory m4) (a + n)) (zval_at (memory m4)) = Some z"
    using 4(3) cell keeps_zval [OF 4(3) \<open>zval_at (memory ?m3) y = Some z\<close>] by (simp add: keeps_def)
  moreover have "points_to st' m4 w z"
    by (rule points_to_keeps [OF 4(2,3)]) (use has_moves [OF 3 y(1)] \<open>zval_at (memory ?m3) y = Some z\<close> in \<open>auto simp: points_to_def\<close>)
  ultimately show ?case
    using 2(1) 4 moves_silent [OF 13 4(2)] keeps_trans [OF keep3 4(3)]
    by (intro exI [of _ m4] exI [of _ "z # zs"]) (auto simp: xs ds cells_hold_Cons)
qed

section \<open>Method calls\<close>

lemma release_all_runs:
  assumes "release_all vs st = Inr st'" "within C st'" "\<forall>v \<in> set vs. \<exists>z. points_to st m v z"
  shows "\<exists>m'. goes P base C [] st m st' m'"
  using assms
proof (induction vs arbitrary: st m)
  case Nil
  then show ?case by (auto intro: goes_same)
next
  case (Cons v vs)
  then obtain st1 z where out: "php_variableGoesOutOfScope v st = Inr st1" and rest: "release_all vs st1 = Inr st'"
    and z: "points_to st m v z" by (auto simp: bindE_eq_Inr)
  have w1: "within C st1" by (rule within_adds [OF added_stepD [OF release_all_added rest] Cons.prems(2)])
  obtain m1 where 1: "goes P base C [] st m st1 m1" using scope_runs [OF out w1 z, of P base] by blast
  from Cons.IH [OF rest Cons.prems(2), of m1] Cons.prems(3) points_to_goes [OF 1] goes_silent [OF 1] show ?case
    by fastforce
qed

lemma pass_runs:
  assumes "pass_arguments as st = Inr ((p, ds), st')" "within C st'" "list_all2 (has_typed st m) as xs"
  shows "\<exists>m' zs x. those (map (as_zval P) xs) = Some zs \<and> goes P base C [] st m st' m' \<and> has st' m' p x \<and>
    argument_values (length as) x (memory m') = Some zs \<and> (\<forall>d \<in> set ds. \<exists>z. points_to st' m' d z)"
proof (cases "as = []")
  case True
  with assms goes_same [of st st P base C m] show ?thesis
    by (auto simp: pass_arguments_def has_def argument_values_def)
next
  case False
  with assms(1) obtain st1 where alloca: "CreateAlloca zval_ptr (length as) st = Inr (p, st1)"
    and store: "store_arguments p 0 as st1 = Inr (ds, st')" by (auto simp: pass_arguments_def bindE_eq_Inr)
  have w1: "within C st1" by (rule within_adds [OF addedD [OF store_added store] assms(2)])
  let ?a = "length (memory m)"
  obtain m1 where 1: "goes P base C [] st m st1 m1" "memory m1 = memory m @ replicate (length as) None"
    "has st1 m1 p (Address ?a)" using alloca_runs [OF alloca w1, of P base m] by blast
  have "list_all2 (has_typed st1 m1) as xs"
    using assms(3) by (rule list_all2_mono) (rule has_typed_goes [OF 1(1)])
  from store_arguments_run [OF store assms(2) this 1(3), of P base] 1(2) obtain m2 zs where
    2: "those (map (as_zval P) xs) = Some zs" "moves P base C ?a [] st1 m1 st' m2" "length zs = length as"
    "cells_hold (memory m2) ?a zs" "\<forall>d \<in> set ds. \<exists>z. points_to st' m2 d z"
    by (auto simp: read_cell_def nth_append)
  have "goes P base C [] st m st' m2"
    by (rule moves_goes [OF moves_silent [OF goes_moves [OF 1(1)] 2(2)]]) simp
  moreover have "has st' m2 p (Address ?a)" by (rule has_moves [OF 2(2) 1(3)])
  moreover have "argument_values (length as) (Address ?a) (memory m2) = Some zs"
    using argument_values_cells [OF 2(4)] 2(3) by simp
  ultimately show ?thesis using 2(1,5) by blast
qed

lemma method_call_runs:
  assumes run: "php_createMethodCall name as st = Inr (v, st')" and w: "within C st'" and g: "good base st"
    and xs: "list_all2 (has_typed st m) as xs"
  shows "computes P base C st m st' v (call_value (php_runtime P) name xs)"
proof -
  obtain p ds st1 st2 st3 c st4 where
    pass: "pass_arguments as st = Inr ((p, ds), st1)" and
    call: "runtime_call ''do_method_call'' [Function_argument 2 hashtable_ptr, Global_string name,
        Constant_int 32 (int (length name)), Constant_int 32 (int (length as)), p] st1 = Inr (v, st2)" and
    out: "release_all ds (set_refcount v 1 st2) = Inr st3" and
    cmp: "pointer_comparison ''ICmpNE'' v (Null_pointer (getType v)) st3 = Inr (c, st4)" and
    st': "st' = createRetVoidIfCallFails c st4"
    using run by (auto simp: php_createMethodCall_def bindE_eq_Inr)
  have a1: "adds st st1" by (rule addedD [OF pass_added pass])
  have a2: "adds st1 st2" by (rule addedD [OF added_call call])
  have a3: "adds st2 st3" by (rule adds_trans [OF adds_bindings(1) added_stepD [OF release_all_added out]])
  have a4: "adds st3 st4" by (rule addedD [OF added_operations(7) cmp])
  note a = adds_trans [OF adds_trans [OF a1 a2] adds_trans [OF a3 a4]]
  have w4: "within C st4" using within_adds [OF adds_test] w unfolding st' by blast
  have w3: "within C st3" by (rule within_adds [OF a4 w4])
  have w2: "within C st2" by (rule within_adds [OF a3 w3])
  have w1: "within C st1" by (rule within_adds [OF a2 w2])
  have g4: "good base st4" using a g by (rule good_adds) (use g in \<open>simp add: good_def\<close>)
  obtain m1 zs x where 1: "those (map (as_zval P) xs) = Some zs" "goes P base C [] st m st1 m1" "has st1 m1 p x"
    "argument_values (length as) x (memory m1) = Some zs" "\<forall>d \<in> set ds. \<exists>z. points_to st1 m1 d z"
    using pass_runs [OF pass w1 xs, of P base] by blast
  let ?r = "zval_call P name zs"
  obtain m2 where 2: "goes P base C [] st1 m1 st2 m2" "has st2 m2 v (nullable_zval ?r)"
    using call_goes [OF call w2, of m1 "[Template_argument 2, Text name, Code (int (length name)), Code (int (length as)), x]"
        P _ _ "[]" base] 1(3,4)
    by (auto simp: has_def call_runtime_def call_with_five_def)
  note 02 = goes_silent [OF goes_silent [OF 1(2) 2(1)] goes_refcount [of P base C st2 m2 v 1]]
  have "\<forall>d \<in> set ds. \<exists>z. points_to (set_refcount v 1 st2) m2 d z"
    using 1(5) points_to_goes [OF goes_silent [OF 2(1) goes_refcount]] by blast
  from release_all_runs [OF out w3 this] obtain m3 where 3: "goes P base C [] (set_refcount v 1 st2) m2 st3 m3" by blast
  have v3: "has st3 m3 v (nullable_zval ?r)" by (rule has_goes [OF 3 has_goes [OF goes_refcount 2(2)]])
  have "arith ''ICmpNE'' (nullable_zval ?r) Null = Some (Bit (?r \<noteq> None))"
    by (cases ?r) (simp_all add: nullable_zval_def arith_def)
  moreover have "request (IntTy 1) (Arith ''ICmpNE'' v (Null_pointer (getType v))) st3 = Inr (c, st4)"
    using cmp by (auto simp: pointer_comparison_def split: if_splits)
  ultimately obtain m4 where 4: "goes P base C [] st3 m3 st4 m4" "has st4 m4 c (Bit (?r \<noteq> None))"
    using arith_runs [OF v3, of "Null_pointer (getType v)" Null "''ICmpNE''" "Bit (?r \<noteq> None)" "IntTy 1" c st4 C P base] w4
    by (auto simp: has_def)
  note 04 = goes_silent [OF goes_silent [OF 02 3] 4(1)]
  note test = test_runs [OF g4 _ 4(2), of C P, folded st', OF w]
  have "computes P base C st m st' v (map_option Zval ?r)"
  proof (cases ?r)
    case None
    with test silent_returns [OF 04] show ?thesis by (simp add: computes_def)
  next
    case (Some z)
    with test have t: "goes P base C [] st4 m4 st' m4" by simp
    have "has_typed st' m4 v (Zval z)"
      using has_goes [OF goes_silent [OF 4(1) t] v3] runtime_results(7) [OF call] Some
      by (simp add: has_typed_def nullable_zval_def)
    with goes_silent [OF 04 t] Some show ?thesis by (auto simp: computes_def)
  qed
  then show ?thesis by (simp add: php_runtime_def 1(1))
qed

section \<open>Expressions\<close>

text \<open>
  Divisions of native integers are exact in the generated code (the build asserts that there is no rest),
  and the rest of native doubles is left to the back end of LLVM: both are outside the theorem.
\<close>

fun no_native_division :: "expr \<Rightarrow> bool" where
  "no_native_division (BinaryOperation l r op) =
     (no_native_division l \<and> no_native_division r \<and>
      (op \<in> {Division, Modulus} \<longrightarrow> yields_zval l \<or> yields_zval r))"
| "no_native_division (Comparison l r op) = (no_native_division l \<and> no_native_division r)"
| "no_native_division (UnaryOperation e op) = no_native_division e"
| "no_native_division (GetAttribute e a) = no_native_division e"
| "no_native_division (MethodCall m as) = list_all (pred_option no_native_division) as"
| "no_native_division e = True"

text \<open>The visitor's table and the registers agree with the environment.\<close>

definition knows :: "'v php_values \<Rightarrow> 'v operand environment \<Rightarrow> 'b llvm_state \<Rightarrow> 'v machine \<Rightarrow> bool" where
  "knows P env st m \<longleftrightarrow>
     (\<forall>x. case m_overriden_variables st x of
            None \<Rightarrow> env x = Some (Zval (assigned P x))
          | Some v \<Rightarrow> \<exists>z. has_typed st m v (Zval z) \<and> env x = Some (Zval z))"

lemma knows_variable:
  assumes "knows P env st m" "m_overriden_variables st x = Some v"
  obtains z where "has_typed st m v (Zval z)" "env x = Some (Zval z)"
proof -
  from assms(1) have "case m_overriden_variables st x of None \<Rightarrow> env x = Some (Zval (assigned P x))
      | Some v \<Rightarrow> \<exists>z. has_typed st m v (Zval z) \<and> env x = Some (Zval z)" by (simp add: knows_def)
  with assms(2) that show ?thesis by auto
qed

lemma knows_no_variable:
  assumes "knows P env st m" "m_overriden_variables st x = None"
  shows "env x = Some (Zval (assigned P x))"
proof -
  from assms(1) have "case m_overriden_variables st x of None \<Rightarrow> env x = Some (Zval (assigned P x))
      | Some v \<Rightarrow> \<exists>z. has_typed st m v (Zval z) \<and> env x = Some (Zval z)" by (simp add: knows_def)
  with assms(2) show ?thesis by simp
qed

lemma knows_zval_table: "knows P env st m \<Longrightarrow> zval_table st"
  unfolding zval_table_def by (auto elim!: knows_variable dest: has_typed_D(2) simp: has_type_variant)

lemma knows_goes:
  "goes P' base C t st m st' m' \<Longrightarrow> m_overriden_variables st' = m_overriden_variables st \<Longrightarrow> knows P env st m \<Longrightarrow>
   knows P env st' m'"
  unfolding knows_def using has_typed_goes by (fastforce split: option.splits)

text \<open>A list of expressions whose code computes the values \<open>r\<close>.\<close>

definition computes_all ::
    "'v php_values \<Rightarrow> nat \<Rightarrow> (nat \<times> instr) list \<Rightarrow> 'b llvm_state \<Rightarrow> 'v machine \<Rightarrow> 'b llvm_state \<Rightarrow> lvalue list \<Rightarrow> 'v operand list option \<Rightarrow> bool" where
  "computes_all P base C st m st' vs r \<longleftrightarrow>
     (case r of
        None \<Rightarrow> returns P base C [] st m
      | Some xs \<Rightarrow> \<exists>m'. goes P base C [] st m st' m' \<and> list_all2 (has_typed st' m') vs xs)"

lemma computesE:
  assumes "computes P base C st m st' v r"
  obtains "r = None" "returns P base C [] st m" | m' x where "r = Some x" "goes P base C [] st m st' m'" "has_typed st' m' v x"
  using assms by (cases r) (auto simp: computes_def)

lemma computes_allE:
  assumes "computes_all P base C st m st' vs r"
  obtains "r = None" "returns P base C [] st m"
    | m' xs where "r = Some xs" "goes P base C [] st m st' m'" "list_all2 (has_typed st' m') vs xs"
  using assms by (cases r) (auto simp: computes_all_def)

lemma computes_None [simp]: "computes P base C st m st' v None = returns P base C [] st m"
  by (simp add: computes_def)

text \<open>Two operands one after the other, and an operator on them.\<close>

lemma operands_run:
  assumes l: "computes P base C st m st1 lv lo" and r: "\<And>m1. goes P base C [] st m st1 m1 \<Longrightarrow> computes P base C st1 m1 st2 rv ro"
    and op: "\<And>m2 x y. lo = Some x \<Longrightarrow> ro = Some y \<Longrightarrow> has_typed st2 m2 lv x \<Longrightarrow> has_typed st2 m2 rv y \<Longrightarrow>
      computes P base C st2 m2 st' v (f x y)"
  shows "computes P base C st m st' v (Option.bind lo (\<lambda>x. Option.bind ro (f x)))"
  using l
proof (cases rule: computesE)
  case 1
  then show ?thesis by simp
next
  case (2 m1 x)
  from r [OF 2(2)] show ?thesis
  proof (cases rule: computesE)
    case none: 1
    with 2 show ?thesis by (cases lo) (auto intro: silent_returns)
  next
    case (2 m2 y)
    note 1 = \<open>lo = Some x\<close> \<open>goes P base C [] st m st1 m1\<close> \<open>has_typed st1 m1 lv x\<close>
    from op [OF 1(1) 2(1) has_typed_goes [OF 2(2) 1(3)] 2(3)] computes_after [OF goes_silent [OF 1(2) 2(2)]] 1(1) 2(1)
    show ?thesis by simp
  qed
qed

lemma literal_computes: "has_typed st m v x \<Longrightarrow> computes P base C st m st v (Some x)"
  using goes_same [of st st P base C m] by (auto simp: computes_def)

lemma variant_operand:
  assumes "zval_table st" "llvm_expression php_bindings e st = Inr (v, st1)" "has_typed st2 m2 v x"
  shows "is_variant_operand x = yields_zval e"
  using zval_expression [OF assms(2,1)] is_variant_type [OF assms(3)]
  by (simp add: php_isVariantType_def)

abbreviation expression_right :: "'v php_values \<Rightarrow> nat \<Rightarrow> (nat \<times> instr) list \<Rightarrow> 'v operand environment \<Rightarrow> expr \<Rightarrow> bool" where
  "expression_right P base C env e \<equiv>
     (\<forall>st m v st'. llvm_expression php_bindings e st = Inr (v, st') \<longrightarrow> within C st' \<longrightarrow> good base st \<longrightarrow>
        knows P env st m \<longrightarrow> no_native_division e \<longrightarrow>
        computes P base C st m st' v (expr_value (php_runtime P) env e))"

lemmas expression_table = php.expression_grows(1) [OF refl, unfolded grows_def, THEN conjunct1]
  and arguments_table = php.expression_grows(2) [OF refl, unfolded grows_def, THEN conjunct1]

lemma arguments_run:
  assumes "\<And>p e. p \<in> set as \<Longrightarrow> p = Some e \<Longrightarrow> expression_right P base C env e"
    and "llvm_arguments php_bindings as st = Inr (vs, st')" "within C st'" "good base st" "knows P env st m"
    and "list_all (pred_option no_native_division) as"
  shows "computes_all P base C st m st' vs (those (map (\<lambda>p. Option.bind p (expr_value (php_runtime P) env)) as))"
  using assms
proof (induction as arbitrary: st vs m)
  case Nil
  then show ?case using goes_same [of st st P base C m] by (auto simp: computes_all_def)
next
  case (Cons p ps)
  then obtain e v st1 ws where p: "p = Some e" and e: "llvm_expression php_bindings e st = Inr (v, st1)"
    and rest: "llvm_arguments php_bindings ps st1 = Inr (ws, st')" and vs: "vs = v # ws"
    by (cases p) (auto simp: bindE_eq_Inr)
  have w1: "within C st1" by (rule within_adds [OF addedD [OF expression_added(2) [OF refl] rest] Cons.prems(3)])
  have g1: "good base st1" by (rule good_added [OF expression_adds [OF e] Cons.prems(4,4)])
  have "computes P base C st m st1 v (expr_value (php_runtime P) env e)"
    using Cons.prems(1) [of p e] p e w1 Cons.prems(4-6) by simp
  then show ?case
  proof (cases rule: computesE)
    case 1
    then show ?thesis by (simp add: p computes_all_def)
  next
    case (2 m1 x)
    have "computes_all P base C st1 m1 st' ws (those (map (\<lambda>p. Option.bind p (expr_value (php_runtime P) env)) ps))"
      by (rule Cons.IH [OF _ rest Cons.prems(3) g1 knows_goes [OF 2(2) expression_table [OF e] Cons.prems(5)]])
        (use Cons.prems(1,6) in \<open>auto\<close>)
    then show ?thesis
    proof (cases rule: computes_allE)
      case 1
      with 2 show ?thesis by (auto simp: p computes_all_def intro: silent_returns)
    next
      case rest: (2 m2 xs)
      with 2 goes_silent [OF 2(2) rest(2)] has_typed_goes [OF rest(2) 2(3)] show ?thesis
        by (auto simp: p computes_all_def vs)
    qed
  qed
qed

theorem expression_runs:
  fixes P :: "'v php_values"
  shows "expression_right P base C env e"
proof (induction e)
  case (VariableReference x)
  show ?case
  proof (intro allI impI)
    fix st m v st'
    assume run: "llvm_expression php_bindings (VariableReference x) st = Inr (v, st')" and w: "within C st'"
      and env: "knows P env st m"
    show "computes P base C st m st' v (expr_value (php_runtime P) env (VariableReference x))"
    proof (cases "m_overriden_variables st x")
      case None
      note known = knows_no_variable [OF env None]
      with run None lookup_runs [OF _ w] show ?thesis by simp
    next
      case (Some lv)
      then obtain z where z: "has_typed st m lv (Zval z)" "env x = Some (Zval z)" by (rule knows_variable [OF env])
      from run Some have "php_getNewReferenceForVariable lv st = Inr (v, st')" by simp
      note ref = reference_runs(1) [OF this] reference_runs(2) [OF this, of P base C m]
      from has_typed_goes [OF ref(2) z(1)] ref z(2) show ?thesis by (auto simp: computes_def)
    qed
  qed
next
  case (GetAttribute e a)
  show ?case
  proof (intro allI impI)
    fix st m v st'
    assume "llvm_expression php_bindings (GetAttribute e a) st = Inr (v, st')" and w: "within C st'"
      and g: "good base st" and env: "knows P env st m" and n: "no_native_division (GetAttribute e a)"
    then obtain ev st1 where e: "llvm_expression php_bindings e st = Inr (ev, st1)"
      and run: "php_createGetAttribute a ev st1 = Inr (v, st')" by (auto simp: bindE_eq_Inr)
    have w1: "within C st1" by (rule within_adds [OF addedD [OF attribute_added run] w])
    have "computes P base C st m st1 ev (expr_value (php_runtime P) env e)"
      using GetAttribute e w1 g env n by simp
    then show "computes P base C st m st' v (expr_value (php_runtime P) env (GetAttribute e a))"
      by (cases rule: computesE) (auto intro: computes_after attribute_runs [OF run w])
  qed
next
  case (MethodCall name as)
  show ?case
  proof (intro allI impI)
    fix st m v st'
    assume "llvm_expression php_bindings (MethodCall name as) st = Inr (v, st')" and w: "within C st'"
      and g: "good base st" and env: "knows P env st m" and n: "no_native_division (MethodCall name as)"
    then obtain vs st1 where as: "llvm_arguments php_bindings as st = Inr (vs, st1)"
      and run: "php_createMethodCall name vs st1 = Inr (v, st')" by (auto simp: bindE_eq_Inr)
    have w1: "within C st1" by (rule within_adds [OF addedD [OF call_added run] w])
    have g1: "good base st1" by (rule good_added [OF addedD [OF expression_added(2) [OF refl] as] g g])
    have "computes_all P base C st m st1 vs (those (map (\<lambda>p. Option.bind p (expr_value (php_runtime P) env)) as))"
      by (rule arguments_run [OF _ as w1 g env]) (use MethodCall n in auto)
    then show "computes P base C st m st' v (expr_value (php_runtime P) env (MethodCall name as))"
      by (cases rule: computes_allE) (auto intro: computes_after method_call_runs [OF run w g1])
  qed
next
  case (BinaryOperation l r op)
  show ?case
  proof (intro allI impI)
    fix st m v st'
    assume "llvm_expression php_bindings (BinaryOperation l r op) st = Inr (v, st')" and w: "within C st'"
      and g: "good base st" and env: "knows P env st m" and n: "no_native_division (BinaryOperation l r op)"
    then obtain lv st1 rv st2 where l: "llvm_expression php_bindings l st = Inr (lv, st1)"
      and r: "llvm_expression php_bindings r st1 = Inr (rv, st2)"
      and run: "llvm_binary_operation php_bindings op lv rv st2 = Inr (v, st')" by (auto simp: bindE_eq_Inr)
    have w2: "within C st2" by (rule within_adds [OF addedD [OF llvm_operations_added(1) run] w])
    have w1: "within C st1" by (rule within_adds [OF expression_adds [OF r] w2])
    have g1: "good base st1" by (rule good_added [OF expression_adds [OF l] g g])
    have g2: "good base st2" by (rule good_added [OF expression_adds [OF r] g1 g1])
    have tables: "zval_table st" "zval_table st1"
      using knows_zval_table [OF env] expression_table [OF l] by (simp_all add: zval_table_def)
    have left: "computes P base C st m st1 lv (expr_value (php_runtime P) env l)"
      using BinaryOperation.IH(1) l w1 g env n by simp
    show "computes P base C st m st' v (expr_value (php_runtime P) env (BinaryOperation l r op))"
      unfolding expr_value.simps
    proof (rule operands_run [OF left])
      fix m1 assume "goes P base C [] st m st1 m1"
      from BinaryOperation.IH(2) r w2 g1 knows_goes [OF this expression_table [OF l] env] n
      show "computes P base C st1 m1 st2 rv (expr_value (php_runtime P) env r)" by simp
    next
      fix m2 :: "'v machine" and x y assume x: "has_typed st2 m2 lv x" and y: "has_typed st2 m2 rv y"
      show "computes P base C st2 m2 st' v (binary_value (php_runtime P) op x y)"
        by (rule binary_operation_runs [OF run w g2 x y])
          (use n variant_operand [OF tables(1) l x] variant_operand [OF tables(2) r y] in auto)
    qed
  qed
next
  case (Comparison l r op)
  show ?case
  proof (intro allI impI)
    fix st m v st'
    assume "llvm_expression php_bindings (Comparison l r op) st = Inr (v, st')" and w: "within C st'"
      and g: "good base st" and env: "knows P env st m" and n: "no_native_division (Comparison l r op)"
    then obtain lv st1 rv st2 where l: "llvm_expression php_bindings l st = Inr (lv, st1)"
      and r: "llvm_expression php_bindings r st1 = Inr (rv, st2)"
      and run: "llvm_comparison php_bindings op lv rv st2 = Inr (v, st')" by (auto simp: bindE_eq_Inr)
    have w2: "within C st2" by (rule within_adds [OF addedD [OF llvm_operations_added(3) run] w])
    have w1: "within C st1" by (rule within_adds [OF expression_adds [OF r] w2])
    have g1: "good base st1" by (rule good_added [OF expression_adds [OF l] g g])
    have g2: "good base st2" by (rule good_added [OF expression_adds [OF r] g1 g1])
    have left: "computes P base C st m st1 lv (expr_value (php_runtime P) env l)"
      using Comparison.IH(1) l w1 g env n by simp
    show "computes P base C st m st' v (expr_value (php_runtime P) env (Comparison l r op))"
      unfolding expr_value.simps
    proof (rule operands_run [OF left])
      fix m1 assume "goes P base C [] st m st1 m1"
      from Comparison.IH(2) r w2 g1 knows_goes [OF this expression_table [OF l] env] n
      show "computes P base C st1 m1 st2 rv (expr_value (php_runtime P) env r)" by simp
    qed (rule comparison_operation_runs [OF run w g2])
  qed
next
  case (UnaryOperation e op)
  show ?case
  proof (intro allI impI)
    fix st m v st'
    assume "llvm_expression php_bindings (UnaryOperation e op) st = Inr (v, st')" and w: "within C st'"
      and g: "good base st" and env: "knows P env st m" and n: "no_native_division (UnaryOperation e op)"
    then obtain ev st1 where e: "llvm_expression php_bindings e st = Inr (ev, st1)"
      and run: "llvm_unary_operation php_bindings op ev st1 = Inr (v, st')" by (auto simp: bindE_eq_Inr)
    have w1: "within C st1" by (rule within_adds [OF addedD [OF llvm_operations_added(2) run] w])
    have g1: "good base st1" by (rule good_added [OF expression_adds [OF e] g g])
    have "computes P base C st m st1 ev (expr_value (php_runtime P) env e)"
      using UnaryOperation e w1 g env n by simp
    then show "computes P base C st m st' v (expr_value (php_runtime P) env (UnaryOperation e op))"
      by (cases rule: computesE) (auto intro: computes_after unary_operation_runs [OF run w g1])
  qed
qed (auto simp: has_typed_def has_def php_runtime_def intro: literal_computes)

lemma expression_computes:
  assumes "llvm_expression php_bindings e st = Inr (v, st')" "within C st'" "good base st" "knows P env st m"
    and "no_native_division e"
  shows "computes P base C st m st' v (expr_value (php_runtime P) env e)"
  using expression_runs assms by blast

end
