(* ===== verification/Loop_Runs.thy ===== *)
theory Loop_Runs
  imports Expression_Runs Php_References
begin

text \<open>
  Jumps between blocks, and what the code of the operations of a loop does when it runs: the beginning of
  a loop, its variables and its next iteration.
\<close>

section \<open>The metadata of loops\<close>

text \<open>
  Generating code for a piece of a template leaves the metadata of a loop, or forgets it (where the piece
  has a loop over the same value).
\<close>

definition forgets :: "php_llvm_state \<Rightarrow> php_llvm_state \<Rightarrow> bool" where
  "forgets st st' \<longleftrightarrow> (\<forall>x. metadata st' x = metadata st x \<or> metadata st' x = None)"

lemma forgets_same: "metadata st' = metadata st \<Longrightarrow> forgets st st'"
  by (simp add: forgets_def)

lemma forgets_trans: "forgets st st1 \<Longrightarrow> forgets st1 st2 \<Longrightarrow> forgets st st2"
  unfolding forgets_def by metis

definition tables_kept :: "(lvalue \<Rightarrow> (lvalue \<times> lvalue) option) \<Rightarrow> ('a \<times> php_llvm_state) res \<Rightarrow> bool" where
  "tables_kept M r \<longleftrightarrow> (\<forall>v st'. r = Inr (v, st') \<longrightarrow> metadata st' = M)"

definition table_kept :: "(lvalue \<Rightarrow> (lvalue \<times> lvalue) option) \<Rightarrow> php_llvm_state res \<Rightarrow> bool" where
  "table_kept M r \<longleftrightarrow> (\<forall>st'. r = Inr st' \<longrightarrow> metadata st' = M)"

lemma table_kept_simps [simp]:
  "tables_kept M (Inl k)" "tables_kept M (Inr (v, st')) \<longleftrightarrow> metadata st' = M"
  "table_kept M (Inl k)" "table_kept M (Inr st') \<longleftrightarrow> metadata st' = M"
  by (auto simp: tables_kept_def table_kept_def)

lemma tables_keptD: "tables_kept (metadata st) r \<Longrightarrow> r = Inr (v, st') \<Longrightarrow> metadata st' = metadata st"
  by (simp add: tables_kept_def)

lemma tables_kept_bind:
  "tables_kept M m \<Longrightarrow> (\<And>x st1. metadata st1 = M \<Longrightarrow> tables_kept M (f x st1)) \<Longrightarrow>
   tables_kept M (bindE m (\<lambda>(x, st1). f x st1))"
  "table_kept M m' \<Longrightarrow> (\<And>st1. metadata st1 = M \<Longrightarrow> tables_kept M (g st1)) \<Longrightarrow> tables_kept M (bindE m' g)"
  by (fastforce simp: tables_kept_def table_kept_def bindE_eq_Inr)+

lemma table_kept_bind:
  "table_kept M m' \<Longrightarrow> (\<And>st1. metadata st1 = M \<Longrightarrow> table_kept M (g st1)) \<Longrightarrow> table_kept M (bindE m' g)"
  by (fastforce simp: table_kept_def bindE_eq_Inr)

lemma metadata_simps [simp]:
  "metadata (set_refcount v n st) = metadata st" "metadata (emit_instr i st) = metadata st"
  "metadata (createRetVoidIfCallFails c st) = metadata st" "metadata (SetInsertPoint b st) = metadata st"
  "metadata (CreateCondBr c a b' st) = metadata st" "metadata (CreateBr b st) = metadata st"
  "metadata (push_block b st) = metadata st" "metadata (set_loop_variable h name lv st) = metadata st"
  by (simp_all add: set_refcount_def emit_instr_def createRetVoidIfCallFails_def Let_def new_block_in_function_def
      new_block_def push_block_def SetInsertPoint_def CreateCondBr_def CreateBr_def CreateRetVoid_def
      set_loop_variable_def override_def)

lemma metadata_new_block:
  "new_block st = (b, st1) \<Longrightarrow> metadata st1 = metadata st"
  "new_block_in_function st = (b, st1) \<Longrightarrow> metadata st1 = metadata st"
  by (auto simp: new_block_in_function_def new_block_def push_block_def)

lemma table_request [simp]: "metadata st = M \<Longrightarrow> tables_kept M (request t i st)"
  by (simp add: request_def emit_instr_def)

lemma table_operations [simp]:
  assumes "metadata st = M"
  shows "tables_kept M (int_operation name l r st)" "tables_kept M (int_comparison name l r st)"
  "tables_kept M (double_operation name l r st)" "tables_kept M (double_comparison name l r st)"
  "tables_kept M (int_unary name l st)" "tables_kept M (to_double l st)" "tables_kept M (pointer_comparison name l r st)"
  "tables_kept M (CreateAlloca t n st)" "tables_kept M (CreateLoad l st)" "tables_kept M (CreateInBoundsGEP l n st)"
  "tables_kept M (CreateTrunc l w st)" "tables_kept M (CreateCall f as st)" "table_kept M (CreateStore l r st)"
  using assms
  by (simp_all add: int_operation_def int_comparison_def double_operation_def double_comparison_def
      int_unary_def to_double_def pointer_comparison_def CreateAlloca_def CreateLoad_def
      CreateInBoundsGEP_def CreateTrunc_def CreateCall_def CreateStore_def split: ltype.split prod.split)

lemma table_comparison_requests [simp]:
  "metadata st = M \<Longrightarrow> tables_kept M (int_comparison_request cop l r st)"
  "metadata st = M \<Longrightarrow> tables_kept M (double_comparison_request cop l r st)"
  by (cases cop; simp)+

lemma table_call [simp]: "metadata st = M \<Longrightarrow> tables_kept M (runtime_call name as st)"
  by (cases "findFunction name") (simp_all add: runtime_call_def)

lemma table_scope [simp]: "metadata st = M \<Longrightarrow> table_kept M (php_variableGoesOutOfScope v st)"
  by (auto simp: table_kept_def dest: scope_metadata)

lemma table_wrap [simp]: "metadata st = M \<Longrightarrow> tables_kept M (wrapAsVariant v st)"
  by (cases "wrappingFunction (getType v)") (auto simp: wrapAsVariant_def intro!: tables_kept_bind)

lemma table_release [simp]: "metadata st = M \<Longrightarrow> table_kept M (release_all vs st)"
  by (induction vs arbitrary: st) (auto intro!: table_kept_bind)

lemma table_store [simp]: "metadata st = M \<Longrightarrow> tables_kept M (store_arguments p n as st)"
  by (induction as arbitrary: n st) (auto intro!: tables_kept_bind)

lemma table_php_operations [simp]:
  assumes "metadata st = M"
  shows "tables_kept M (php_getNewReferenceForVariable v st)" "tables_kept M (php_createVariableLookup name st)"
    "tables_kept M (php_createGetAttribute name v st)" "tables_kept M (php_createVariantComparison cop l r st)"
    "tables_kept M (php_createVariantBinaryOperation bop l r st)" "tables_kept M (php_createVariantUnaryOperation uop v st)"
    "tables_kept M (pass_arguments as st)" "tables_kept M (php_createPrintCall v st)"
    "tables_kept M (php_createForLoopNextIteration v st)" "tables_kept M (variable_slot h st)"
    "tables_kept M (load_variable h s n st)"
  using assms
  by (auto simp: php_getNewReferenceForVariable_def php_createVariableLookup_def php_createGetAttribute_def
      php_createVariantComparison_def php_createVariantBinaryOperation_def php_createVariantUnaryOperation_def
      pass_arguments_def php_createPrintCall_def php_createForLoopNextIteration_def variable_slot_def load_variable_def
      split: option.split intro!: tables_kept_bind)
    (cases "getPrintMethodForType (getType v)"; auto)?

lemma table_method_call [simp]: "metadata st = M \<Longrightarrow> tables_kept M (php_createMethodCall name as st)"
  unfolding php_createMethodCall_def arguments_of_template bindE_simps case_prod_beta'
  by (intro tables_kept_bind [unfolded case_prod_beta']) simp_all

lemma table_variables [simp]: "metadata st = M \<Longrightarrow> tables_kept M (php_createForLoopGetVariables v hasKey hasValue st)"
  by (auto simp: php_createForLoopGetVariables_def split: option.split intro!: tables_kept_bind)

lemma table_llvm_operations [simp]:
  assumes "metadata st = M"
  shows "tables_kept M (llvm_binary_operation php_bindings bop l r st)"
    "tables_kept M (llvm_unary_operation php_bindings uop l st)" "tables_kept M (llvm_comparison php_bindings cop l r st)"
  using assms
  by (auto simp: llvm_binary_operation_def llvm_unary_operation_def llvm_comparison_def
      intro!: tables_kept_bind split: unary_op.split)

lemmas table_after = table_php_operations [THEN tables_keptD, OF refl] table_method_call [THEN tables_keptD, OF refl]
  table_llvm_operations [THEN tables_keptD, OF refl]

lemma arguments_metadata:
  assumes "\<And>e st v st'. Some e \<in> set as \<Longrightarrow> llvm_expression php_bindings e st = Inr (v, st') \<Longrightarrow> metadata st' = metadata st"
    and "llvm_arguments php_bindings as st = Inr (vs, st')"
  shows "metadata st' = metadata st"
  using assms
proof (induction as arbitrary: st vs)
  case (Cons p ps)
  then obtain e v st1 ws where p: "p = Some e" and e: "llvm_expression php_bindings e st = Inr (v, st1)"
    and rest: "llvm_arguments php_bindings ps st1 = Inr (ws, st')" by (cases p) (auto simp: bindE_eq_Inr)
  have "metadata st' = metadata st1"
    by (rule Cons.IH [OF _ rest]) (use Cons.prems(1) in auto)
  also have "\<dots> = metadata st" by (rule Cons.prems(1) [OF _ e]) (simp add: p)
  finally show ?case .
qed simp

lemma expression_metadata: "llvm_expression php_bindings e st = Inr (v, st') \<Longrightarrow> metadata st' = metadata st"
proof (induction e arbitrary: st v st')
  case (MethodCall name as)
  then obtain vs st1 where as: "llvm_arguments php_bindings as st = Inr (vs, st1)"
    and run: "php_createMethodCall name vs st1 = Inr (v, st')" by (auto simp: bindE_eq_Inr)
  have "metadata st1 = metadata st"
    by (rule arguments_metadata [OF _ as]) (use MethodCall.IH in auto)
  with table_after(12) [OF run] show ?case by simp
next
  case (BinaryOperation l r op)
  then obtain lv st1 rv st2 where l: "llvm_expression php_bindings l st = Inr (lv, st1)"
    and r: "llvm_expression php_bindings r st1 = Inr (rv, st2)"
    and run: "llvm_binary_operation php_bindings op lv rv st2 = Inr (v, st')" by (auto simp: bindE_eq_Inr)
  from BinaryOperation.IH(1) [OF l] BinaryOperation.IH(2) [OF r] table_after(13) [OF run] show ?case by simp
next
  case (Comparison l r op)
  then obtain lv st1 rv st2 where l: "llvm_expression php_bindings l st = Inr (lv, st1)"
    and r: "llvm_expression php_bindings r st1 = Inr (rv, st2)"
    and run: "llvm_comparison php_bindings op lv rv st2 = Inr (v, st')" by (auto simp: bindE_eq_Inr)
  from Comparison.IH(1) [OF l] Comparison.IH(2) [OF r] table_after(15) [OF run] show ?case by simp
next
  case (UnaryOperation e op)
  then obtain ev st1 where e: "llvm_expression php_bindings e st = Inr (ev, st1)"
    and run: "llvm_unary_operation php_bindings op ev st1 = Inr (v, st')" by (auto simp: bindE_eq_Inr)
  from UnaryOperation.IH [OF e] table_after(14) [OF run] show ?case by simp
next
  case (GetAttribute e a)
  then obtain ev st1 where e: "llvm_expression php_bindings e st = Inr (ev, st1)"
    and run: "php_createGetAttribute a ev st1 = Inr (v, st')" by (auto simp: bindE_eq_Inr)
  from GetAttribute.IH [OF e] table_after(3) [OF run] show ?case by simp
qed (auto split: option.splits dest: table_after(1,2))

text \<open>Statements.\<close>

lemma init_forgets:
  "php_createForLoopInit it st = Inr (c, st') \<Longrightarrow> x \<noteq> it \<Longrightarrow> metadata st' x = metadata st x"
  unfolding php_createForLoopInit_def
proof (clarsimp simp: bindE_eq_Inr)
  fix p st1 h st2
  assume x: "x \<noteq> it" and run: "CreateAlloca bucket_ptr (Suc 0) st = Inr (p, st1)"
    "runtime_call ''forloop_init'' [it, p] st1 = Inr (h, st2)"
    "pointer_comparison ''ICmpNE'' h (Null_pointer hashtable_ptr) (set_metadata it (Some (h, p)) st2) = Inr (c, st')"
  from tables_keptD [OF table_operations(8) [OF refl] run(1)] tables_keptD [OF table_call [OF refl] run(2)]
    tables_keptD [OF table_operations(7) [OF refl] run(3)] x
  show "metadata st' x = metadata st x" by (simp add: set_metadata_def)
qed

lemma body_forgets:
  assumes "\<And>a st st'. a \<in> set_option b \<Longrightarrow> llvm_ast php_bindings a st = Inr st' \<Longrightarrow> forgets st st'"
    and "llvm_body php_bindings b st = Inr st'"
  shows "forgets st st'"
  using assms by (cases b) (auto simp: forgets_same)

lemma statements_forget:
  assumes "\<And>a st st'. a \<in> set xs \<Longrightarrow> llvm_ast php_bindings a st = Inr st' \<Longrightarrow> forgets st st'"
  shows "llvm_statements php_bindings xs st = Inr st' \<Longrightarrow> forgets st st'"
  using assms by (induction xs arbitrary: st) (fastforce simp: bindE_eq_Inr forgets_same intro: forgets_trans)+

lemma ast_forgets: "llvm_ast php_bindings a st = Inr st' \<Longrightarrow> forgets st st'"
proof (induction a arbitrary: st st')
  case (Statements xs)
  then show ?case using statements_forget [of xs st st'] by simp
next
  case (RawBlock t)
  then show ?case
    by (auto simp: bindE_eq_Inr intro!: forgets_same dest: tables_keptD [OF table_php_operations(8) [OF refl]])
next
  case (PrintBlock e)
  then show ?case
    by (auto simp: bindE_eq_Inr intro!: forgets_same split: if_splits dest!: expression_metadata scope_metadata
        tables_keptD [OF table_php_operations(8) [OF refl]])
next
  case (IfBlock c th el)
  show ?case
  proof (rule if_run [OF IfBlock.prems])
    fix cond st0 b1 st1 b2 st2 b3 st3 st4 st5
    assume "llvm_expression php_bindings c st = Inr (cond, st0)"
      and bs: "new_block_in_function st0 = (b1, st1)" "new_block st1 = (b2, st2)" "new_block st2 = (b3, st3)"
      and body: "llvm_body php_bindings th (SetInsertPoint b1 (CreateCondBr cond b1 b2 st3)) = Inr st4"
        "llvm_body php_bindings el (SetInsertPoint b2 (push_block b2 (CreateBr b3 st4))) = Inr st5"
      and st': "st' = SetInsertPoint b3 (push_block b3 (CreateBr b3 st5))"
    then have "metadata st3 = metadata st"
      using expression_metadata metadata_new_block(2) [OF bs(1)] bs(2,3) [THEN metadata_new_block(1)] by simp
    then have "forgets st (SetInsertPoint b1 (CreateCondBr cond b1 b2 st3))" by (simp add: forgets_same)
    from forgets_trans [OF this body_forgets [OF IfBlock.IH(1) body(1)]]
    have "forgets st (SetInsertPoint b2 (push_block b2 (CreateBr b3 st4)))" by (simp add: forgets_def)
    from forgets_trans [OF this body_forgets [OF IfBlock.IH(2) body(2)]]
    show ?thesis by (simp add: forgets_def st')
  qed
next
  case (ForBlock k v i b el)
  show ?case
  proof (rule for_run [OF ForBlock.prems], unfold php_bindings_simps)
    fix it st0 b1 st1 b2 st2 b3 st3 c st4 keyName valueName kv vv st6 st7 st8 st9 st10' c' st10 st11 st12
    assume it: "llvm_expression php_bindings i st = Inr (it, st0)"
      and bs: "new_block_in_function st0 = (b1, st1)" "new_block_in_function st1 = (b2, st2)"
        "new_block_in_function st2 = (b3, st3)"
      and c: "php_createForLoopInit it st3 = Inr (c, st4)"
      and vars: "php_createForLoopGetVariables it (k \<noteq> None) (v \<noteq> None) (SetInsertPoint b1 (CreateCondBr c b1 b2 st4)) = Inr ((kv, vv), st6)"
      and body: "llvm_body php_bindings b (set_loop_variable (v \<noteq> None) valueName vv (set_loop_variable (k \<noteq> None) keyName kv st6)) = Inr st7"
      and out: "release_loop_variable php_bindings (k \<noteq> None) kv st7 = Inr st8" "release_loop_variable php_bindings (v \<noteq> None) vv st8 = Inr st9"
      and st10': "st10' = restore_loop_variable (v \<noteq> None) valueName (m_overriden_variables st4 valueName)
        (restore_loop_variable (k \<noteq> None) keyName (m_overriden_variables st4 keyName) st9)"
      and step: "php_createForLoopNextIteration it st10' = Inr (c', st10)"
      and els: "llvm_body php_bindings el (SetInsertPoint b2 (CreateCondBr c' b1 b3 st10)) = Inr st11"
      and clean: "php_createForLoopCleanup it (SetInsertPoint b3 (CreateBr b3 st11)) = Inr st12"
      and final: "php_variableGoesOutOfScope it st12 = Inr st'"
    have 3: "metadata st3 = metadata st"
      using expression_metadata [OF it] bs [THEN metadata_new_block(2)] by simp
    have 6: "metadata st6 = metadata st4"
      using tables_keptD [OF table_variables [OF refl] vars] by simp
    have 7: "forgets st6 st7" using body_forgets [OF ForBlock.IH(1) body] by (simp add: forgets_def)
    have 10: "metadata st10 = metadata st7"
      using tables_keptD [OF table_php_operations(9) [OF refl] step] out [THEN release_metadata]
      by (simp add: st10' restore_metadata)
    have 11: "forgets st10 st11" using body_forgets [OF ForBlock.IH(2) els] by (simp add: forgets_def)
    have 12: "metadata st' = (metadata st11)(it := None)"
      using scope_metadata [OF final] clean by (auto simp: php_createForLoopCleanup_def set_metadata_def)
    have "metadata st' x = metadata st x \<or> metadata st' x = None" for x
    proof (cases "x = it")
      case False
      with init_forgets [OF c False] 7 11 show ?thesis unfolding forgets_def 12 3 [symmetric] 6 10 by (metis fun_upd_other)
    qed (simp add: 12)
    then show ?thesis by (simp add: forgets_def)
  qed
qed simp

section \<open>Jumps\<close>

text \<open>A block that has no code yet, and stays without code while other pieces are generated.\<close>

definition fresh :: "nat \<Rightarrow> 'b llvm_state \<Rightarrow> bool" where
  "fresh b st \<longleftrightarrow> b < next_block st \<and> b \<notin> fst ` set (code st) \<and> b \<noteq> insert_point st"

lemma fresh_adds: "adds st st' \<Longrightarrow> fresh b st \<Longrightarrow> fresh b st'"
  by (fastforce simp: adds_in_def fresh_def)

lemma jump_runs:
  assumes "code st1 = code st @ [(insert_point st, Br b)]" "within C st1"
    and "insert_point st2 = b" "good base st2" "within C st2" "b \<notin> fst ` set (code st2)" "next_value st \<le> next_value st2"
  shows "goes P base C [] st m st2 m"
proof -
  have "blocks_of base C b = rest_of C st2" using block_begins [OF assms(4,5)] assms(3,6) by simp
  then have "reaches P (blocks_of base C) (Running (rest_of C st) m) (Running (rest_of C st2) m)"
    using rest_of_emit [OF assms(2,1)] by (intro reaches_step) simp
  with assms(7) show ?thesis by (simp add: goes_def)
qed

lemma branch_reaches:
  assumes "code st1 = code st @ [(insert_point st, CondBr c b1 b2)]" "within C st1" "has st m c (Bit x)"
    and "insert_point st2 = (if x then b1 else b2)" "good base st2" "within C st2"
    and "(if x then b1 else b2) \<notin> fst ` set (code st2)"
  shows "reaches P (blocks_of base C) (Running (rest_of C st) m) (Running (rest_of C st2) m)"
proof -
  have "blocks_of base C (if x then b1 else b2) = rest_of C st2" using block_begins [OF assms(5,6)] assms(4,7) by simp
  then show ?thesis
    using rest_of_emit [OF assms(2,1)] assms(3) by (intro reaches_step) (auto simp: has_def)
qed

lemma branch_runs:
  assumes "code st1 = code st @ [(insert_point st, CondBr c b1 b2)]" "within C st1" "has st m c (Bit x)"
    and "insert_point st2 = (if x then b1 else b2)" "good base st2" "within C st2"
    and "(if x then b1 else b2) \<notin> fst ` set (code st2)" "next_value st \<le> next_value st2"
  shows "goes P base C [] st m st2 m"
  using branch_reaches [OF assms(1-7)] assms(8) by (simp add: goes_def)

section \<open>The operations of a loop\<close>

lemma init_runs:
  assumes run: "php_createForLoopInit it st = Inr (c, st')" and w: "within C st'" and z: "has_typed st m it (Zval z)"
  shows "\<exists>m' h p. goes P base C [] st m st' m' \<and> metadata st' it = Some (h, p) \<and>
    has st' m' c (Bit (zval_elements P z \<noteq> [])) \<and> has st' m' p (Address (length (memory m))) \<and>
    (zval_elements P z \<noteq> [] \<longrightarrow> has st' m' h (Hashtable (zval_elements P z))) \<and>
    read_cell (memory m') (length (memory m)) = Some (Position (zval_elements P z))"
proof -
  let ?es = "zval_elements P z" and ?k = "length (memory m)"
  obtain p st1 h st2 where
    alloca: "CreateAlloca bucket_ptr 1 st = Inr (p, st1)" and
    call: "runtime_call ''forloop_init'' [it, p] st1 = Inr (h, st2)" and
    cmp: "pointer_comparison ''ICmpNE'' h (Null_pointer hashtable_ptr) (set_metadata it (Some (h, p)) st2) = Inr (c, st')"
    using run by (auto simp: php_createForLoopInit_def bindE_eq_Inr)
  let ?st2 = "set_metadata it (Some (h, p)) st2" and ?H = "if ?es = [] then Null else Hashtable ?es"
  have w2: "within C st2"
    using within_adds [OF addedD [OF added_operations(7) cmp] w] by (simp add: within_def set_metadata_def)
  have w1: "within C st1" by (rule within_adds [OF addedD [OF added_call call] w2])
  obtain m1 where 1: "goes P base C [] st m st1 m1" "memory m1 = memory m @ [None]" "has st1 m1 p (Address ?k)"
    using alloca_runs [OF alloca w1, of P base m] by auto
  have "call_runtime P ''forloop_init'' [Zval z, Address ?k] (memory m1) = Some (?H, memory m @ [Some (Position ?es)], [])"
    using 1(2) by (simp add: call_runtime_def call_with_two_def loop_init_def)
  from call_moves [OF call w2 _ this, of ?k base] has_goes [OF 1(1) has_typed_D(1) [OF z]] 1(2,3) obtain m2 where
    2: "moves P base C ?k [] st1 m1 st2 m2" "memory m2 = memory m @ [Some (Position ?es)]" "has st2 m2 h ?H" by auto
  have 02: "goes P base C [] st m st2 m2"
    by (rule moves_goes [OF moves_silent [OF goes_moves [OF 1(1)] 2(1)]]) simp
  note 03 = goes_silent [OF 02 goes_metadata [of P base C st2 m2 it "Some (h, p)"]]
  have h: "has ?st2 m2 h ?H" and pp: "has ?st2 m2 p (Address ?k)"
    using has_goes [OF goes_metadata 2(3)] has_goes [OF goes_metadata has_moves [OF 2(1) 1(3)]] by simp_all
  have req: "request (IntTy 1) (Arith ''ICmpNE'' h (Null_pointer hashtable_ptr)) ?st2 = Inr (c, st')"
    using cmp by (auto simp: pointer_comparison_def split: if_splits)
  have "has ?st2 m2 (Null_pointer hashtable_ptr) Null" by (simp add: has_def)
  moreover have "arith ''ICmpNE'' ?H Null = Some (Bit (?es \<noteq> []))" by (simp add: arith_def)
  ultimately obtain m4 where 4: "goes P base C [] ?st2 m2 st' m4" "memory m4 = memory m2" "has st' m4 c (Bit (?es \<noteq> []))"
    using arith_runs [OF h _ _ req w] by blast
  have "metadata st' it = Some (h, p)"
    using tables_keptD [OF table_operations(7) [OF refl] cmp] by (simp add: set_metadata_def)
  moreover have "read_cell (memory m4) ?k = Some (Position ?es)" by (simp add: 4(2) 2(2))
  ultimately show ?thesis
    using goes_silent [OF 03 4(1)] has_goes [OF 4(1) h] has_goes [OF 4(1) pp] 4(3) by (auto split: if_splits)
qed

lemma next_runs:
  assumes run: "php_createForLoopNextIteration it st = Inr (c, st')" and w: "within C st'"
    and h: "metadata st it = Some (h, p)" "has st m h (Hashtable es)" "has st m p (Address k)"
    and pos: "read_cell (memory m) k = Some (Position (x # rest))"
  shows "\<exists>m'. moves P base C k [] st m st' m' \<and> has st' m' c (Bit (rest \<noteq> [])) \<and>
    read_cell (memory m') k = Some (Position rest)"
proof -
  from run h(1) have call: "runtime_call ''forloop_next'' [h, p] st = Inr (c, st')"
    by (simp add: php_createForLoopNextIteration_def)
  from pos have len: "k < length (memory m)" by (auto simp: read_cell_def split: if_splits)
  then have "call_runtime P ''forloop_next'' [Hashtable es, Address k] (memory m) =
      Some (Bit (rest \<noteq> []), (memory m)[k := Some (Position rest)], [])"
    using pos by (simp add: call_runtime_def call_with_two_def loop_next_def write_cell_def)
  from call_moves [OF call w _ this, of k base] h(2,3) len show ?thesis by (auto simp: read_cell_def)
qed

text \<open>The slots of the loop variables.\<close>

definition slot_at :: "bool \<Rightarrow> 'b llvm_state \<Rightarrow> 'v machine \<Rightarrow> lvalue \<Rightarrow> nat \<Rightarrow> bool" where
  "slot_at h st m s a \<longleftrightarrow> has st m s (if h then Address a else Null) \<and> (h \<longrightarrow> a < length (memory m))"

lemma slot_runs:
  assumes "variable_slot h st = Inr (s, st')" "within C st'"
  shows "\<exists>m'. goes P base C [] st m st' m' \<and> slot_at h st' m' s (length (memory m)) \<and>
    length (memory m') = length (memory m) + (if h then 1 else 0)"
proof (cases h)
  case True
  with assms(1) have "CreateAlloca zval_ptr 1 st = Inr (s, st')" by (simp add: variable_slot_def)
  from alloca_runs [OF this assms(2), of P base m] True show ?thesis by (auto simp: slot_at_def)
next
  case False
  with assms(1) show ?thesis
    by (intro exI [of _ m]) (auto simp: variable_slot_def slot_at_def has_def intro: goes_same)
qed

lemma goes_length: "goes P base C t st m st' m' \<Longrightarrow> length (memory m) \<le> length (memory m')"
  by (simp add: goes_def prefix_length_le)

lemma slot_goes: "goes P base C t st m st' m' \<Longrightarrow> slot_at h st m s a \<Longrightarrow> slot_at h st' m' s a"
  using has_goes [of P base C t st m st' m' s] goes_length [of P base C t st m st' m'] by (auto simp: slot_at_def)

lemma write_slots:
  assumes "hk \<Longrightarrow> n \<le> a \<and> a < length mem" "hv \<Longrightarrow> n \<le> b \<and> b < length mem" "hk \<Longrightarrow> hv \<Longrightarrow> a \<noteq> b"
  shows "\<exists>mem'. Option.bind (write_nullable (if hv then Address b else Null) y mem)
      (write_nullable (if hk then Address a else Null) x) = Some mem' \<and>
    take n mem' = take n mem \<and> length mem' = length mem \<and>
    (hk \<longrightarrow> read_cell mem' a = Some x) \<and> (hv \<longrightarrow> read_cell mem' b = Some y)"
  using assms by (cases hk; cases hv; simp add: write_cell_def read_cell_def)

lemma load_variable_runs:
  assumes "load_variable h s n st = Inr (r, st')" "within C st'" "slot_at h st m s a"
    and "h \<Longrightarrow> read_cell (memory m) a = Some (Zval z)" "h \<Longrightarrow> getType s = PointerTy zval_ptr"
  shows "\<exists>m'. goes P base C [] st m st' m' \<and> memory m' = memory m \<and> pred_option (\<lambda>v. has_typed st' m' v (Zval z)) r"
proof (cases h)
  case True
  with assms(1) obtain v st1 where load: "CreateLoad s st = Inr (v, st1)" and r: "r = Some v" "st' = set_refcount v n st1"
    by (auto simp: load_variable_def bindE_eq_Inr)
  with assms(2) have "within C st1" by simp
  from load_runs [OF _ assms(4) [OF True] load this, of P base] assms(3,5) True obtain m1 where
    1: "goes P base C [] st m st1 m1" "memory m1 = memory m" "has st1 m1 v (Zval z)" "getType v = zval_ptr"
    by (auto simp: slot_at_def)
  with goes_silent [OF 1(1) goes_refcount] has_goes [OF goes_refcount 1(3)] show ?thesis
    by (intro exI [of _ m1]) (auto simp: r has_typed_def)
next
  case False
  with assms(1) show ?thesis
    by (intro exI [of _ m]) (auto simp: load_variable_def intro: goes_same)
qed

lemma variables_run:
  assumes run: "php_createForLoopGetVariables it hk hv st = Inr ((kv, vv), st')" and w: "within C st'"
    and h: "metadata st it = Some (h, p)" "has st m h (Hashtable es)" "has st m p (Address a)"
    and pos: "read_cell (memory m) a = Some (Position ((key, val) # rest))"
  shows "\<exists>m'. goes P base C [] st m st' m' \<and>
    pred_option (\<lambda>v. has_typed st' m' v (Zval key)) kv \<and> pred_option (\<lambda>v. has_typed st' m' v (Zval val)) vv"
proof -
  obtain ks st1 vs st2 u st3 st4 where slots: "variable_slot hk st = Inr (ks, st1)" "variable_slot hv st1 = Inr (vs, st2)"
    and call: "runtime_call ''forloop_getvalues'' [h, p, vs, ks] st2 = Inr (u, st3)"
    and loads: "load_variable hk ks 1 st3 = Inr (kv, st4)" "load_variable hv vs (-1) st4 = Inr (vv, st')"
    using run h(1) by (auto simp: php_createForLoopGetVariables_def bindE_eq_Inr)
  have w4: "within C st4" by (rule within_adds [OF addedD [OF load_added loads(2)] w])
  have w3: "within C st3" by (rule within_adds [OF addedD [OF load_added loads(1)] w4])
  have w2: "within C st2" by (rule within_adds [OF addedD [OF added_call call] w3])
  have w1: "within C st1" by (rule within_adds [OF addedD [OF slot_added slots(2)] w2])
  let ?n = "length (memory m)"
  obtain m1 where 1: "goes P base C [] st m st1 m1" "slot_at hk st1 m1 ks ?n" "length (memory m1) = ?n + (if hk then 1 else 0)"
    using slot_runs [OF slots(1) w1, of P base m] by blast
  obtain m2 where 2: "goes P base C [] st1 m1 st2 m2" "slot_at hv st2 m2 vs (length (memory m1))"
    "length (memory m2) = length (memory m1) + (if hv then 1 else 0)"
    using slot_runs [OF slots(2) w2, of P base m1] by blast
  note 02 = goes_silent [OF 1(1) 2(1)]
  have pos2: "read_cell (memory m2) a = Some (Position ((key, val) # rest))"
    using 02 pos by (auto simp: goes_def intro: read_cell_prefix)
  let ?xk = "if hk then Address ?n else Null" and ?xv = "if hv then Address (length (memory m1)) else Null"
  obtain mem where mem: "Option.bind (write_nullable ?xv (Zval val) (memory m2)) (write_nullable ?xk (Zval key)) = Some mem"
    "take ?n mem = take ?n (memory m2)" "length mem = length (memory m2)"
    "hk \<Longrightarrow> read_cell mem ?n = Some (Zval key)" "hv \<Longrightarrow> read_cell mem (length (memory m1)) = Some (Zval val)"
    using write_slots [of hk ?n ?n "memory m2" hv "length (memory m1)" "Zval val" "Zval key"] 1(3) 2(3) by auto
  have res: "call_runtime P ''forloop_getvalues'' [Hashtable es, Address a, ?xv, ?xk] (memory m2) = Some (Nothing, mem, [])"
    using pos2 mem(1) by (simp add: call_runtime_def call_with_four_def loop_values_def)
  have args: "list_all2 (has st2 m2) [h, p, vs, ks] [Hashtable es, Address a, ?xv, ?xk]"
    using has_goes [OF 02 h(2)] has_goes [OF 02 h(3)] 2(2) slot_goes [OF 2(1) 1(2)] by (simp add: slot_at_def)
  obtain m3 where 3: "moves P base C ?n [] st2 m2 st3 m3" "memory m3 = mem"
    using call_moves [OF call w3 args res mem(2), of base] 1(3) 2(3) mem(3) by auto
  have 03: "goes P base C [] st m st3 m3"
    by (rule moves_goes [OF moves_silent [OF goes_moves [OF 02] 3(1)]]) simp
  have s3: "slot_at hk st3 m3 ks ?n" "slot_at hv st3 m3 vs (length (memory m1))"
    using slot_goes [OF 2(1) 1(2)] 2(2) has_moves [OF 3(1)] 3(2) mem(3) by (auto simp: slot_at_def)
  obtain m4 where 4: "goes P base C [] st3 m3 st4 m4" "memory m4 = memory m3" "pred_option (\<lambda>v. has_typed st4 m4 v (Zval key)) kv"
    using load_variable_runs [OF loads(1) w4 s3(1), of key P base] mem(4) 3(2) variable_slot_type [OF slots(1)] by auto
  obtain m5 where 5: "goes P base C [] st4 m4 st' m5" "pred_option (\<lambda>v. has_typed st' m5 v (Zval val)) vv"
    using load_variable_runs [OF loads(2) w slot_goes [OF 4(1) s3(2)], of val P base] mem(5) 3(2) 4(2) variable_slot_type [OF slots(2)] by auto
  have "pred_option (\<lambda>v. has_typed st' m5 v (Zval key)) kv"
    using 4(3) has_typed_goes [OF 5(1)] by (cases kv) auto
  with goes_silent [OF 03 goes_silent [OF 4(1) 5(1)]] 5(2) show ?thesis by blast
qed

end
