(* ===== verification/Program_Runs.thy ===== *)
theory Program_Runs
  imports Loop_Runs
begin

text \<open>
  The code of a template prints what the template means: by induction on the tree, for lists of
  statements, if blocks and loops.
\<close>

section \<open>Rendering by running\<close>














section \<open>Printing and choosing\<close>








section \<open>Loops\<close>










section \<open>Functions\<close>





end
