(* ===== verification/Engine_Laws.thy ===== *)
theory Engine_Laws
  imports Php_Engine Driver_Laws Program_Runs
begin

text \<open>
  What the extension promises: every function it keeps is well formed, a name stands for one
  function, exceptions have the class of their origin, and a rendered template is what was printed.
\<close>

section \<open>Engines\<close>

lemma bindP_simps [simp]:
  "bindP (Inl f) k = Inl f" "bindP (Inr (Inl e)) k = Inr (Inl e)" "bindP (Inr (Inr x)) k = k x"
  by (simp_all add: bindP_def)

lemma bindP_eq_Inr: "bindP m k = Inr (Inr y) \<longleftrightarrow> (\<exists>x. m = Inr (Inr x) \<and> k x = Inr (Inr y))"
  by (auto simp: bindP_def bindE_def split: sum.splits)

lemma bindP_exception: "bindP m k = Inr (Inl e) \<longleftrightarrow> m = Inr (Inl e) \<or> (\<exists>x. m = Inr (Inr x) \<and> k x = Inr (Inl e))"
  by (auto simp: bindP_def bindE_def split: sum.splits)

lemma catch_Inr [simp]:
  "catch_exception m = Inr (Inr x) \<longleftrightarrow> m = Inr x" "catch_syntax_error m = Inr (Inr x) \<longleftrightarrow> m = Inr x"
  by (auto simp: catch_exception_def catch_syntax_error_def split: sum.splits failure.splits exn.splits)

lemma catch_class:
  "catch_exception m = Inr (Inl (Php_exception c text)) \<longleftrightarrow> c = Default_class \<and> (\<exists>e. m = Inl (Throws e) \<and> text = what e)"
  "catch_syntax_error m = Inr (Inl (Php_exception c text)) \<longleftrightarrow>
     (\<exists>e. m = Inl (Throws e) \<and> text = what e \<and> (c = SyntaxError_class \<longleftrightarrow> (\<exists>msg line. e = SyntaxError msg line)))"
  by (cases c; auto simp: catch_exception_def catch_syntax_error_def split: sum.splits failure.splits exn.splits)+

lemma php_passes: "php_optimizeAST fuel parse base = optimizeAST fuel parse initial_options base"
  by (simp add: php_optimizeAST_def optimizeAST_def initial_options_def fun_eq_iff)

text \<open>The engines that a script can come to, as long as no method has thrown.\<close>

inductive engine_reachable ::
    "('s, 'z, 'h, 'p) engine_zend \<Rightarrow> nat \<Rightarrow> (string \<Rightarrow> ast res) \<Rightarrow> llvm_verifier \<Rightarrow> 'h engine_object \<Rightarrow> bool"
  for Z fuel parse verifier where
  created: "new_engine Z s = (engine, s') \<Longrightarrow> engine_reachable Z fuel parse verifier engine"
| constructed: "engine_reachable Z fuel parse verifier engine \<Longrightarrow>
     engine_reachable Z fuel parse verifier (Engine_construct arguments engine)"
| parsed: "engine_reachable Z fuel parse verifier engine \<Longrightarrow>
     Engine_parseTemplate fuel parse verifier arguments engine = Inr (Inr (templ, engine')) \<Longrightarrow>
     engine_reachable Z fuel parse verifier engine'"

text \<open>
  Between the methods no loop variable is bound, the module passed the verifier when it got its last
  function, and every function that has a name is a verified one of the module.
\<close>

definition verified_module :: "llvm_verifier \<Rightarrow> llvm_function list \<Rightarrow> bool" where
  "verified_module verifier fs \<longleftrightarrow> fs = [] \<or> \<not> verifyModule verifier fs"

definition backend_ok :: "llvm_verifier \<Rightarrow> llvm_backend \<Rightarrow> bool" where
  "backend_ok verifier b \<longleftrightarrow> m_overriden_variables (m_visitor b) = Map.empty \<and>
     verified_module verifier (m_module b) \<and>
     (\<forall>name f. m_functions b name = Some f \<longrightarrow>
        well_formed_function f \<and> \<not> verifyFunction verifier f \<and> f \<in> set (m_module b))"

lemma createFunction_ok:
  assumes "createFunction verifier name a b = Inr (f, b')" and "backend_ok verifier b"
  shows "backend_ok verifier b' \<and> m_functions b' name = Some f \<and>
    (\<forall>other f. m_functions b other = Some f \<longrightarrow> m_functions b' other = Some f)"
proof (cases "m_functions b name")
  case None
  with assms have f: "llvm_visit php_bindings a (m_visitor b) = Inr f" "\<not> verifyFunction verifier f"
      "\<not> verifyModule verifier (m_module b @ [f])"
    and b': "b' = b\<lparr>m_module := m_module b @ [f], m_visitor := f, m_functions := (m_functions b)(name \<mapsto> f)\<rparr>"
    by (auto simp: createFunction_def bindE_eq_Inr Let_def split: if_splits)
  from php.visit_well_formed [OF f(1)] f(2,3) b' assms(2) None show ?thesis
    by (auto simp: backend_ok_def verified_module_def)
qed (use assms in \<open>auto simp: createFunction_def\<close>)

lemma parseTemplate_ok:
  assumes "Engine_parseTemplate fuel parse verifier arguments engine = Inr (Inr (templ, engine'))"
    and "backend_ok verifier (backend engine)"
  shows "backend_ok verifier (backend engine')"
  using assms createFunction_ok
  by (fastforce simp: Engine_parseTemplate_def bindP_eq_Inr split: option.splits)

lemma reachable_ok: "engine_reachable Z fuel parse verifier engine \<Longrightarrow> backend_ok verifier (backend engine)"
proof (induction rule: engine_reachable.induct)
  case (created s engine s')
  then show ?case
    by (auto simp: new_engine_def new_llvm_backend_def backend_ok_def verified_module_def new_llvm_visitor_def
        split: prod.splits)
next
  case (constructed engine arguments)
  then show ?case by (auto simp: Engine_construct_def split: option.splits)
next
  case (parsed engine arguments templ engine')
  then show ?case using parseTemplate_ok by blast
qed

text \<open>The example of the witnesses: an engine and a template of raw text.\<close>

abbreviation example_parse :: "string \<Rightarrow> ast res" where
  "example_parse path \<equiv> Inr (RawBlock ''ab'')"

abbreviation accepting_verifier :: llvm_verifier where
  "accepting_verifier \<equiv> \<lparr>verifyFunction = (\<lambda>_. False), verifyModule = (\<lambda>_. False)\<rparr>"

abbreviation refusing_verifier :: llvm_verifier where
  "refusing_verifier \<equiv> \<lparr>verifyFunction = (\<lambda>_. False), verifyModule = (\<lambda>_. True)\<rparr>"

lemma example_optimised: "php_optimizeAST 3 example_parse base (RawBlock ''ab'') = Inr (RawBlock ''ab'')"
  by (simp add: php_passes initial_options_def all_enabled_def optimizeAST_all eval_nat_numeral resolve_Suc
      fold_all_wrapper wrapper_walk ConvertLiteralPrintBlockToRawBlockPass_def convert.process_simps coalesce_walk)

lemma example_engine:
  "\<exists>engine templ engine'. engine_reachable Z 3 example_parse accepting_verifier engine \<and>
     Engine_parseTemplate 3 example_parse accepting_verifier (Some ''x'') engine = Inr (Inr (Some templ, engine')) \<and>
     backend engine = new_llvm_backend"
proof -
  obtain engine s where engine: "new_engine Z undefined = (engine, s)" by force
  then have b: "backend engine = new_llvm_backend" by (auto simp: new_engine_def split: prod.splits)
  then have "m_functions (backend engine) = Map.empty" "m_visitor (backend engine) = new_llvm_visitor new_php_bindings"
    by (simp_all add: new_llvm_backend_def)
  moreover have "\<not> isl (llvm_visit php_bindings (RawBlock ''ab'') (new_llvm_visitor new_php_bindings))"
    by (simp add: php_eval getArgumentAtIdx_def)
  then obtain f where "llvm_visit php_bindings (RawBlock ''ab'') (new_llvm_visitor new_php_bindings) = Inr f"
    by (metis isl_def obj_sumE)
  ultimately have "\<exists>templ engine'. Engine_parseTemplate 3 example_parse accepting_verifier (Some ''x'') engine =
      Inr (Inr (Some templ, engine'))"
    by (simp add: Engine_parseTemplate_def catch_syntax_error_def catch_exception_def example_optimised createFunction_def)
  then show ?thesis using engine_reachable.created [OF engine] b by blast
qed

text \<open>
  C26: (functions of an engine) In every engine that a script can come to without an exception, a
  template that is parsed gets a well-formed function, a function of the module that passed the verifier
  and which from then on is the function of its name: no method replaces it.  The module passed the
  verifier with it.  (An exception of the visitor ends the guarantee: it leaves loop variables bound.)
\<close>

theorem engine_keeps_well_formed_functions:
  assumes "engine_reachable Z fuel parse verifier engine"
    and "Engine_parseTemplate fuel parse verifier (Some name) engine = Inr (Inr (Some templ, engine'))"
  shows "well_formed_function (renderFunc templ) \<and> \<not> verifyFunction verifier (renderFunc templ) \<and>
    renderFunc templ \<in> set (m_module (backend engine')) \<and>
    \<not> verifyModule verifier (m_module (backend engine')) \<and>
    m_functions (backend engine') name = Some (renderFunc templ) \<and>
    (\<forall>other f. m_functions (backend engine) other = Some f \<longrightarrow> m_functions (backend engine') other = Some f)"
proof -
  from assms(2) obtain a func b' where f: "createFunction verifier name a (backend engine) = Inr (func, b')"
    and templ: "renderFunc templ = func" "backend engine' = b'"
    by (auto simp: Engine_parseTemplate_def bindP_eq_Inr)
  from createFunction_ok [OF f reachable_ok [OF assms(1)]] templ show ?thesis
    by (auto simp: backend_ok_def verified_module_def)
qed

theorem engine_keeps_well_formed_functions_witness:
  "\<forall>Z :: (unit, nat, nat, nat) engine_zend. \<exists>engine templ engine'.
     Engine_parseTemplate 3 example_parse accepting_verifier (Some ''x'') engine = Inr (Inr (Some templ, engine')) \<and>
     well_formed_function (renderFunc templ) \<and> renderFunc templ \<in> set (m_module (backend engine')) \<and>
     m_functions (backend engine') ''x'' = Some (renderFunc templ)"
  using example_engine engine_keeps_well_formed_functions by fast







text \<open>
  Caching by name: when a name has a function, parsing a template of that name again yields the
  same function and leaves the engine as it is, whatever the file holds by then and whatever the base
  path is; only the exceptions of reading and of the passes still come out.
\<close>

theorem templates_are_cached_by_name:
  assumes "m_functions (backend engine) name = Some f"
    and "parse (template_path (basePath engine) name) = Inr a"
    and "optimizeAST fuel parse initial_options (basePath engine) a = Inr a'"
  shows "Engine_parseTemplate fuel parse verifier (Some name) engine =
    Inr (Inr (Some \<lparr>estimatedBufferSize = 200, renderFunc = f\<rparr>, engine))"
  using assms
  by (simp add: Engine_parseTemplate_def catch_syntax_error_def catch_exception_def php_passes createFunction_def)

theorem templates_are_cached_by_name_witness:
  "let f = new_llvm_visitor new_php_bindings;
       engine = \<lparr>registeredFunctions = (), basePath = [],
         backend = \<lparr>m_module = [f], m_visitor = f, m_functions = [''x'' \<mapsto> f]\<rparr>\<rparr>
   in Engine_parseTemplate 3 example_parse refusing_verifier (Some ''x'') engine =
      Inr (Inr (Some \<lparr>estimatedBufferSize = 200, renderFunc = f\<rparr>, engine))"
  unfolding Let_def
  by (rule templates_are_cached_by_name) (simp, simp, simp, rule example_optimised [unfolded php_passes])

text \<open>
  C31: (classes of exceptions) A method call of \<open>parseTemplate\<close> throws a \<open>b2\SyntaxError\<close> exactly for a
  syntax error in the template itself; a syntax error in an included file, like every other exception,
  comes out as a plain \<open>Exception\<close>.
\<close>

theorem syntax_errors_of_the_template_only:
  assumes "Engine_parseTemplate fuel parse verifier (Some name) engine = Inr (Inl (Php_exception c text))"
  shows "c = SyntaxError_class \<longleftrightarrow>
    (\<exists>msg line. parse (template_path (basePath engine) name) = Inl (Throws (SyntaxError msg line)))"
  using assms by (auto simp: Engine_parseTemplate_def bindP_exception catch_class)

theorem syntax_errors_witness:
  "\<not> (\<exists>msg line. example_parse (template_path [] ''x'') = Inl (Throws (SyntaxError msg line)))"
proof -
  let ?engine = "\<lparr>registeredFunctions = (), basePath = [], backend = new_llvm_backend\<rparr>"
  have "Engine_parseTemplate 3 example_parse refusing_verifier (Some ''x'') ?engine =
      Inr (Inl (Php_exception Default_class ''Error occured during verification of IR!''))"
    by (simp add: Engine_parseTemplate_def catch_syntax_error_def catch_exception_def example_optimised
        createFunction_def new_llvm_backend_def php_eval getArgumentAtIdx_def)
  from syntax_errors_of_the_template_only [OF this] show ?thesis by simp
qed

section \<open>Rendering\<close>

text \<open>
  C25: (rendered text) When the function of a template prints the given texts one after the other, the
  result of rendering is a block that holds their concatenation, with its length, inside the bounds of
  the block; it ends with the terminator if anything was printed at all.  If nothing was printed the
  block is the fresh memory as it was.
\<close>

theorem rendered_text:
  assumes "\<And>b. run (renderFunc templ) assignments (registeredFunctions engine) b s =
      bindE (add_all garbage strs b) (\<lambda>b. Inr (b, s'))"
    and "estimatedBufferSize templ = 200" and "\<forall>str \<in> set strs. length str + 1 < 2 ^ 31"
    and "(\<Sum>str\<leftarrow>strs. length str + 257) < 2 ^ 64 - 200"
  shows "\<exists>block. render_template garbage run assignments engine templ s = Inr ((block, length (concat strs)), s') \<and>
    take (length (concat strs)) block = concat strs \<and> length (concat strs) \<le> length block \<and>
    (if strs = [] then block = map garbage [0..<200]
     else length (concat strs) < length block \<and> block ! length (concat strs) = nul)"
proof -
  let ?b = "init_buffer garbage 200"
  have ok: "buffer_ok ?b" "contents ?b = []" "unat (allocated_length ?b) = 200"
    by (simp_all add: buffer_ok_def contents_def init_buffer_def)
  show ?thesis
  proof (rule add_all_spec [OF ok(1) assms(3), of garbage])
    show "unat (allocated_length ?b) + (\<Sum>str\<leftarrow>strs. length str + 257) < 2 ^ 64"
      using assms(4) ok(3) by simp
    fix b' assume b': "add_all garbage strs ?b = Inr b'" "buffer_ok b'" "contents b' = contents ?b @ concat strs"
      "strs \<noteq> [] \<longrightarrow> terminated b'"
    have length: "unat (str_length b') = length (concat strs)"
      using b'(2,3) ok(2) by (metis append_Nil buffer_ok_def contents_def length_take min.absorb2 word_le_nat_alt)
    have "render_template garbage run assignments engine templ s = Inr ((ptr b', length (concat strs)), s')"
      using assms(1,2) b'(1) length by (simp add: render_template_def)
    moreover have "take (length (concat strs)) (ptr b') = concat strs"
      using b'(3) ok(2) length by (simp add: contents_def)
    moreover have "length (concat strs) \<le> length (ptr b')"
      using b'(2) length by (simp add: buffer_ok_def word_le_nat_alt)
    moreover have "if strs = [] then ptr b' = map garbage [0..<200]
        else length (concat strs) < length (ptr b') \<and> ptr b' ! length (concat strs) = nul"
      using b' length by (auto simp: terminated_def buffer_ok_def word_less_nat_alt init_buffer_def)
    ultimately show ?thesis by blast
  qed
qed

theorem rendered_text_witness:
  "\<exists>block. take 2 block = ''ab'' \<and> block ! 2 = nul \<and>
     render_template (\<lambda>_. CHR ''x'') (\<lambda>f a fs b s. bindE (add_all (\<lambda>_. CHR ''x'') [''a'', ''b''] b) (\<lambda>b. Inr (b, s)))
       () \<lparr>registeredFunctions = (), basePath = [], backend = new_llvm_backend\<rparr>
       \<lparr>estimatedBufferSize = 200, renderFunc = new_llvm_visitor new_php_bindings\<rparr> () = Inr ((block, 2), ())"
proof -
  let ?run = "\<lambda>f a fs b s. bindE (add_all (\<lambda>_. CHR ''x'') [''a'', ''b''] b) (\<lambda>b. Inr (b, s))"
    and ?templ = "\<lparr>estimatedBufferSize = 200, renderFunc = new_llvm_visitor new_php_bindings\<rparr>"
    and ?engine = "\<lparr>registeredFunctions = (), basePath = [], backend = new_llvm_backend\<rparr>"
  have "\<exists>block. render_template (\<lambda>_. CHR ''x'') ?run () ?engine ?templ () = Inr ((block, length (concat [''a'', ''b''])), ()) \<and>
    take (length (concat [''a'', ''b''])) block = concat [''a'', ''b''] \<and> length (concat [''a'', ''b'']) \<le> length block \<and>
    (if [''a'', ''b''] = [] then block = map (\<lambda>_. CHR ''x'') [0..<200]
     else length (concat [''a'', ''b'']) < length block \<and> block ! length (concat [''a'', ''b'']) = nul)"
    by (rule rendered_text) simp_all
  then show ?thesis by (auto simp: numeral_2_eq_2 simp del: add_all.simps)
qed

end
