(* ===== verification/Simple_Runtime.thy ===== *)
theory Simple_Runtime
  imports Expressions
begin

text \<open>
  The run-time functions of the simple bindings, which print to the standard output:
  \<open>src/simple/simple_bindings_functions.c\<close>, over the variants of \<open>src/simple/simple_variant.h\<close>.
  An operation that can complain returns what it wrote to the standard error stream; a function that
  ends without a result is undefined for its caller, who uses the result.
\<close>

section \<open>Variants\<close>

datatype VariantType =
    VariantNoneType | VariantDoubleType | VariantIntegerType | VariantBoolType | VariantStringType
  | VariantArrayType | VariantMapType

text \<open>The tag with the member of the union that it stands for; arrays and maps are addresses.\<close>

datatype Variant =
    Variant_none
  | Variant_double double
  | Variant_integer long
  | Variant_bool bool
  | Variant_string string
  | Variant_array nat
  | Variant_map nat

fun variant_tag :: "Variant \<Rightarrow> VariantType" where
  "variant_tag Variant_none = VariantNoneType"
| "variant_tag (Variant_double d) = VariantDoubleType"
| "variant_tag (Variant_integer l) = VariantIntegerType"
| "variant_tag (Variant_bool b) = VariantBoolType"
| "variant_tag (Variant_string s) = VariantStringType"
| "variant_tag (Variant_array a) = VariantArrayType"
| "variant_tag (Variant_map m) = VariantMapType"

fun type_to_string :: "VariantType \<Rightarrow> string" where
  "type_to_string VariantNoneType = ''none''"
| "type_to_string VariantDoubleType = ''double''"
| "type_to_string VariantIntegerType = ''integer''"
| "type_to_string VariantBoolType = ''bool''"
| "type_to_string VariantStringType = ''string''"
| "type_to_string VariantArrayType = ''array''"
| "type_to_string VariantMapType = ''map''"

section \<open>Printing\<close>

definition simple_print_double :: "double \<Rightarrow> string" where
  "simple_print_double v = format_f v"

definition simple_print_integer :: "long \<Rightarrow> string" where
  "simple_print_integer v = string_of_long v"

definition simple_print_boolean :: "bool \<Rightarrow> string" where
  "simple_print_boolean v = (if v then ''1'' else ''0'')"

definition simple_print_string :: "string \<Rightarrow> string" where
  "simple_print_string v = v"

fun simple_print_variant :: "Variant \<Rightarrow> string" where
  "simple_print_variant (Variant_string s) = simple_print_string s"
| "simple_print_variant (Variant_double d) = simple_print_double d"
| "simple_print_variant (Variant_integer l) = simple_print_integer l"
| "simple_print_variant (Variant_bool b) = simple_print_boolean b"
| "simple_print_variant _ = []"

section \<open>Operators\<close>

definition simple_short :: "char \<Rightarrow> char \<Rightarrow> 16 word" where
  "simple_short x y = word_of_int (code_of_char x OR push_bit 8 (code_of_char y))"

definition is_number :: "Variant \<Rightarrow> bool" where
  "is_number v \<longleftrightarrow> variant_tag v = VariantDoubleType \<or> variant_tag v = VariantIntegerType"

text \<open>The conditional expression of a \<open>double\<close> and a \<open>long\<close> is a \<open>double\<close>.\<close>

fun number_as_double :: "Variant \<Rightarrow> double" where
  "number_as_double (Variant_double d) = d"
| "number_as_double (Variant_integer l) = double_of_long l"
| "number_as_double _ = NaN"

definition not_a_number :: "string \<Rightarrow> Variant \<Rightarrow> string" where
  "not_a_number side v = side @ '' isn'' @ [squote] @ ''t a double nor an integer, but a '' @
     type_to_string (variant_tag v) @ ''!''"

definition simple_compare_variant :: "16 word \<Rightarrow> Variant \<Rightarrow> Variant \<Rightarrow> bool res \<times> string" where
  "simple_compare_variant op left right =
     (if \<not> is_number left then (Inr False, not_a_number ''left'' left)
      else if \<not> is_number right then (Inr False, not_a_number ''right'' right)
      else let l = number_as_double left; r = number_as_double right
           in if op = simple_short CHR ''='' CHR ''='' then (Inr (deq l r), [])
              else if op = simple_short CHR ''!'' CHR ''='' then (Inr (\<not> deq l r), [])
              else if op = simple_short CHR ''<'' CHR ''='' then (Inr (dle l r), [])
              else if op = simple_short CHR ''>'' CHR ''='' then (Inr (dle r l), [])
              else if op = simple_short CHR ''>'' nul then (Inr (dlt r l), [])
              else if op = simple_short CHR ''<'' nul then (Inr (dlt l r), [])
              else (Inl (Undefined MissingReturn),
                    ''unknown compare operation: '' @
                    [char_of (uint (op div 256)), char_of (uint (op AND 255))] @ ''!''))"

definition unknown_binary :: "char \<Rightarrow> Variant res \<times> string" where
  "unknown_binary op = (Inl (Undefined MissingReturn), ''unknown binary operation: '' @ [op] @ ''!'')"

definition double_result :: "double \<Rightarrow> Variant res \<times> string" where
  "double_result d = (Inr (Variant_double d), [])"

definition integer_result :: "long res \<Rightarrow> Variant res \<times> string" where
  "integer_result r = (bindE r (\<lambda>l. Inr (Variant_integer l)), [])"

definition simple_binary_variant_operation :: "char \<Rightarrow> Variant \<Rightarrow> Variant \<Rightarrow> Variant res \<times> string" where
  "simple_binary_variant_operation op left right =
     (if \<not> is_number left then (Inr (Variant_integer 0), not_a_number ''left'' left)
      else if \<not> is_number right then (Inr (Variant_integer 0), not_a_number ''right'' right)
      else case (left, right) of
        (Variant_integer l, Variant_integer r) \<Rightarrow>
          if op = CHR ''+'' then integer_result (long_add l r)
          else if op = CHR ''-'' then integer_result (long_sub l r)
          else if op = CHR ''*'' then integer_result (long_mul l r)
          else if op = CHR ''/'' then integer_result (long_div l r)
          else if op = CHR ''%'' then integer_result (long_mod l r)
          else unknown_binary op
      | _ \<Rightarrow>
          let l = number_as_double left; r = number_as_double right
          in if op = CHR ''+'' then double_result (dadd l r)
             else if op = CHR ''-'' then double_result (dsub l r)
             else if op = CHR ''*'' then double_result (dmul l r)
             else if op = CHR ''/'' then double_result (ddiv l r)
             else if op = CHR ''%''
             then (Inl (Undefined MissingReturn), ''can'' @ [squote] @ ''t do modulus operation on float values!'')
             else unknown_binary op)"

section \<open>Lookup\<close>

text \<open>The array of keys and values ends with a null pointer as key.\<close>

fun simple_lookup_variable :: "(string option \<times> Variant) list \<Rightarrow> string \<Rightarrow> Variant res" where
  "simple_lookup_variable [] key = Inl (Undefined OutOfBounds)"
| "simple_lookup_variable ((None, v) # entries) key = Inr (Variant_bool False)"
| "simple_lookup_variable ((Some k, v) # entries) key =
     (if k = key then Inr v else simple_lookup_variable entries key)"

section \<open>What holds of them\<close>

lemma simple_lookup_spec:
  "simple_lookup_variable (map (\<lambda>(k, v). (Some k, v)) m @ [(None, w)]) key =
   Inr (case map_of m key of None \<Rightarrow> Variant_bool False | Some v \<Rightarrow> v)"
  by (induction m) auto

text \<open>
  C39: (operator codes of the simple run-time) With two numbers, integers or doubles, the run-time functions know the code of
  one comparison that the backend emits, equality; for every other comparison operator the function
  ends without a result, because it builds its codes with the bytes in the other order.  The
  arithmetic operators are known, except for the modulus of doubles.
\<close>

theorem simple_runtime_knows_equality_only:
  assumes "is_number l" "is_number r"
  shows "fst (simple_compare_variant (word_of_int (comparison_code cop)) l r) =
      (if cop = Equal then Inr (deq (number_as_double l) (number_as_double r)) else Inl (Undefined MissingReturn)) \<and>
    (fst (simple_binary_variant_operation (binary_char bop) l r) = Inl (Undefined MissingReturn) \<longleftrightarrow>
      bop = Modulus \<and> (variant_tag l = VariantDoubleType \<or> variant_tag r = VariantDoubleType))"
proof
  show "fst (simple_compare_variant (word_of_int (comparison_code cop)) l r) =
      (if cop = Equal then Inr (deq (number_as_double l) (number_as_double r)) else Inl (Undefined MissingReturn))"
    using assms
    by (cases cop) (simp_all add: simple_compare_variant_def simple_short_def pack_uint16_def code_of_char_def Let_def)
  have "long_of_int i \<noteq> Inl (Undefined MissingReturn)" for i by (simp add: long_of_int_def)
  then have integers: "fst (integer_result (long_add a b)) \<noteq> Inl (Undefined MissingReturn)"
    "fst (integer_result (long_sub a b)) \<noteq> Inl (Undefined MissingReturn)"
    "fst (integer_result (long_mul a b)) \<noteq> Inl (Undefined MissingReturn)"
    "fst (integer_result (long_div a b)) \<noteq> Inl (Undefined MissingReturn)"
    "fst (integer_result (long_mod a b)) \<noteq> Inl (Undefined MissingReturn)" for a b
    by (auto simp: integer_result_def long_add_def long_sub_def long_mul_def long_div_def
        long_mod_def bindE_eq_Inl split: if_splits)
  show "fst (simple_binary_variant_operation (binary_char bop) l r) = Inl (Undefined MissingReturn) \<longleftrightarrow>
      bop = Modulus \<and> (variant_tag l = VariantDoubleType \<or> variant_tag r = VariantDoubleType)"
    using assms
    by (cases bop; cases l; cases r)
      (simp_all add: simple_binary_variant_operation_def is_number_def double_result_def unknown_binary_def
        integers Let_def)
qed

theorem simple_runtime_witness:
  "fst (simple_compare_variant (word_of_int (comparison_code LessThan)) (Variant_integer 1) (Variant_integer 2)) =
     Inl (Undefined MissingReturn)"
  using simple_runtime_knows_equality_only [of "Variant_integer 1" "Variant_integer 2" LessThan Addition]
  by (simp add: is_number_def)

theorem simple_runtime_knows_equality_only_witness:
  "fst (simple_compare_variant (word_of_int (comparison_code LessThan)) (Variant_integer 1) (Variant_integer 2)) =
      Inl (Undefined MissingReturn) \<and>
    fst (simple_binary_variant_operation (binary_char Modulus) (Variant_integer 1) (Variant_integer 2)) \<noteq>
      Inl (Undefined MissingReturn)"
  using simple_runtime_knows_equality_only [of "Variant_integer 1" "Variant_integer 2" LessThan Modulus]
  by (simp add: is_number_def)

end
