(* ===== verification/Rendering_Laws.thy ===== *)
theory Rendering_Laws
  imports Rendering Driver_Laws
begin

text \<open>
  The passes keep the meaning of a template: folding, if the run-time library computes with literals
  as the folding does; the conversion of printed literals, if it prints them as the pass does; the
  joining of raw blocks always; and the resolution of inclusions, if the included files do not read
  their loop variables, which the pass does not handle.
\<close>

section \<open>Folding\<close>

text \<open>The operators of the library give the literals that folding gives.\<close>

definition computes_like_folding :: "'v runtime \<Rightarrow> bool" where
  "computes_like_folding R \<longleftrightarrow>
     (\<forall>l r op e. isLiteralExpression l \<longrightarrow> isLiteralExpression r \<longrightarrow> isLiteralExpression e \<longrightarrow>
        fold_binary_node l r op = Inr e \<longrightarrow>
        binary_value R op (literal_value R l) (literal_value R r) = Some (literal_value R e)) \<and>
     (\<forall>l op e. isLiteralExpression l \<longrightarrow> isLiteralExpression e \<longrightarrow> fold_unary_node l op = Inr e \<longrightarrow>
        unary_value R op (literal_value R l) = Some (literal_value R e)) \<and>
     (\<forall>l r op e. isLiteralExpression l \<longrightarrow> isLiteralExpression r \<longrightarrow> isLiteralExpression e \<longrightarrow>
        fold_comparison_node l r op = Inr e \<longrightarrow>
        comparison_value R op (literal_value R l) (literal_value R r) = Some (literal_value R e))"

lemma expr_value_literal [simp]: "isLiteralExpression e \<Longrightarrow> expr_value R env e = Some (literal_value R e)"
  by (cases e) auto

lemma folded_operands:
  "fold_binary_node l r op = Inr e \<Longrightarrow> e = BinaryOperation l r op \<or>
     isLiteralExpression l \<and> isLiteralExpression r \<and> isLiteralExpression e"
  "fold_unary_node l uop = Inr e \<Longrightarrow> e = UnaryOperation l uop \<or> isLiteralExpression l \<and> isLiteralExpression e"
  "fold_comparison_node l r cop = Inr e \<Longrightarrow> e = Comparison l r cop \<or>
     isLiteralExpression l \<and> isLiteralExpression r \<and> isLiteralExpression e"
  using fold_binary_node_cases [of l r op e] fold_unary_node_cases [of l uop e] fold_comparison_node_cases [of l r cop e]
  by (auto simp: fold_binary_node_def fold_unary_node_def fold_unary_boolean_def fold_unary_numeric_def
      fold_comparison_node_def Let_def split: if_splits expr.splits)

lemma folded_node_value:
  assumes "computes_like_folding R"
  shows "fold_binary_node l r op = Inr e \<Longrightarrow> expr_value R env e = expr_value R env (BinaryOperation l r op)"
    and "fold_unary_node l uop = Inr e \<Longrightarrow> expr_value R env e = expr_value R env (UnaryOperation l uop)"
    and "fold_comparison_node l r cop = Inr e \<Longrightarrow> expr_value R env e = expr_value R env (Comparison l r cop)"
proof -
  note R = assms [unfolded computes_like_folding_def]
  show "fold_binary_node l r op = Inr e \<Longrightarrow> expr_value R env e = expr_value R env (BinaryOperation l r op)"
    using folded_operands(1) [of l r op e] conjunct1 [OF R] by auto
  show "fold_unary_node l uop = Inr e \<Longrightarrow> expr_value R env e = expr_value R env (UnaryOperation l uop)"
    using folded_operands(2) [of l uop e] conjunct1 [OF conjunct2 [OF R]] by auto
  show "fold_comparison_node l r cop = Inr e \<Longrightarrow> expr_value R env e = expr_value R env (Comparison l r cop)"
    using folded_operands(3) [of l r cop e] conjunct2 [OF conjunct2 [OF R]] by auto
qed

lemma walked_arguments_value:
  assumes "walk_arguments f as = Inr bs" and "\<And>e e'. Some e \<in> set as \<Longrightarrow> f e = Inr e' \<Longrightarrow> g e' = h e"
  shows "map (\<lambda>p. Option.bind p g) bs = map (\<lambda>p. Option.bind p h) as"
  using assms
proof (induction as arbitrary: bs)
  case (Cons a as)
  then obtain e e' cs where e: "a = Some e" "f e = Inr e'" "walk_arguments f as = Inr cs" "bs = Some e' # cs"
    by (cases a) (auto simp: walk_arguments_Cons bindE_eq_Inr)
  moreover have "g e' = h e" by (rule Cons.prems(2) [OF _ e(2)]) (simp add: e(1))
  moreover have "map (\<lambda>p. Option.bind p g) cs = map (\<lambda>p. Option.bind p h) as"
    by (rule Cons.IH [OF e(3)]) (rule Cons.prems(2), simp_all)
  ultimately show ?case by simp
qed simp

lemma fold_keeps_value:
  assumes R: "computes_like_folding R"
  shows "fold_ref e = Inr e' \<Longrightarrow> expr_value R env e' = expr_value R env e"
proof (induction e arbitrary: e')
  case (MethodCall name as)
  then obtain bs where bs: "walk_arguments fold_ref as = Inr bs" "e' = MethodCall name bs" by (auto simp: bindE_eq_Inr)
  have "map (\<lambda>p. Option.bind p (expr_value R env)) bs = map (\<lambda>p. Option.bind p (expr_value R env)) as"
    by (rule walked_arguments_value [OF bs(1)]) (rule MethodCall.IH, auto)
  with bs(2) show ?case by simp
next
  case (BinaryOperation l r op)
  then obtain l' r' where "fold_ref l = Inr l'" "fold_ref r = Inr r'" and e': "fold_binary_node l' r' op = Inr e'"
    by (auto simp: bindE_eq_Inr)
  with BinaryOperation.IH have "expr_value R env l' = expr_value R env l" "expr_value R env r' = expr_value R env r" by auto
  with folded_node_value(1) [OF R e'] show ?case by simp
next
  case (UnaryOperation u op)
  then obtain u' where "fold_ref u = Inr u'" and e': "fold_unary_node u' op = Inr e'"
    by (auto simp: bindE_eq_Inr)
  with UnaryOperation.IH have "expr_value R env u' = expr_value R env u" by auto
  with folded_node_value(2) [OF R e'] show ?case by simp
next
  case (Comparison l r op)
  then obtain l' r' where "fold_ref l = Inr l'" "fold_ref r = Inr r'" and e': "fold_comparison_node l' r' op = Inr e'"
    by (auto simp: bindE_eq_Inr)
  with Comparison.IH have "expr_value R env l' = expr_value R env l" "expr_value R env r' = expr_value R env r" by auto
  with folded_node_value(3) [OF R e'] show ?case by simp
qed (auto simp: bindE_eq_Inr)

text \<open>An inclusion has the same meaning when its expressions have the same values.\<close>

lemma walk_mapping_lookup:
  "walk_mapping f m = Inr m' \<Longrightarrow>
   (case map_of m x of None \<Rightarrow> map_of m' x = None | Some e \<Rightarrow> \<exists>e'. f e = Inr e' \<and> map_of m' x = Some e')"
  unfolding walk_mapping_def
proof (induction m arbitrary: m')
  case (Cons p m)
  then show ?case by (cases p) (fastforce simp: bindE_eq_Inr split: option.splits)
qed simp

lemma folded_environment:
  assumes R: "computes_like_folding R" and "optE fold_ref s = Inr s'" and m: "walk_mapping fold_ref m = Inr m'"
  shows "included_environment R env s' m' = included_environment R env s m"
proof (cases s)
  case None
  have "Option.bind (map_of m' x) (expr_value R env) = Option.bind (map_of m x) (expr_value R env)" for x
    using walk_mapping_lookup [OF m, of x] fold_keeps_value [OF R] by (auto split: option.splits)
  with None assms(2) show ?thesis by (auto simp: included_environment_def)
next
  case (Some e)
  with assms(2) fold_keeps_value [OF R] show ?thesis by (auto simp: included_environment_def bindE_eq_Inr)
qed

lemma folding_renders:
  assumes R: "computes_like_folding R" and "fold_all a = Inr r"
  shows "render R base parse n env r = render R base parse n env a"
proof (cases n)
  case (Suc m)
  define inc where "inc = (\<lambda>env name s mapping. case parse (resolvePath base name) of Inl _ \<Rightarrow> stop
      | Inr t \<Rightarrow> render R base parse m (included_environment R env s mapping) t)"
  have "render_tree R inc env r = render_tree R inc env a"
  proof (rule wrapper.process_renders)
    show "ast_process (\<lambda>_. wrapper_node fold_ref) a = Inr r" using assms(2) by (simp add: fold_all_wrapper)
    fix name s mapping r env assume "wrapper_node fold_ref (IncludeBlock name s mapping) = Inr r"
    then obtain s' mapping' where r: "r = IncludeBlock name s' mapping'"
      and folded: "optE fold_ref s = Inr s'" "walk_mapping fold_ref mapping = Inr mapping'"
      by (auto simp: bindE_eq_Inr)
    show "render_tree R inc env r = inc env name s mapping"
      by (simp add: r inc_def folded_environment [OF R folded] split: sum.split)
  qed (use fold_keeps_value [OF R] in \<open>auto simp: bindE_eq_Inr\<close>)
  then show ?thesis using Suc by (simp add: inc_def)
qed simp

section \<open>Raw text\<close>

definition prints_like_the_pass :: "'v runtime \<Rightarrow> bool" where
  "prints_like_the_pass R \<longleftrightarrow> (\<forall>e. isLiteralExpression e \<longrightarrow> text_of R (literal_value R e) = literal_text e)"

lemma conversion_renders:
  assumes "prints_like_the_pass R" and "ast_process ConvertLiteralPrintBlockToRawBlockPass a = Inr r"
  shows "render_tree R inc env r = render_tree R inc env a"
proof (rule convert.process_renders)
  show "ast_process (\<lambda>_. convert_node) a = Inr r"
    using assms(2) by (simp add: ConvertLiteralPrintBlockToRawBlockPass_def)
qed (use assms(1) in \<open>auto simp: prints_like_the_pass_def\<close>)

lemma raw_run: "in_sequence (map (render_tree R inc env) rest) =
    followed_by (concat (gather_raw rest), True) (in_sequence (map (render_tree R inc env) (dropWhile is_raw rest)))"
proof (induction rest)
  case (Cons x rest)
  then show ?case by (cases x) (auto simp: gather_raw_def followed_by_def)
qed (simp add: gather_raw_def)

lemma coalesced_list_renders:
  "in_sequence (map (render_tree R inc env) (coalesce_statements xs)) = in_sequence (map (render_tree R inc env) xs)"
proof (induction xs rule: coalesce_induct)
  case (Raw t rest)
  then show ?case
    by (simp add: coalesce_raw_run raw_run [of R inc env rest] followed_by_def del: coalesce_statements.simps)
qed auto

lemma coalescing_renders:
  assumes "ast_process CoalesceRawBlocksPass a = Inr r"
  shows "render_tree R inc env r = render_tree R inc env a"
proof (rule coalesce.process_renders)
  show "ast_process (\<lambda>_. coalesce_node) a = Inr r"
    using assms by (simp add: CoalesceRawBlocksPass_def)
qed (auto simp: coalesced_list_renders)

section \<open>Inclusions\<close>

lemma expr_value_cong: "(\<And>x. x \<in> set (expr_vars e) \<Longrightarrow> env x = env' x) \<Longrightarrow> expr_value R env e = expr_value R env' e"
proof (induction e)
  case (MethodCall name as)
  have "map (\<lambda>p. Option.bind p (expr_value R env)) as = map (\<lambda>p. Option.bind p (expr_value R env')) as"
  proof (rule map_cong [OF refl])
    fix p assume p: "p \<in> set as"
    show "Option.bind p (expr_value R env) = Option.bind p (expr_value R env')"
    proof (cases p)
      case (Some e)
      have "expr_value R env e = expr_value R env' e"
        by (rule MethodCall.IH [of p]) (use p Some MethodCall.prems in \<open>force split: option.splits\<close>)+
      with Some show ?thesis by simp
    qed simp
  qed
  then show ?case by (simp only: expr_value.simps)
qed auto

text \<open>
  The variables that \<open>f\<close> replaces have in \<open>env1\<close> the values of their replacements in \<open>env\<close>; the names
  of \<open>L\<close>, which loops bind, are left out.
\<close>

definition replaced ::
    "'v runtime \<Rightarrow> string set \<Rightarrow> (string \<Rightarrow> expr res) \<Rightarrow> 'v environment \<Rightarrow> 'v environment \<Rightarrow> bool" where
  "replaced R L f env env1 \<longleftrightarrow>
     (\<forall>x y. x \<notin> L \<longrightarrow> f x = Inr y \<longrightarrow> set (expr_vars y) \<subseteq> - L \<and> expr_value R env y = env1 x)"

lemma subst_value:
  assumes env: "replaced R L f env env1"
  shows "subst_expr f e = Inr e' \<Longrightarrow> set (expr_vars e) \<subseteq> - L \<Longrightarrow> expr_value R env e' = expr_value R env1 e"
proof (induction e arbitrary: e')
  case (MethodCall name as)
  then obtain bs where bs: "walk_arguments (subst_expr f) as = Inr bs" "e' = MethodCall name bs" by (auto simp: bindE_eq_Inr)
  have "map (\<lambda>p. Option.bind p (expr_value R env)) bs = map (\<lambda>p. Option.bind p (expr_value R env1)) as"
  proof (rule walked_arguments_value [OF bs(1)])
    fix e e' assume "Some e \<in> set as" "subst_expr f e = Inr e'"
    with MethodCall.prems(2) args_vars_subset show "expr_value R env e' = expr_value R env1 e"
      by (intro MethodCall.IH) auto
  qed
  with bs(2) show ?case by simp
qed (use env in \<open>auto simp: bindE_eq_Inr replaced_def\<close>)

fun loop_names :: "expr option \<Rightarrow> string set" where
  "loop_names (Some (VariableReference x)) = {x}"
| "loop_names k = {}"

fun binds_node :: "string set \<Rightarrow> ast \<Rightarrow> bool" where
  "binds_node L (ForBlock k v i b el) = (loop_names k \<union> loop_names v \<subseteq> L)"
| "binds_node L a = True"

lemma replaced_bind:
  assumes "replaced R L f env env1" "loop_names k \<subseteq> L"
  shows "replaced R L f (bind_variable k w env) (bind_variable k w env1)"
proof (cases "k" rule: loop_names.cases)
  case (1 x)
  have "expr_value R (env(x := Some w)) y = expr_value R env y" if "set (expr_vars y) \<subseteq> - L" for y
    by (rule expr_value_cong) (use that assms(2) 1 in auto)
  with 1 assms show ?thesis by (auto simp: replaced_def)
qed (use assms in auto)

lemma rewriting_renders:
  "rewrite_ast f a = Inr r \<Longrightarrow> include_free a \<Longrightarrow> all_nodes (binds_node L) a \<Longrightarrow> reads_within (- L) a \<Longrightarrow>
   replaced R L f env env1 \<Longrightarrow> render_tree R inc env r = render_tree R inc' env1 a"
proof (induction a arbitrary: r env env1)
  case (Statements xs)
  then obtain zs where zs: "merge_statements (rewrite_ast f) [] xs = Inr zs" and r: "r = fold_singleton zs"
    by (auto simp: rewrite_ast_def wrapper_walk bindE_eq_Inr)
  have "render_tree R inc env r = in_sequence (map (render_tree R inc' env1) xs)"
    unfolding r using zs
  proof (rule render_merged)
    fix x r assume "x \<in> set xs" "rewrite_ast f x = Inr r"
    with Statements.prems show "render_tree R inc env r = render_tree R inc' env1 x"
      by (intro Statements.IH) (auto simp: list_all_iff)
  qed
  then show ?case by simp
next
  case (IfBlock c th el)
  then obtain c' th' el' where r: "r = IfBlock c' th' el'" and c: "subst_expr f c = Inr c'"
    and th: "optE (rewrite_ast f) th = Inr th'" and el: "optE (rewrite_ast f) el = Inr el'"
    by (auto simp: rewrite_ast_def wrapper_walk bindE_eq_Inr)
  have "expr_value R env c' = expr_value R env1 c"
    using subst_value [OF IfBlock.prems(5) c] IfBlock.prems(4) by simp
  moreover have "render_body R inc env th' = render_body R inc' env1 th"
    using th IfBlock.IH(1) IfBlock.prems by (cases th) (auto simp: bindE_eq_Inr)
  moreover have "render_body R inc env el' = render_body R inc' env1 el"
    using el IfBlock.IH(2) IfBlock.prems by (cases el) (auto simp: bindE_eq_Inr)
  ultimately show ?case by (auto simp: r split: option.split)
next
  case (ForBlock k v i b el)
  then obtain i' b' el' where r: "r = ForBlock k v i' b' el'" and i: "subst_expr f i = Inr i'"
    and b: "optE (rewrite_ast f) b = Inr b'" and el: "optE (rewrite_ast f) el = Inr el'"
    by (auto simp: rewrite_ast_def wrapper_walk bindE_eq_Inr)
  have "expr_value R env i' = expr_value R env1 i"
    using subst_value [OF ForBlock.prems(5) i] ForBlock.prems(4) by simp
  moreover have "render_body R inc env el' = render_body R inc' env1 el"
    using el ForBlock.IH(2) ForBlock.prems by (cases el) (auto simp: bindE_eq_Inr)
  moreover have "render_body R inc (bind_variable v y (bind_variable k x env)) b' =
      render_body R inc' (bind_variable v y (bind_variable k x env1)) b" for x y
  proof -
    have "replaced R L f (bind_variable v y (bind_variable k x env)) (bind_variable v y (bind_variable k x env1))"
      using ForBlock.prems(3,5) by (intro replaced_bind) auto
    then show ?thesis using b ForBlock.IH(1) ForBlock.prems(2-4) by (cases b) (auto simp: bindE_eq_Inr)
  qed
  moreover have "b' = None \<longleftrightarrow> b = None" using b by (cases b) (auto simp: bindE_eq_Inr)
  ultimately show ?case by (auto simp: r split: option.splits)
next
  case (PrintBlock e)
  then obtain e' where "r = PrintBlock e'" "subst_expr f e = Inr e'"
    by (auto simp: rewrite_ast_def wrapper_walk bindE_eq_Inr)
  with subst_value [OF PrintBlock.prems(5), of e e'] PrintBlock.prems(4) show ?case by simp
qed (auto simp: rewrite_ast_def wrapper_walk)

text \<open>
  What the pass demands of the expressions that an inclusion passes on, and of the files: the copies of
  method calls are wrong, and loop variables are replaced like all others.
\<close>

fun given_node :: "string set \<Rightarrow> ast \<Rightarrow> bool" where
  "given_node L (IncludeBlock n s m) =
     (\<forall>e \<in> set (node_exprs (IncludeBlock n s m)). call_free e \<and> set (expr_vars e) \<subseteq> - L)"
| "given_node L a = True"

definition files_ok :: "(string \<Rightarrow> ast res) \<Rightarrow> string set \<Rightarrow> bool" where
  "files_ok parse L \<longleftrightarrow>
     (\<forall>f t. parse f = Inr t \<longrightarrow> all_nodes (binds_node L) t \<and> reads_within (- L) t \<and> all_nodes (given_node L) t)"

abbreviation inclusion_of :: "string \<Rightarrow> string \<Rightarrow> expr option \<Rightarrow> string_expression_map \<Rightarrow> string \<Rightarrow> expr res" where
  "inclusion_of base n s m \<equiv> (case s of Some e \<Rightarrow> scoped e | None \<Rightarrow> replacement_of (resolvePath base n) m)"

lemma inclusion_of_variable:
  assumes given: "given_node L (IncludeBlock n s m)" and y: "inclusion_of base n s m x = Inr y"
  shows "set (expr_vars y) \<subseteq> - L \<and> expr_value R env y = included_environment R env s m x"
proof (cases s)
  case None
  with y obtain e where e: "map_of m x = Some e" "clone e = Inr y"
    by (auto simp: replacement_of_def split: option.splits)
  then have "e \<in> set (node_exprs (IncludeBlock n s m))" using map_of_SomeD [OF e(1)] by force
  with given have "call_free e" "set (expr_vars e) \<subseteq> - L" unfolding given_node.simps by blast+
  with e None show ?thesis by (simp add: clone_call_free included_environment_def)
next
  case (Some e)
  with given y show ?thesis by (auto simp: scoped_def clone_call_free included_environment_def)
qed

lemma inclusion_replaced:
  "given_node L (IncludeBlock n s m) \<Longrightarrow>
   replaced R L (inclusion_of base n s m) env (included_environment R env s m)"
  using inclusion_of_variable unfolding replaced_def by blast

lemma rewrite_binds: "all_nodes (binds_node L) a \<Longrightarrow> rewrite_ast f a = Inr r \<Longrightarrow> all_nodes (binds_node L) r"
  unfolding rewrite_ast_def by (rule wrapper.process_all_nodes) (auto simp: bindE_eq_Inr)

lemma merged_nodes:
  assumes "merge_statements self [] xs = Inr zs" "\<And>ys. p (Statements ys)"
    and "\<And>x r. x \<in> set xs \<Longrightarrow> self x = Inr r \<Longrightarrow> all_nodes p r"
  shows "all_nodes p (fold_singleton zs)"
  using assms(2) merge_statements_all [OF assms(1), of "all_nodes p"] assms(3) splice_all
  by (intro fold_singleton_all) blast+

text \<open>Resolution keeps what is demanded of files, and the meaning.\<close>

lemma resolve_demands:
  assumes files: "files_ok parse L"
  shows "resolve base parse n a = Inr r \<Longrightarrow> all_nodes (given_node L) a \<Longrightarrow>
    all_nodes (binds_node L) a \<Longrightarrow> reads_within (- L) a \<Longrightarrow> all_nodes (binds_node L) r \<and> reads_within (- L) r"
proof (induction n arbitrary: a r)
  case (Suc n)
  have body: "pred_option (\<lambda>r. all_nodes (binds_node L) r \<and> reads_within (- L) r) q"
    if "optE (resolve base parse n) p = Inr q" "pred_option (all_nodes (given_node L)) p"
      "pred_option (all_nodes (binds_node L)) p" "pred_option (reads_within (- L)) p" for p q
    using that Suc.IH by (cases p) (auto simp: bindE_eq_Inr)
  show ?case
  proof (cases a)
    case (Statements xs)
    with Suc.prems(1) obtain zs where zs: "merge_statements (resolve base parse n) [] xs = Inr zs"
      and r: "r = fold_singleton zs" by (auto simp: resolve_Suc bindE_eq_Inr)
    have IH: "all_nodes (binds_node L) y \<and> reads_within (- L) y" if "x \<in> set xs" "resolve base parse n x = Inr y" for x y
      using that Suc.IH [OF that(2)] Suc.prems(2-4) Statements by (auto simp: list_all_iff)
    show ?thesis unfolding r by (intro conjI merged_nodes [OF zs]) (auto dest: IH)
  next
    case (IncludeBlock name s m)
    with Suc.prems(1) obtain t p where t: "parse (resolvePath base name) = Inr t"
      and p: "resolve base parse n t = Inr p" and r: "rewrite_ast (inclusion_of base name s m) p = Inr r"
      by (auto simp: resolve_Suc process_include_eq bindE_eq_Inr)
    have given: "given_node L (IncludeBlock name s m)"
      using all_nodes_root [OF Suc.prems(2)] unfolding IncludeBlock .
    from files t have "all_nodes (binds_node L) p \<and> reads_within (- L) p"
      by (intro Suc.IH [OF p]) (auto simp: files_ok_def)
    moreover have "reads_within (- L) r"
      by (rule rewrite_reads [OF conjunct1 [OF inclusion_of_variable [OF given]] resolve_include_free [OF p] r])
    ultimately show ?thesis using rewrite_binds [OF _ r] by blast
  next
    case (IfBlock c th el)
    with Suc.prems(1) obtain th' el' where opt: "optE (resolve base parse n) th = Inr th'"
      "optE (resolve base parse n) el = Inr el'" and r: "r = IfBlock c th' el'"
      by (auto simp: resolve_Suc bindE_eq_Inr)
    from Suc.prems(2-4) IfBlock body [OF opt(1)] body [OF opt(2)] show ?thesis
      unfolding r by (cases th'; cases el') simp_all
  next
    case (ForBlock k v i b el)
    with Suc.prems(1) obtain b' el' where opt: "optE (resolve base parse n) b = Inr b'"
      "optE (resolve base parse n) el = Inr el'" and r: "r = ForBlock k v i b' el'"
      by (auto simp: resolve_Suc bindE_eq_Inr)
    from Suc.prems(2-4) ForBlock body [OF opt(1)] body [OF opt(2)] show ?thesis
      unfolding r by (cases b'; cases el') simp_all
  qed (use Suc.prems in \<open>auto simp: resolve_Suc\<close>)
qed simp

lemma resolution_renders:
  assumes files: "files_ok parse L"
  shows "resolve base parse n a = Inr r \<Longrightarrow> all_nodes (given_node L) a \<Longrightarrow> n \<le> Suc m \<Longrightarrow>
    render_tree R inc env r = render R base parse (Suc m) env a"
proof (induction n arbitrary: a r env inc m)
  case (Suc n)
  define inc' where "inc' = (\<lambda>env name s mapping. case parse (resolvePath base name) of Inl _ \<Rightarrow> stop
      | Inr t \<Rightarrow> render R base parse m (included_environment R env s mapping) t)"
  have IH: "render_tree R inc env q = render_tree R inc' env p"
    if "resolve base parse n p = Inr q" "all_nodes (given_node L) p" for p q env
    using Suc.IH [OF that, of m inc env] Suc.prems(3) by (simp add: inc'_def)
  have body: "(q = None \<longleftrightarrow> p = None) \<and> (\<forall>x y env. p = Some x \<longrightarrow> q = Some y \<longrightarrow> render_tree R inc env y = render_tree R inc' env x)"
    if "optE (resolve base parse n) p = Inr q" "pred_option (all_nodes (given_node L)) p" for p q
    using that IH by (cases p) (auto simp: bindE_eq_Inr)
  have "render_tree R inc env r = render_tree R inc' env a"
  proof (cases a)
    case (Statements xs)
    with Suc.prems(1) obtain zs where zs: "merge_statements (resolve base parse n) [] xs = Inr zs"
      and r: "r = fold_singleton zs" by (auto simp: resolve_Suc bindE_eq_Inr)
    have "render_tree R inc env r = in_sequence (map (render_tree R inc' env) xs)"
      unfolding r using zs by (rule render_merged) (use IH Suc.prems(2) Statements in \<open>auto simp: list_all_iff\<close>)
    with Statements show ?thesis by simp
  next
    case (IfBlock c th el)
    with Suc.prems(1) obtain th' el' where "optE (resolve base parse n) th = Inr th'"
      "optE (resolve base parse n) el = Inr el'" and r: "r = IfBlock c th' el'"
      by (auto simp: resolve_Suc bindE_eq_Inr)
    with body [of th th'] body [of el el'] Suc.prems(2) IfBlock show ?thesis
      by (auto split: option.split)
  next
    case (ForBlock k v i b el)
    with Suc.prems(1) obtain b' el' where "optE (resolve base parse n) b = Inr b'"
      "optE (resolve base parse n) el = Inr el'" and r: "r = ForBlock k v i b' el'"
      by (auto simp: resolve_Suc bindE_eq_Inr)
    with body [of b b'] body [of el el'] Suc.prems(2) ForBlock show ?thesis
      by (auto split: option.split)
  next
    case (IncludeBlock name s mapping)
    with Suc.prems(1) obtain t p where t: "parse (resolvePath base name) = Inr t"
      and p: "resolve base parse n t = Inr p" and r: "rewrite_ast (inclusion_of base name s mapping) p = Inr r"
      by (auto simp: resolve_Suc process_include_eq bindE_eq_Inr)
    have given: "given_node L (IncludeBlock name s mapping)"
      using all_nodes_root [OF Suc.prems(2)] unfolding IncludeBlock .
    have included: "all_nodes (given_node L) t" "all_nodes (binds_node L) t" "reads_within (- L) t"
      using files t by (auto simp: files_ok_def)
    obtain k where m: "m = Suc k" "n \<le> Suc k"
      using p Suc.prems(3) by (cases n; cases m) auto
    have "render_tree R inc env r = render_tree R inc (included_environment R env s mapping) p"
      using rewriting_renders [OF r resolve_include_free [OF p]] resolve_demands [OF files p included]
        inclusion_replaced [OF given] by blast
    also have "\<dots> = render R base parse m (included_environment R env s mapping) t"
      using Suc.IH [OF p included(1) m(2)] m(1) by simp
    finally show ?thesis using IncludeBlock t by (simp add: inc'_def)
  qed (use Suc.prems(1) in \<open>auto simp: resolve_Suc\<close>)
  then show ?case by (simp add: inc'_def)
qed simp

section \<open>All passes\<close>

lemma render_as_tree:
  "(\<And>inc. render_tree R inc env r = render_tree R inc env a) \<Longrightarrow> render R base parse n env r = render R base parse n env a"
  by (cases n) simp_all

text \<open>
  C2: (meaning of the passes) Whatever passes are enabled, if they succeed the optimised template prints
  what the template prints: text, loops, conditions, inclusions and the end after a failed operator are
  the same in every environment, under four conditions.  If inclusions are resolved, no included file reads
  a loop variable (one that some loop of the files binds), no inclusion passes one on, and no
  method is called with arguments in what an inclusion passes on, which would be copied with null
  arguments.  If constants are folded, the run-time library computes with literals as the pass does.  If
  literals are converted, it prints them as the pass does.  The meaning follows inclusions at least as
  deep as the resolution.
\<close>

theorem passes_keep_the_rendered_text:
  assumes "optimizeAST fuel parse opts base a = Inr r" and "fuel \<le> Suc n"
    and "enable_resolve_includes_pass opts \<longrightarrow> files_ok parse L \<and> all_nodes (given_node L) a"
    and "enable_constant_folding_pass opts \<longrightarrow> computes_like_folding R"
    and "enable_literal_print_block_to_raw_block_conversion_pass opts \<longrightarrow> prints_like_the_pass R"
  shows "render R base parse (Suc n) env r = render R base parse (Suc n) env a"
proof -
  let ?same = "\<lambda>a b. render R base parse (Suc n) env b = render R base parse (Suc n) env a"
  from assms(1) obtain a1 a2 a3 where
    a1: "optional (enable_resolve_includes_pass opts) (resolve base parse fuel) a = Inr a1" and
    a2: "optional (enable_constant_folding_pass opts) fold_all a1 = Inr a2" and
    a3: "optional (enable_literal_print_block_to_raw_block_conversion_pass opts)
      (ast_process ConvertLiteralPrintBlockToRawBlockPass) a2 = Inr a3" and
    r: "optional (enable_raw_block_coalescing_pass opts) coalesce_all a3 = Inr r"
    by (auto simp: optimizeAST_eq bindE_eq_Inr)
  have "?same a a1"
    using a1 assms(2,3) resolution_renders [of parse L base fuel a a1 n] by (auto simp: optional_def split: if_splits)
  moreover have "?same a1 a2"
    using a2 assms(4) folding_renders [of R a1 a2 base parse "Suc n" env]
    by (auto simp: optional_def simp del: render.simps split: if_splits)
  moreover have "?same a2 a3"
    using a3 assms(5) conversion_renders [of R a2 a3] by (auto simp: optional_def split: if_splits)
  moreover have "?same a3 r"
    using r coalescing_renders [of a3 r] by (auto simp: optional_def split: if_splits)
  ultimately show ?thesis by simp
qed

text \<open>A library whose values are literals, and which computes by folding.\<close>

definition literal_runtime :: "expr runtime" where
  "literal_runtime =
     (let result = (\<lambda>r. case r of Inr e \<Rightarrow> Some e | Inl _ \<Rightarrow> None)
      in \<lparr>literal_value = \<lambda>e. e, attribute_value = \<lambda>a v. None, call_value = \<lambda>name vs. None,
          binary_value = \<lambda>op l r. result (fold_binary_node l r op),
          unary_value = \<lambda>op v. result (fold_unary_node v op),
          comparison_value = \<lambda>op l r. result (fold_comparison_node l r op),
          is_true = \<lambda>v. v = BooleanLiteral True, elements_of = \<lambda>v. [], text_of = literal_text\<rparr>)"

lemma literal_runtime_laws: "computes_like_folding literal_runtime" "prints_like_the_pass literal_runtime"
  by (simp_all add: computes_like_folding_def prints_like_the_pass_def literal_runtime_def Let_def)

theorem passes_keep_the_rendered_text_witness:
  "render literal_runtime ''d'' (\<lambda>_. Inr (PrintBlock (BinaryOperation (VariableReference ''n'') (IntegerLiteral 2) Addition)))
     (Suc 3) (\<lambda>_. None) (Statements [RawBlock ''a'', IncludeBlock ''x'' None [(''n'', IntegerLiteral 1)]]) = (''a3'', True)"
proof -
  let ?a = "Statements [RawBlock ''a'', IncludeBlock ''x'' None [(''n'', IntegerLiteral 1)]]"
    and ?parse = "\<lambda>_. Inr (PrintBlock (BinaryOperation (VariableReference ''n'') (IntegerLiteral 2) Addition))"
  have "optimizeAST 3 ?parse initial_options ''d'' ?a = Inr (RawBlock ''a3'')"
    by (simp add: all_enabled_def initial_options_def optimizeAST_all eval_nat_numeral resolve_Suc
      process_include_eq rewrite_ast_def wrapper_walk fold_singleton_def fold_all_wrapper replacement_of_def
      ConvertLiteralPrintBlockToRawBlockPass_def convert.process_simps coalesce_walk gather_raw_def
      fold_node_defs long_add_def long_of_int_def string_of_long_def string_of_int_def
      digits_of.simps digit_char_def)
  from passes_keep_the_rendered_text [OF this, of 3 "{}" literal_runtime "\<lambda>_. None"]
  have "render literal_runtime ''d'' ?parse (Suc 3) (\<lambda>_. None) (RawBlock ''a3'') =
    render literal_runtime ''d'' ?parse (Suc 3) (\<lambda>_. None) ?a"
    by (simp add: files_ok_def literal_runtime_laws del: render.simps)
  moreover have "render literal_runtime ''d'' ?parse (Suc 3) (\<lambda>_. None) (RawBlock ''a3'') = (''a3'', True)"
    by (simp only: render.simps render_tree.simps)
  ultimately show ?thesis by (simp only:)
qed

end
