(* ===== verification/Patterns.thy ===== *)
theory Patterns
  imports B2_Prelude "HOL-Library.Sublist"
begin

text \<open>
  The patterns of the scanner as regular expressions: their meaning (\<open>matches\<close>), their derivatives,
  and the longest prefix that a pattern matches, computed character by character.
\<close>

section \<open>Patterns\<close>

datatype regex =
    Void
  | Word string
  | Among string
  | Except string
  | Seq regex regex
  | Alt regex regex
  | Star regex

inductive matches :: "regex \<Rightarrow> string \<Rightarrow> bool" where
  matches_word: "matches (Word s) s"
| matches_among: "c \<in> set cs \<Longrightarrow> matches (Among cs) [c]"
| matches_except: "c \<notin> set cs \<Longrightarrow> matches (Except cs) [c]"
| matches_seq: "matches p s \<Longrightarrow> matches q t \<Longrightarrow> matches (Seq p q) (s @ t)"
| matches_left: "matches p s \<Longrightarrow> matches (Alt p q) s"
| matches_right: "matches q s \<Longrightarrow> matches (Alt p q) s"
| matches_stop: "matches (Star p) []"
| matches_more: "matches p s \<Longrightarrow> matches (Star p) t \<Longrightarrow> matches (Star p) (s @ t)"

inductive_simps matches_simps [simp]:
  "matches Void s"
  "matches (Word w) s"
  "matches (Among cs) s"
  "matches (Except cs) s"
  "matches (Alt p q) s"

inductive_simps matches_Seq: "matches (Seq p q) s"

inductive_cases matches_StarE: "matches (Star p) s"

abbreviation Plus :: "regex \<Rightarrow> regex" where
  "Plus p \<equiv> Seq p (Star p)"

abbreviation Maybe :: "regex \<Rightarrow> regex" where
  "Maybe p \<equiv> Alt (Word []) p"

section \<open>Derivatives\<close>

fun nullable :: "regex \<Rightarrow> bool" where
  "nullable Void = False"
| "nullable (Word s) = (s = [])"
| "nullable (Among cs) = False"
| "nullable (Except cs) = False"
| "nullable (Seq p q) = (nullable p \<and> nullable q)"
| "nullable (Alt p q) = (nullable p \<or> nullable q)"
| "nullable (Star p) = True"

definition either_of :: "regex \<Rightarrow> regex \<Rightarrow> regex" where
  "either_of p q = (if p = Void then q else if q = Void \<or> p = q then p else Alt p q)"

definition in_order :: "regex \<Rightarrow> regex \<Rightarrow> regex" where
  "in_order p q = (if p = Void then Void else if p = Word [] then q else Seq p q)"

fun derivative :: "char \<Rightarrow> regex \<Rightarrow> regex" where
  "derivative c Void = Void"
| "derivative c (Word s) = (case s of [] \<Rightarrow> Void | d # ds \<Rightarrow> if c = d then Word ds else Void)"
| "derivative c (Among cs) = (if c \<in> set cs then Word [] else Void)"
| "derivative c (Except cs) = (if c \<in> set cs then Void else Word [])"
| "derivative c (Seq p q) =
     (if nullable p then either_of (in_order (derivative c p) q) (derivative c q)
      else in_order (derivative c p) q)"
| "derivative c (Alt p q) = either_of (derivative c p) (derivative c q)"
| "derivative c (Star p) = in_order (derivative c p) (Star p)"

lemma matches_either_of [simp]: "matches (either_of p q) s \<longleftrightarrow> matches p s \<or> matches q s"
  by (auto simp: either_of_def)

lemma matches_in_order [simp]: "matches (in_order p q) s \<longleftrightarrow> matches (Seq p q) s"
  by (auto simp: in_order_def matches_Seq)

lemma nullable_matches: "nullable p \<longleftrightarrow> matches p []"
  by (induction p) (auto simp: matches_Seq intro: matches_stop)

lemma star_Cons:
  "matches (Star p) (c # s) \<longleftrightarrow> (\<exists>t u. s = t @ u \<and> matches p (c # t) \<and> matches (Star p) u)"
proof
  have "matches (Star p) w \<Longrightarrow> w = c # s \<Longrightarrow> \<exists>t u. s = t @ u \<and> matches p (c # t) \<and> matches (Star p) u" for w
    by (induction "Star p" w rule: matches.induct) (fastforce simp: append_eq_Cons_conv)+
  then show "matches (Star p) (c # s) \<Longrightarrow> \<exists>t u. s = t @ u \<and> matches p (c # t) \<and> matches (Star p) u"
    by blast
  assume "\<exists>t u. s = t @ u \<and> matches p (c # t) \<and> matches (Star p) u"
  then show "matches (Star p) (c # s)"
    using matches_more [of p "c # _"] by fastforce
qed

lemma matches_derivative: "matches (derivative c p) s \<longleftrightarrow> matches p (c # s)"
proof (induction p arbitrary: s)
  case (Seq p q)
  show ?case
    by (auto simp: matches_Seq Seq.IH nullable_matches Cons_eq_append_conv)
next
  case (Star p)
  show ?case
    by (auto simp: matches_Seq Star.IH star_Cons)
qed (auto split: list.splits)

text \<open>
  The longest prefix that a pattern matches, by its length: \<open>n\<close> characters are read, \<open>found\<close> is the
  last length at which the automaton accepted, and the automaton stops when it is jammed.
\<close>

fun run_pattern :: "regex \<Rightarrow> nat \<Rightarrow> nat option \<Rightarrow> string \<Rightarrow> nat option" where
  "run_pattern p n found [] = found"
| "run_pattern p n found (c # s) =
     (let q = derivative c p
      in if q = Void then found
         else run_pattern q (n + 1) (if nullable q then Some (n + 1) else found) s)"

definition longest_match :: "regex \<Rightarrow> string \<Rightarrow> nat option" where
  "longest_match p s = run_pattern p 0 None s"

text \<open>What is meant by the longest match: \<open>accepts p s k\<close> says that the first \<open>k\<close> characters match.\<close>

definition accepts :: "regex \<Rightarrow> string \<Rightarrow> nat \<Rightarrow> bool" where
  "accepts p s k \<longleftrightarrow> k \<le> length s \<and> matches p (take k s)"

definition is_longest :: "regex \<Rightarrow> string \<Rightarrow> nat \<Rightarrow> bool" where
  "is_longest p s k \<longleftrightarrow> 0 < k \<and> accepts p s k \<and> (\<forall>m > k. \<not> accepts p s m)"

lemma accepts_0: "accepts p s 0 \<longleftrightarrow> nullable p"
  by (simp add: accepts_def nullable_matches)

lemma accepts_Cons: "accepts p (c # s) (Suc k) \<longleftrightarrow> accepts (derivative c p) s k"
  by (simp add: accepts_def matches_derivative)

lemma all_above_Suc: "(\<forall>m > Suc k. P m) \<longleftrightarrow> (\<forall>m > k. P (Suc m))"
  by (metis Suc_less_eq Suc_lessE)

lemma run_pattern_spec:
  "(\<exists>k. is_longest p s k \<and> run_pattern p n found s = Some (n + k)) \<or>
   (\<forall>k > 0. \<not> accepts p s k) \<and> run_pattern p n found s = found"
proof (induction s arbitrary: p n found)
  case (Cons c s)
  let ?q = "derivative c p"
  have Suc: "is_longest p (c # s) (Suc k) \<longleftrightarrow> accepts ?q s k \<and> (\<forall>m > k. \<not> accepts ?q s m)" for k
    by (simp add: is_longest_def accepts_Cons all_above_Suc)
  have none: "(\<forall>k > 0. \<not> accepts p (c # s) k) \<longleftrightarrow> \<not> nullable ?q \<and> (\<forall>k > 0. \<not> accepts ?q s k)"
    by (metis Suc_pred accepts_Cons accepts_0 zero_less_Suc gr0I)
  show ?case
  proof (cases "?q = Void")
    case True
    then show ?thesis unfolding none by (simp add: accepts_def)
  next
    case False
    then have run: "run_pattern p n found (c # s) =
        run_pattern ?q (n + 1) (if nullable ?q then Some (n + 1) else found) s"
      by (simp add: Let_def)
    from Cons.IH [of ?q "n + 1" "if nullable ?q then Some (n + 1) else found"] show ?thesis
    proof
      assume "\<exists>k. is_longest ?q s k \<and>
        run_pattern ?q (n + 1) (if nullable ?q then Some (n + 1) else found) s = Some (n + 1 + k)"
      then obtain k where k: "is_longest ?q s k" and "run_pattern p n found (c # s) = Some (n + Suc k)"
        unfolding run by auto
      moreover from k have "is_longest p (c # s) (Suc k)"
        unfolding Suc by (simp add: is_longest_def)
      ultimately show ?thesis by blast
    next
      assume none_q: "(\<forall>k > 0. \<not> accepts ?q s k) \<and>
        run_pattern ?q (n + 1) (if nullable ?q then Some (n + 1) else found) s =
          (if nullable ?q then Some (n + 1) else found)"
      then show ?thesis
        unfolding none run using Suc [of 0] by (auto simp: accepts_0 intro: exI [of _ "Suc 0"])
    qed
  qed
qed (simp add: accepts_def)

lemma longest_unique: "is_longest p s k \<Longrightarrow> is_longest p s m \<Longrightarrow> k = m"
  by (auto simp: is_longest_def) (metis linorder_neqE_nat)

lemma longest_match_Some: "longest_match p s = Some k \<longleftrightarrow> is_longest p s k"
  using run_pattern_spec [of p s 0 None] longest_unique [of p s]
  by (auto simp: longest_match_def is_longest_def)

lemma longest_match_None: "longest_match p s = None \<longleftrightarrow> (\<forall>k > 0. \<not> accepts p s k)"
  using run_pattern_spec [of p s 0 None] by (auto simp: longest_match_def is_longest_def)

lemma longest_match_cong:
  assumes "\<And>m. 0 < m \<Longrightarrow> accepts p s m \<longleftrightarrow> accepts q t m"
  shows "longest_match p s = longest_match q t"
proof -
  have "is_longest p s k \<longleftrightarrow> is_longest q t k" for k
    using assms by (auto simp: is_longest_def)
  then show ?thesis
    using longest_match_Some [of p s] longest_match_Some [of q t]
    by (cases "longest_match p s"; cases "longest_match q t") force+
qed

lemma longest_match_void [simp]: "longest_match Void s = None"
  by (simp add: longest_match_None accepts_def)

text \<open>The characters that a pattern can read.\<close>

fun can_read :: "regex \<Rightarrow> char \<Rightarrow> bool" where
  "can_read Void c = False"
| "can_read (Word s) c = (c \<in> set s)"
| "can_read (Among cs) c = (c \<in> set cs)"
| "can_read (Except cs) c = (c \<notin> set cs)"
| "can_read (Seq p q) c = (can_read p c \<or> can_read q c)"
| "can_read (Alt p q) c = (can_read p c \<or> can_read q c)"
| "can_read (Star p) c = can_read p c"

lemma matches_can_read: "matches p s \<Longrightarrow> c \<in> set s \<Longrightarrow> can_read p c"
  by (induction p s rule: matches.induct) auto

text \<open>A character that the pattern cannot read ends its matches.\<close>

lemma accepts_before_separator:
  assumes "\<not> can_read p c"
  shows "accepts p (w @ c # s) m \<longleftrightarrow> accepts p w m"
proof (cases "m \<le> length w")
  case True
  then show ?thesis by (simp add: accepts_def)
next
  case False
  then have "c \<in> set (take m (w @ c # s))" by (cases "m - length w") auto
  with assms False show ?thesis using matches_can_read by (fastforce simp: accepts_def)
qed

lemma matches_star_among: "matches (Star (Among cs)) w \<longleftrightarrow> set w \<subseteq> set cs"
proof
  assume "set w \<subseteq> set cs"
  then show "matches (Star (Among cs)) w"
  proof (induction w)
    case (Cons c w)
    then show ?case using matches_more [of "Among cs" "[c]" w] by simp
  qed (rule matches_stop)
qed (auto dest: matches_can_read)

lemma matches_star_except: "matches (Star (Except cs)) w \<longleftrightarrow> set w \<inter> set cs = {}"
proof
  assume "set w \<inter> set cs = {}"
  then show "matches (Star (Except cs)) w"
  proof (induction w)
    case (Cons c w)
    then show ?case using matches_more [of "Except cs" "[c]" w] by simp
  qed (rule matches_stop)
qed (auto dest: matches_can_read)

lemma matches_Seq_first:
  "matches (Seq (Among cs) q) (c # w) \<longleftrightarrow> c \<in> set cs \<and> matches q w"
  "matches (Seq (Except cs) q) (c # w) \<longleftrightarrow> c \<notin> set cs \<and> matches q w"
  "\<not> matches (Seq (Among cs) q) []" "\<not> matches (Seq (Except cs) q) []"
  by (auto simp: matches_derivative [symmetric] nullable_matches [symmetric] matches_Seq)

lemma matches_plus_among: "matches (Plus (Among cs)) w \<longleftrightarrow> w \<noteq> [] \<and> set w \<subseteq> set cs"
  by (cases w) (auto simp: matches_Seq_first matches_star_among)

lemma matches_plus_except: "matches (Plus (Except cs)) w \<longleftrightarrow> w \<noteq> [] \<and> set w \<inter> set cs = {}"
  by (cases w) (auto simp: matches_Seq_first matches_star_except)

end
