(* ===== verification/Scanner.thy ===== *)
theory Scanner
  imports Patterns Scanner_Literals Doubles
begin

text \<open>
  The scanner \<open>lib/parser/syntax.l\<close>: its patterns as regular expressions, its rules in their order for
  each start condition, with their actions on the state of the scanner, and the matching that flex
  promises: the rule with the longest match, the earlier one among equals, and a default rule that
  takes one character.
\<close>

section \<open>Definitions of the patterns\<close>

abbreviation digits :: string where "digits \<equiv> ''0123456789''"

abbreviation letters :: string where
  "letters \<equiv> ''abcdefghijklmnopqrstuvwxyzABCDEFGHIJKLMNOPQRSTUVWXYZ''"

abbreviation whitespace :: string where "whitespace \<equiv> [CHR '' '', tabulator, newline, CHR 0x0D]"

definition IDENTIFIER :: regex where
  "IDENTIFIER =
     Alt (Among letters)
       (Alt (Seq (Plus (Word ''_'')) (Seq (Among letters) (Star (Among (letters @ digits @ ''_'')))))
         (Seq (Among letters) (Star (Among (letters @ digits @ ''_'')))))"

definition quoted :: "char \<Rightarrow> regex" where
  "quoted q =
     Seq (Word [q])
       (Seq (Star (Alt (Except [q]) (Alt (Word [backslash, q]) (Word [backslash, backslash])))) (Word [q]))"

definition STRING_LITERAL :: regex where "STRING_LITERAL = quoted dquote"

definition STRING_LITERAL_SQ :: regex where "STRING_LITERAL_SQ = quoted squote"

definition INTEGER :: regex where "INTEGER = Plus (Among digits)"

definition DOUBLE :: regex where
  "DOUBLE =
     Seq (Alt (Seq (Plus (Among digits)) (Seq (Word ''.'') (Plus (Among digits))))
           (Alt (Seq (Word ''.'') (Plus (Among digits))) (Plus (Among digits))))
       (Maybe (Seq (Among ''Ee'') (Seq (Maybe (Among ''+-'')) (Plus (Among digits)))))"

abbreviation any_but_newline :: regex where "any_but_newline \<equiv> Except [newline]"

section \<open>Numbers\<close>

text \<open>
  \<open>atol\<close> and \<open>atof\<close> on the texts that the patterns of numbers match, in the C locale.  Their
  behaviour is undefined where the value is not representable; for \<open>atof\<close> that is the rounding to
  infinity.
\<close>

definition atol :: "string \<Rightarrow> long res" where
  "atol s = long_of_int (digits_value 0 s)"

fun decimal_exponent :: "string \<Rightarrow> int" where
  "decimal_exponent [] = 0"
| "decimal_exponent [e] = 0"
| "decimal_exponent (e # c # cs) =
     (if c = CHR ''-'' then - digits_value 0 cs
      else if c = CHR ''+'' then digits_value 0 cs else digits_value 0 (c # cs))"

definition atof :: "string \<Rightarrow> double res" where
  "atof s =
     (let digit = (\<lambda>c. c \<in> set digits);
          whole = takeWhile digit s; s1 = dropWhile digit s;
          fraction = (case s1 of c # cs \<Rightarrow> if c = CHR ''.'' then takeWhile digit cs else [] | [] \<Rightarrow> []);
          s2 = (case s1 of c # cs \<Rightarrow> if c = CHR ''.'' then dropWhile digit cs else s1 | [] \<Rightarrow> []);
          n = digits_value 0 (whole @ fraction); k = decimal_exponent s2 - int (length fraction);
          v = (if 0 \<le> k then round_pos False (n * 10 ^ nat k) 1 else round_pos False n (10 ^ nat (- k)))
      in if v = Infinity False then Inl (Undefined NotRepresentable) else Inr v)"

section \<open>Tokens and the state of the scanner\<close>

datatype token =
    T_VARIABLE_START | T_VARIABLE_END | T_BLOCK_START | T_BLOCK_END
  | T_RAW string
  | T_KW_IF | T_KW_ELSEIF | T_KW_ELSE | T_KW_ENDIF | T_KW_FOR | T_KW_IN | T_KW_ENDFOR
  | T_KW_INCLUDE | T_KW_WITH | T_KW_USING
  | T_EQ | T_NEQ | T_GT | T_GE | T_LT | T_LE | T_AND | T_OR | T_NOT
  | T_PLUS | T_MINUS | T_MUL | T_DIV | T_MOD
  | T_OPEN_PAREN | T_CLOSE_PAREN | T_ATTRIBUTE_SEPARATOR | T_COMMA | T_ASSIGN
  | T_STRING_LITERAL string | T_INTEGER_LITERAL long | T_DOUBLE_LITERAL double
  | T_BOOLEAN_LITERAL bool | T_IDENTIFIER string

datatype start_condition = INITIAL | IN_VARIABLE | IN_BLOCK | IN_COMMENT

text \<open>
  The state that the actions read and write: the start condition and the line number of the
  reentrant scanner, and the flag \<open>eat_whitespace\<close>, a static variable that every scanner shares.
  \<open>unread\<close> is what is left of the file.
\<close>

record scanner =
  condition :: start_condition
  eat_whitespace :: bool
  yylineno :: nat
  unread :: string

type_synonym lexed = "(token option \<times> scanner) res"

text \<open>A rule: its pattern, the literal text that must follow, and its action on \<open>yytext\<close>.\<close>

record rule =
  pattern :: regex
  trailing :: string
  action :: "string \<Rightarrow> scanner \<Rightarrow> lexed"

definition BEGIN :: "start_condition \<Rightarrow> scanner \<Rightarrow> scanner" where
  "BEGIN c st = st\<lparr>condition := c\<rparr>"

definition return_token :: "token \<Rightarrow> scanner \<Rightarrow> lexed" where
  "return_token t st = Inr (Some t, st)"

definition ignore :: "string \<Rightarrow> scanner \<Rightarrow> lexed" where
  "ignore yytext st = Inr (None, st)"

abbreviation on :: "regex \<Rightarrow> (string \<Rightarrow> scanner \<Rightarrow> lexed) \<Rightarrow> rule" where
  "on p a \<equiv> \<lparr>pattern = p, trailing = [], action = a\<rparr>"

abbreviation word_rule :: "string \<Rightarrow> token \<Rightarrow> rule" where
  "word_rule w t \<equiv> on (Word w) (\<lambda>_. return_token t)"

definition return_raw :: "string \<Rightarrow> scanner \<Rightarrow> lexed" where
  "return_raw yytext = return_token (T_RAW (c_string yytext))"

definition initial_rules :: "rule list" where
  "initial_rules =
     [on (Word ''{{'') (\<lambda>_ st. return_token T_VARIABLE_START (BEGIN IN_VARIABLE (st\<lparr>eat_whitespace := False\<rparr>))),
      on (Word ''{%'') (\<lambda>_ st. return_token T_BLOCK_START (BEGIN IN_BLOCK (st\<lparr>eat_whitespace := False\<rparr>))),
      on (Word ''{-%'') (\<lambda>_ st. return_token T_BLOCK_START (BEGIN IN_BLOCK (st\<lparr>eat_whitespace := False\<rparr>))),
      on (Word ''{#'') (\<lambda>yytext st. ignore yytext (BEGIN IN_COMMENT (st\<lparr>eat_whitespace := False\<rparr>))),
      on (Plus (Except (CHR ''{'' # whitespace))) (\<lambda>yytext st. return_raw yytext (st\<lparr>eat_whitespace := False\<rparr>)),
      \<lparr>pattern = Plus (Among whitespace), trailing = ''{-%'', action = ignore\<rparr>,
      on (Plus (Among whitespace))
        (\<lambda>yytext st. if \<not> eat_whitespace st then return_raw yytext st else ignore yytext st),
      on any_but_newline return_raw]"

definition comment_rules :: "rule list" where
  "comment_rules =
     [on (Word ''#}'') (\<lambda>yytext st. ignore yytext (BEGIN INITIAL st)),
      on (Plus (Except ''#'')) ignore,
      on any_but_newline ignore]"

definition variable_rules :: "rule list" where
  "variable_rules =
     [on (Word ''}}'') (\<lambda>_ st. return_token T_VARIABLE_END (BEGIN INITIAL st)),
      on (Plus (Among [CHR '' '', tabulator])) ignore]"

definition block_rules :: "rule list" where
  "block_rules =
     [on (Word ''%}'') (\<lambda>_ st. return_token T_BLOCK_END (BEGIN INITIAL st)),
      on (Word ''%-}'') (\<lambda>_ st. return_token T_BLOCK_END ((BEGIN INITIAL st)\<lparr>eat_whitespace := True\<rparr>)),
      on (Plus (Among [CHR '' '', tabulator])) ignore,
      word_rule ''if'' T_KW_IF, word_rule ''else if'' T_KW_ELSEIF, word_rule ''elseif'' T_KW_ELSEIF,
      word_rule ''else'' T_KW_ELSE, word_rule ''endif'' T_KW_ENDIF, word_rule ''for'' T_KW_FOR,
      word_rule ''in'' T_KW_IN, word_rule ''endfor'' T_KW_ENDFOR, word_rule ''include'' T_KW_INCLUDE,
      word_rule ''with'' T_KW_WITH, word_rule ''using'' T_KW_USING]"

definition expression_rules :: "rule list" where
  "expression_rules =
     [word_rule ''=='' T_EQ, word_rule ''!='' T_NEQ, word_rule ''>'' T_GT, word_rule ''>='' T_GE,
      word_rule ''<'' T_LT, word_rule ''<='' T_LE, word_rule ''&&'' T_AND, word_rule ''and'' T_AND,
      word_rule ''AND'' T_AND, word_rule ''||'' T_OR, word_rule ''or'' T_OR, word_rule ''OR'' T_OR,
      word_rule ''!'' T_NOT, word_rule ''not'' T_NOT, word_rule ''NOT'' T_NOT, word_rule ''+'' T_PLUS,
      word_rule ''-'' T_MINUS, word_rule ''*'' T_MUL, word_rule ''/'' T_DIV, word_rule ''%'' T_MOD,
      word_rule ''('' T_OPEN_PAREN, word_rule '')'' T_CLOSE_PAREN,
      word_rule ''.'' T_ATTRIBUTE_SEPARATOR, word_rule '','' T_COMMA, word_rule ''='' T_ASSIGN,
      on STRING_LITERAL (\<lambda>yytext. return_token (T_STRING_LITERAL (process_string_literal yytext))),
      on STRING_LITERAL_SQ (\<lambda>yytext. return_token (T_STRING_LITERAL (process_string_literal yytext))),
      on INTEGER (\<lambda>yytext st. bindE (atol yytext) (\<lambda>l. return_token (T_INTEGER_LITERAL l) st)),
      on DOUBLE (\<lambda>yytext st. bindE (atof yytext) (\<lambda>d. return_token (T_DOUBLE_LITERAL d) st)),
      word_rule ''true'' (T_BOOLEAN_LITERAL True), word_rule ''TRUE'' (T_BOOLEAN_LITERAL True),
      word_rule ''false'' (T_BOOLEAN_LITERAL False), word_rule ''FALSE'' (T_BOOLEAN_LITERAL False),
      on IDENTIFIER (\<lambda>yytext. return_token (T_IDENTIFIER yytext))]"

fun rules_of :: "start_condition \<Rightarrow> rule list" where
  "rules_of INITIAL = initial_rules"
| "rules_of IN_COMMENT = comment_rules"
| "rules_of IN_VARIABLE = variable_rules @ expression_rules"
| "rules_of IN_BLOCK = block_rules @ expression_rules"

section \<open>The scanner\<close>

text \<open>The length that counts includes the text that must follow.\<close>

definition whole_pattern :: "rule \<Rightarrow> regex" where
  "whole_pattern r = (if trailing r = [] then pattern r else Seq (pattern r) (Word (trailing r)))"

definition match_length :: "rule \<Rightarrow> string \<Rightarrow> nat option" where
  "match_length r s = longest_match (whole_pattern r) s"

fun best_rule :: "rule list \<Rightarrow> string \<Rightarrow> (nat \<times> rule) option" where
  "best_rule [] s = None"
| "best_rule (r # rs) s =
     (case match_length r s of
        None \<Rightarrow> best_rule rs s
      | Some n \<Rightarrow>
          (case best_rule rs s of
             None \<Rightarrow> Some (n, r)
           | Some (m, q) \<Rightarrow> if n < m then Some (m, q) else Some (n, r)))"

text \<open>Taking \<open>k\<close> characters: the line number counts the line ends among them.\<close>

definition advance :: "nat \<Rightarrow> scanner \<Rightarrow> scanner" where
  "advance k st =
     st\<lparr>yylineno := yylineno st + length (filter (\<lambda>c. c = newline) (take k (unread st))),
        unread := drop k (unread st)\<rparr>"

text \<open>
  One match and its action; the text that must follow is given back.  The default rule echoes the
  character, and \<open>ECHO\<close> is defined as nothing.
\<close>

definition scan_step :: "scanner \<Rightarrow> lexed" where
  "scan_step st =
     (case best_rule (rules_of (condition st)) (unread st) of
        None \<Rightarrow> Inr (None, advance 1 st)
      | Some (n, r) \<Rightarrow>
          let k = n - length (trailing r) in action r (take k (unread st)) (advance k st))"

section \<open>Progress\<close>

lemma match_length_bounds:
  assumes "match_length r s = Some n"
  shows "length (trailing r) \<le> n" "n \<le> length s" "0 < n"
  using assms
  by (auto simp: match_length_def whole_pattern_def longest_match_Some is_longest_def accepts_def matches_Seq
      split: if_splits dest!: arg_cong [of _ _ length])

lemma best_rule_member: "best_rule rs s = Some (n, r) \<Longrightarrow> r \<in> set rs \<and> match_length r s = Some n"
  by (induction rs) (auto split: option.splits if_splits)

text \<open>Actions do not touch the text that is left, and no rule matches nothing.\<close>

lemma action_keeps_unread:
  assumes "r \<in> set (rules_of c)" and "action r yytext st = Inr (t, st')"
  shows "unread st' = unread st"
  using assms
  by (cases c)
    (auto simp: initial_rules_def comment_rules_def variable_rules_def block_rules_def
      expression_rules_def return_token_def return_raw_def ignore_def BEGIN_def bindE_eq_Inr
      split: if_splits)

lemma trailing_cases:
  "r \<in> set (rules_of c) \<Longrightarrow> trailing r = [] \<or> trailing r = ''{-%'' \<and> pattern r = Plus (Among whitespace)"
  by (cases c)
    (auto simp: initial_rules_def comment_rules_def variable_rules_def block_rules_def
      expression_rules_def)

lemma match_length_trailing:
  assumes "match_length r s = Some n" and "r \<in> set (rules_of c)"
  shows "length (trailing r) < n"
proof (cases "trailing r = []")
  case True
  with match_length_bounds [OF assms(1)] show ?thesis by simp
next
  case False
  with trailing_cases [OF assms(2)] have r: "trailing r = ''{-%''" "pattern r = Plus (Among whitespace)"
    by auto
  with assms(1) False have "accepts (Seq (Plus (Among whitespace)) (Word ''{-%'')) s n"
    by (simp add: match_length_def whole_pattern_def longest_match_Some is_longest_def)
  then obtain w where "take n s = w @ ''{-%''" and "w \<noteq> []"
    by (auto simp: accepts_def matches_Seq)
  then have "length (take n s) > 3" by simp
  with r show ?thesis by simp
qed

lemma scan_step_shrinks:
  assumes "scan_step st = Inr (t, st')" and "unread st \<noteq> []"
  shows "length (unread st') < length (unread st)"
proof (cases "best_rule (rules_of (condition st)) (unread st)")
  case None
  with assms show ?thesis by (auto simp: scan_step_def advance_def)
next
  case (Some a)
  then obtain n r where best: "best_rule (rules_of (condition st)) (unread st) = Some (n, r)"
    by (cases a) auto
  from best_rule_member [OF best] have r: "r \<in> set (rules_of (condition st))"
    and n: "match_length r (unread st) = Some n" by auto
  let ?k = "n - length (trailing r)"
  from assms(1) best have "action r (take ?k (unread st)) (advance ?k st) = Inr (t, st')"
    by (simp add: scan_step_def Let_def)
  from action_keeps_unread [OF r this] have "unread st' = drop ?k (unread st)"
    by (simp add: advance_def)
  moreover have "0 < length (unread st)" using assms(2) by simp
  ultimately show ?thesis using match_length_trailing [OF n r] by (simp; linarith)
qed

text \<open>
  \<open>yylex\<close>: matches until an action returns a token or the file ends.  The position of a token is the
  line number after its match.
\<close>

function yylex :: "scanner \<Rightarrow> ((token \<times> nat) option \<times> scanner) res" where
  "yylex st =
     (if unread st = [] then Inr (None, st)
      else case scan_step st of
        Inl f \<Rightarrow> Inl f
      | Inr (None, st') \<Rightarrow> yylex st'
      | Inr (Some t, st') \<Rightarrow> Inr (Some (t, yylineno st'), st'))"
  by pat_completeness auto
termination
  by (relation "measure (\<lambda>st. length (unread st))") (auto simp: scan_step_shrinks)

declare yylex.simps [simp del]

lemma yylex_shrinks:
  "yylex st = Inr (Some t, st') \<Longrightarrow> length (unread st') < length (unread st)"
proof (induction st rule: yylex.induct)
  case (1 st)
  from 1(2) have left: "unread st \<noteq> []"
    by (subst (asm) yylex.simps) (simp split: if_splits)
  show ?case
  proof (cases "scan_step st")
    case (Inl f)
    with 1(2) left show ?thesis by (subst (asm) yylex.simps) simp
  next
    case (Inr b)
    obtain u st1 where step: "scan_step st = Inr (u, st1)" using Inr by (cases b) auto
    note shrinks = scan_step_shrinks [OF step left]
    show ?thesis
    proof (cases u)
      case None
      with 1(2) step left have "yylex st1 = Inr (Some t, st')"
        by (subst (asm) yylex.simps) simp
      with 1(1) [OF left step] None shrinks show ?thesis by simp
    next
      case (Some v)
      with 1(2) step left have "st' = st1"
        by (subst (asm) yylex.simps) simp
      with shrinks show ?thesis by simp
    qed
  qed
qed

text \<open>All tokens of a file, as the parser reads them.\<close>

function tokens_of :: "scanner \<Rightarrow> ((token \<times> nat) list \<times> scanner) res" where
  "tokens_of st =
     (case yylex st of
        Inl f \<Rightarrow> Inl f
      | Inr (None, st') \<Rightarrow> Inr ([], st')
      | Inr (Some t, st') \<Rightarrow> bindE (tokens_of st') (\<lambda>(ts, st''). Inr (t # ts, st'')))"
  by pat_completeness auto
termination
  by (relation "measure (\<lambda>st. length (unread st))") (auto simp: yylex_shrinks)

declare tokens_of.simps [simp del]

text \<open>A new scanner starts in \<open>INITIAL\<close> at line 1; the static flag is as the last scanner left it.\<close>

definition new_scanner :: "bool \<Rightarrow> string \<Rightarrow> scanner" where
  "new_scanner flag file_text =
     \<lparr>condition = INITIAL, eat_whitespace = flag, yylineno = 1, unread = file_text\<rparr>"

definition scan_file :: "bool \<Rightarrow> string \<Rightarrow> ((token \<times> nat) list \<times> bool) res" where
  "scan_file flag file_text =
     bindE (tokens_of (new_scanner flag file_text)) (\<lambda>(ts, st). Inr (ts, eat_whitespace st))"

end
