(* ===== verification/Scanner_Laws.thy ===== *)
theory Scanner_Laws
  imports Scanner
begin

text \<open>
  What the scanner does: it takes the longest match and the first rule that has it; plain text
  comes out as it is; comments vanish; the tokens of a variable block, written with a space after
  each, are scanned back; and the cases in which text is lost.
\<close>

section \<open>The choice of a rule\<close>

lemma best_rule_None: "best_rule rs s = None \<longleftrightarrow> (\<forall>r \<in> set rs. match_length r s = None)"
  by (induction rs) (auto split: option.splits if_splits)

lemma best_rule_at_most: "best_rule rs s = Some (n, r) \<Longrightarrow> q \<in> set rs \<Longrightarrow> match_length q s = Some m \<Longrightarrow> m \<le> n"
  by (induction rs arbitrary: n r)
    (force simp: best_rule_None split: option.splits if_splits prod.splits)+

lemma best_rule_intro:
  assumes "match_length r s = Some n"
    and "\<And>q m. q \<in> set pre \<Longrightarrow> match_length q s = Some m \<Longrightarrow> m < n"
    and "\<And>q m. q \<in> set post \<Longrightarrow> match_length q s = Some m \<Longrightarrow> m \<le> n"
  shows "best_rule (pre @ r # post) s = Some (n, r)"
proof -
  have tail: "best_rule (r # post) s = Some (n, r)"
  proof (cases "best_rule post s")
    case (Some a)
    then obtain m q where a: "best_rule post s = Some (m, q)" by (cases a) auto
    from best_rule_member [OF a] have "m \<le> n" using assms(3) by blast
    with assms(1) a show ?thesis by simp
  qed (use assms(1) in simp)
  from assms(2) show ?thesis
  proof (induction pre)
    case (Cons q pre)
    have "best_rule (pre @ r # post) s = Some (n, r)"
      by (rule Cons.IH) (rule Cons.prems, simp_all)
    then show ?case using Cons.prems [of q] by (cases "match_length q s") auto
  qed (use tail in simp)
qed

lemma best_rule_split:
  assumes "best_rule rs s = Some (n, r)"
  shows "\<exists>pre post. rs = pre @ r # post \<and> match_length r s = Some n \<and>
    (\<forall>q \<in> set pre. \<forall>m. match_length q s = Some m \<longrightarrow> m < n)"
  using assms
proof (induction rs)
  case (Cons q rs)
  show ?case
  proof (cases "match_length q s = Some n \<and> r = q")
    case True
    then show ?thesis by (intro exI [of _ "[]"] exI [of _ rs]) simp
  next
    case False
    with Cons.prems have rest: "best_rule rs s = Some (n, r)"
      and q: "\<forall>m. match_length q s = Some m \<longrightarrow> m < n"
      by (auto split: option.splits if_splits)
    from Cons.IH [OF rest] obtain pre post where "rs = pre @ r # post" "match_length r s = Some n"
      "\<forall>q \<in> set pre. \<forall>m. match_length q s = Some m \<longrightarrow> m < n" by blast
    with q show ?thesis by (intro exI [of _ "q # pre"] exI [of _ post]) simp
  qed
qed simp

lemma match_length_None: "match_length r s = None \<longleftrightarrow> (\<forall>m > 0. \<not> accepts (whole_pattern r) s m)"
  by (simp add: match_length_def longest_match_None)

lemma match_length_Some: "match_length r s = Some n \<longleftrightarrow> is_longest (whole_pattern r) s n"
  by (simp add: match_length_def longest_match_Some)

lemma match_length_below:
  "(\<forall>m. match_length r s = Some m \<longrightarrow> m < n) \<longleftrightarrow> (\<forall>m > 0. accepts (whole_pattern r) s m \<longrightarrow> m < n)"
proof (cases "match_length r s")
  case (Some k)
  then have "is_longest (whole_pattern r) s k" by (simp add: match_length_Some)
  with Some show ?thesis by (auto simp: is_longest_def) (meson le_less_trans not_less)
qed (simp add: match_length_None [THEN iffD1])

text \<open>The choice in terms of what the patterns mean.\<close>

lemma best_rule_iff:
  "best_rule rs s = Some (n, r) \<longleftrightarrow>
     (\<exists>pre post. rs = pre @ r # post \<and> 0 < n \<and> n \<le> length s \<and> matches (whole_pattern r) (take n s) \<and>
       (\<forall>q m. (q \<in> set pre \<and> n \<le> m \<or> q \<in> set rs \<and> n < m) \<and> m \<le> length s
          \<longrightarrow> \<not> matches (whole_pattern q) (take m s)))"
  (is "_ \<longleftrightarrow> ?spec")
proof
  assume best: "best_rule rs s = Some (n, r)"
  from best_rule_split [OF best] obtain pre post where rs: "rs = pre @ r # post"
    and n: "match_length r s = Some n"
    and pre: "\<forall>q \<in> set pre. \<forall>m. match_length q s = Some m \<longrightarrow> m < n" by blast
  from n have "0 < n" "n \<le> length s" "matches (whole_pattern r) (take n s)"
    by (auto simp: match_length_Some is_longest_def accepts_def)
  moreover have "\<not> matches (whole_pattern q) (take m s)"
    if "q \<in> set pre \<and> n \<le> m \<or> q \<in> set rs \<and> n < m" "m \<le> length s" for q m
  proof
    assume "matches (whole_pattern q) (take m s)"
    with that(2) have acc: "accepts (whole_pattern q) s m" by (simp add: accepts_def)
    from that \<open>0 < n\<close> have "0 < m" by auto
    have "\<forall>k. match_length q s = Some k \<longrightarrow> k < Suc n" if "q \<in> set rs"
      using best_rule_at_most [OF best that] by (auto simp: less_Suc_eq_le)
    then have "q \<in> set rs \<Longrightarrow> m < Suc n"
      using acc \<open>0 < m\<close> unfolding match_length_below by blast
    moreover have "q \<in> set pre \<Longrightarrow> m < n"
      using pre acc \<open>0 < m\<close> unfolding match_length_below by blast
    ultimately show False using that(1) by auto
  qed
  ultimately show ?spec using rs by blast
next
  assume ?spec
  then obtain pre post where rs: "rs = pre @ r # post" and n: "0 < n" "n \<le> length s"
    "matches (whole_pattern r) (take n s)"
    and other: "\<And>q m. (q \<in> set pre \<and> n \<le> m \<or> q \<in> set rs \<and> n < m) \<Longrightarrow> m \<le> length s
          \<Longrightarrow> \<not> matches (whole_pattern q) (take m s)" by blast
  show "best_rule rs s = Some (n, r)"
    unfolding rs
  proof (rule best_rule_intro)
    show "match_length r s = Some n"
      using n other [of r] rs by (auto simp: match_length_Some is_longest_def accepts_def)
    show "m < n" if "q \<in> set pre" "match_length q s = Some m" for q m
      using other [of q m] that by (cases "m < n") (auto simp: match_length_Some is_longest_def accepts_def)
    show "m \<le> n" if "q \<in> set post" "match_length q s = Some m" for q m
      using other [of q m] that rs by (cases "m \<le> n") (auto simp: match_length_Some is_longest_def accepts_def)
  qed
qed

text \<open>Only the rules count whose pattern can begin with the first character.\<close>

lemma match_length_Cons: "derivative c (whole_pattern r) = Void \<Longrightarrow> match_length r (c # s) = None"
  by (simp add: match_length_def longest_match_def)

lemma best_rule_relevant:
  "best_rule rs (c # s) = best_rule (filter (\<lambda>r. derivative c (whole_pattern r) \<noteq> Void) rs) (c # s)"
  by (induction rs) (auto simp: match_length_Cons split: option.split)

section \<open>Steps and token lists\<close>

abbreviation at :: "start_condition \<Rightarrow> bool \<Rightarrow> nat \<Rightarrow> string \<Rightarrow> scanner" where
  "at c flag line s \<equiv> \<lparr>condition = c, eat_whitespace = flag, yylineno = line, unread = s\<rparr>"

definition newlines :: "string \<Rightarrow> nat" where
  "newlines s = length (filter (\<lambda>c. c = newline) s)"

lemma newlines_simps [simp]:
  "newlines [] = 0" "newlines (c # s) = (if c = newline then 1 else 0) + newlines s"
  "newlines (s @ t) = newlines s + newlines t"
  by (simp_all add: newlines_def)

lemma advance_at [simp]: "advance k (at c flag line s) = at c flag (line + newlines (take k s)) (drop k s)"
  by (simp add: advance_def newlines_def)

lemma scan_step_match:
  "best_rule (rules_of c) s = Some (n, r) \<Longrightarrow>
     scan_step (at c flag line s) =
       (let k = n - length (trailing r)
        in action r (take k s) (at c flag (line + newlines (take k s)) (drop k s)))"
  by (simp add: scan_step_def)

lemma scan_step_default:
  "best_rule (rules_of c) (d # s) = None \<Longrightarrow>
     scan_step (at c flag line (d # s)) = Inr (None, at c flag (line + newlines [d]) s)"
  by (simp add: scan_step_def)

definition then_tokens :: "(token \<times> nat) list \<Rightarrow> scanner \<Rightarrow> ((token \<times> nat) list \<times> scanner) res" where
  "then_tokens ts st = bindE (tokens_of st) (\<lambda>(us, st'). Inr (ts @ us, st'))"

lemma then_tokens_Nil [simp]: "then_tokens [] st = tokens_of st"
  by (simp add: then_tokens_def bindE_def split: sum.split)

lemma tokens_end: "unread st = [] \<Longrightarrow> tokens_of st = Inr ([], st)"
  by (simp add: tokens_of.simps [of st] yylex.simps [of st])

lemma tokens_skip:
  "scan_step st = Inr (None, st') \<Longrightarrow> unread st \<noteq> [] \<Longrightarrow> tokens_of st = tokens_of st'"
  by (simp add: tokens_of.simps [of st] tokens_of.simps [of st'] yylex.simps [of st])

lemma tokens_take:
  "scan_step st = Inr (Some t, st') \<Longrightarrow> unread st \<noteq> [] \<Longrightarrow> tokens_of st = then_tokens [(t, yylineno st')] st'"
  by (simp add: tokens_of.simps [of st] yylex.simps [of st] then_tokens_def)

lemma then_tokens_then:
  "tokens_of st = then_tokens us st' \<Longrightarrow> then_tokens ts st = then_tokens (ts @ us) st'"
  by (cases "tokens_of st'") (auto simp: then_tokens_def)

section \<open>Plain text\<close>

lemma longest_run:
  assumes "\<And>w. matches p w \<longleftrightarrow> w \<noteq> [] \<and> (\<forall>c \<in> set w. P c)"
    and "w \<noteq> []" "\<forall>c \<in> set w. P c" "rest = [] \<or> \<not> P (hd rest)"
  shows "longest_match p (w @ rest) = Some (length w)"
  unfolding longest_match_Some is_longest_def accepts_def
proof (intro conjI allI impI notI)
  fix m
  assume m: "length w < m" and "m \<le> length (w @ rest) \<and> matches p (take m (w @ rest))"
  then have "\<forall>c \<in> set (take m (w @ rest)). P c" "rest \<noteq> []" using assms(1) by auto
  moreover from this m have "hd rest \<in> set (take m (w @ rest))"
    by (cases rest; cases "m - length w") auto
  ultimately show False using assms(4) by auto
qed (use assms in auto)

lemma longest_plus_except:
  "w \<noteq> [] \<Longrightarrow> set w \<inter> set cs = {} \<Longrightarrow> rest = [] \<or> hd rest \<in> set cs \<Longrightarrow>
     longest_match (Plus (Except cs)) (w @ rest) = Some (length w)"
  by (rule longest_run [where P = "\<lambda>c. c \<notin> set cs"]) (auto simp: matches_plus_except)

lemma longest_plus_among:
  "w \<noteq> [] \<Longrightarrow> set w \<subseteq> set cs \<Longrightarrow> rest = [] \<or> hd rest \<notin> set cs \<Longrightarrow>
     longest_match (Plus (Among cs)) (w @ rest) = Some (length w)"
  by (rule longest_run [where P = "\<lambda>c. c \<in> set cs"]) (auto simp: matches_plus_among)

lemma longest_except: "longest_match (Except cs) (c # s) = (if c \<in> set cs then None else Some 1)"
  by (auto simp: longest_match_Some longest_match_None is_longest_def accepts_def take_Cons')

text \<open>The four ways in which the scanner goes on in plain text.\<close>

definition blank :: "char \<Rightarrow> bool" where
  "blank c \<longleftrightarrow> c \<in> set whitespace"

lemma blank_brace [simp]: "\<not> blank (CHR ''{'')"
  by (simp add: blank_def)

lemma step_word:
  assumes "w \<noteq> []" "\<forall>c \<in> set w. \<not> blank c \<and> c \<noteq> CHR ''{''" "rest = [] \<or> blank (hd rest) \<or> hd rest = CHR ''{''"
  shows "scan_step (at INITIAL flag line (w @ rest)) =
    Inr (Some (T_RAW (c_string w)), at INITIAL False (line + newlines w) rest)"
proof -
  obtain c w' where w: "w = c # w'" using assms(1) by (cases w) auto
  let ?rule = "on (Plus (Except (CHR ''{'' # whitespace))) (\<lambda>yytext st. return_raw yytext (st\<lparr>eat_whitespace := False\<rparr>))"
  have n: "match_length ?rule (w @ rest) = Some (length w)"
    using longest_plus_except [of w "CHR ''{'' # whitespace" rest] assms
    by (auto simp: match_length_def whole_pattern_def blank_def)
  have "filter (\<lambda>r. derivative c (whole_pattern r) \<noteq> Void) initial_rules = [?rule, on any_but_newline return_raw]"
    using assms(2) by (auto simp: w initial_rules_def whole_pattern_def in_order_def blank_def)
  then have "best_rule (rules_of INITIAL) (w @ rest) = Some (length w, ?rule)"
    using best_rule_relevant [of initial_rules c "w' @ rest"] n w
    by (simp add: match_length_def whole_pattern_def longest_except)
  then show ?thesis
    by (simp add: scan_step_match return_raw_def return_token_def)
qed

lemma take_split: "m \<le> length s \<Longrightarrow> take m s = t \<longleftrightarrow> prefix t s \<and> m = length t"
  by (auto simp: prefix_def) (metis append_take_drop_id)

lemma blanks_unique:
  assumes "\<forall>c \<in> set w. blank c" "rest = [] \<or> \<not> blank (hd rest)"
    and "\<forall>c \<in> set a. blank c" "w @ rest = a @ CHR ''{'' # t"
  shows "a = w"
proof -
  have "takeWhile blank (w @ rest) = w" using assms(1,2) by (cases rest) (auto simp: takeWhile_append)
  moreover have "takeWhile blank (a @ CHR ''{'' # t) = a" using assms(3) by (simp add: takeWhile_append)
  ultimately show ?thesis using assms(4) by simp
qed

lemma accepts_blanks_block:
  assumes "w \<noteq> []" "\<forall>c \<in> set w. blank c" "rest = [] \<or> \<not> blank (hd rest)"
  shows "accepts (Seq (Plus (Among whitespace)) (Word ''{-%'')) (w @ rest) m \<longleftrightarrow>
    prefix ''{-%'' rest \<and> m = length w + 3"
proof
  assume "accepts (Seq (Plus (Among whitespace)) (Word ''{-%'')) (w @ rest) m"
  then obtain a where m: "m \<le> length (w @ rest)" and a: "take m (w @ rest) = a @ ''{-%''"
    and blank: "\<forall>c \<in> set a. blank c"
    unfolding accepts_def matches_Seq [of "Plus (Among whitespace)"] matches_plus_among
    by (auto simp: blank_def)
  from a obtain t where t: "w @ rest = a @ ''{-%'' @ t"
    by (metis append_assoc append_take_drop_id)
  with blanks_unique [OF assms(2,3) blank, of "''-%'' @ t"] have "a = w" by simp
  moreover have "m = length (a @ ''{-%'')" using m arg_cong [OF a, of length] by simp
  ultimately show "prefix ''{-%'' rest \<and> m = length w + 3" using t by auto
next
  assume "prefix ''{-%'' rest \<and> m = length w + 3"
  then obtain t where "rest = ''{-%'' @ t" "m = length w + 3" by (auto simp: prefix_def)
  with assms show "accepts (Seq (Plus (Among whitespace)) (Word ''{-%'')) (w @ rest) m"
    by (auto simp: accepts_def matches_Seq [of "Plus (Among whitespace)"] matches_plus_among blank_def)
qed

lemma blank_rules:
  assumes "w \<noteq> []" "\<forall>c \<in> set w. blank c" "rest = [] \<or> \<not> blank (hd rest)"
  shows "best_rule (rules_of INITIAL) (w @ rest) =
    (if prefix ''{-%'' rest then Some (length w + 3, \<lparr>pattern = Plus (Among whitespace), trailing = ''{-%'', action = ignore\<rparr>)
     else Some (length w, on (Plus (Among whitespace))
        (\<lambda>yytext st. if \<not> eat_whitespace st then return_raw yytext st else ignore yytext st)))"
proof -
  obtain c w' where w: "w = c # w'" using assms(1) by (cases w) auto
  let ?before = "\<lparr>pattern = Plus (Among whitespace), trailing = ''{-%'', action = ignore\<rparr>"
    and ?run = "on (Plus (Among whitespace))
        (\<lambda>yytext st. if \<not> eat_whitespace st then return_raw yytext st else ignore yytext st)"
  have run: "match_length ?run (w @ rest) = Some (length w)"
    using longest_plus_among [of w whitespace rest] assms
    by (auto simp: match_length_def whole_pattern_def blank_def)
  have before: "match_length ?before (w @ rest) = (if prefix ''{-%'' rest then Some (length w + 3) else None)"
    using accepts_blanks_block [OF assms]
    by (simp add: match_length_def whole_pattern_def longest_match_Some longest_match_None is_longest_def)
  have last: "match_length (on any_but_newline return_raw) (w @ rest) = (if c = newline then None else Some 1)"
    by (simp add: w match_length_def whole_pattern_def longest_except)
  have "filter (\<lambda>r. derivative c (whole_pattern r) \<noteq> Void) initial_rules =
    [?before, ?run] @ (if c = newline then [] else [on any_but_newline return_raw])"
    using assms(2) by (auto simp: w initial_rules_def whole_pattern_def in_order_def blank_def)
  then have "best_rule (rules_of INITIAL) (w @ rest) =
    best_rule ([?before, ?run] @ (if c = newline then [] else [on any_but_newline return_raw])) (w @ rest)"
    using best_rule_relevant [of initial_rules c "w' @ rest"] by (simp add: w)
  then show ?thesis
    using assms(1) by (auto simp: run before last Suc_le_eq)
qed

lemma step_blanks:
  assumes "w \<noteq> []" "\<forall>c \<in> set w. blank c" "rest = [] \<or> \<not> blank (hd rest)"
  shows "scan_step (at INITIAL flag line (w @ rest)) =
    Inr (if flag \<or> prefix ''{-%'' rest then None else Some (T_RAW (c_string w)),
      at INITIAL flag (line + newlines w) rest)"
  using blank_rules [OF assms]
  by (cases "prefix ''{-%'' rest") (auto simp: scan_step_match return_raw_def return_token_def ignore_def)

text \<open>The text that comes out between two tags.\<close>

definition strip_left :: "string \<Rightarrow> string" where
  "strip_left s = dropWhile blank s"

definition strip_right :: "string \<Rightarrow> string" where
  "strip_right s = rev (dropWhile blank (rev s))"

fun raw_of :: "token \<Rightarrow> string" where
  "raw_of (T_RAW s) = s"
| "raw_of _ = []"

fun is_raw_token :: "token \<Rightarrow> bool" where
  "is_raw_token (T_RAW s) = True"
| "is_raw_token _ = False"

definition kept_text :: "bool \<Rightarrow> string \<Rightarrow> string \<Rightarrow> string" where
  "kept_text flag s rest =
     (let t = (if prefix ''{-%'' rest then strip_right s else s) in if flag then strip_left t else t)"

lemma strip_right_append: "\<exists>c \<in> set t. \<not> blank c \<Longrightarrow> strip_right (s @ t) = s @ strip_right t"
  by (auto simp: strip_right_def dropWhile_append)

lemma strip_right_word: "\<forall>c \<in> set w. \<not> blank c \<Longrightarrow> strip_right w = w"
  by (cases w rule: rev_cases) (auto simp: strip_right_def)

lemma strip_right_after_word: "w \<noteq> [] \<Longrightarrow> \<forall>c \<in> set w. \<not> blank c \<Longrightarrow> strip_right (w @ t) = w @ strip_right t"
  by (cases "\<exists>c \<in> set t. \<not> blank c")
    (auto simp: strip_right_append strip_right_word [unfolded strip_right_def] strip_right_def dropWhile_append dropWhile_eq_Nil_conv)

lemma strip_blank: "\<forall>c \<in> set w. blank c \<Longrightarrow> strip_right w = []" "\<forall>c \<in> set w. blank c \<Longrightarrow> strip_left (w @ t) = strip_left t"
  by (simp_all add: strip_right_def strip_left_def dropWhile_append)

lemma strip_left_word: "w \<noteq> [] \<Longrightarrow> \<forall>c \<in> set w. \<not> blank c \<Longrightarrow> strip_left (w @ t) = w @ t"
  by (cases w) (auto simp: strip_left_def)

text \<open>A run of blanks or of other characters, and what is kept of the text when it is taken.\<close>

lemma kept_word:
  "w \<noteq> [] \<Longrightarrow> \<forall>c \<in> set w. \<not> blank c \<Longrightarrow> kept_text flag (w @ t) rest = w @ kept_text False t rest"
  by (auto simp: kept_text_def Let_def strip_right_after_word strip_left_word)

lemma kept_blanks:
  assumes "\<forall>c \<in> set w. blank c" "t = [] \<or> \<not> blank (hd t)"
  shows "kept_text flag (w @ t) rest =
    (if flag \<or> t = [] \<and> prefix ''{-%'' rest then [] else w) @ kept_text flag t rest"
proof (cases "t = []")
  case True
  then show ?thesis
    using assms strip_blank(2) [of w "[]"]
    by (auto simp: kept_text_def strip_left_def strip_right_def dest: set_dropWhileD)
next
  case False
  then have "\<exists>c \<in> set t. \<not> blank c" using assms(2) by (cases t) auto
  with assms(1) show ?thesis by (auto simp: kept_text_def strip_right_append strip_blank False)
qed

lemma run_split:
  obtains w t where "s = w @ t" "\<forall>c \<in> set w. P c" "t = [] \<or> \<not> P (hd t)"
  using hd_dropWhile [of P s] by (metis set_takeWhileD takeWhile_dropWhile_id)

lemma nul_free_c_string [simp]: "nul_free s \<Longrightarrow> c_string s = s"
  by (induction s) (auto simp: c_string_def nul_free_def)

lemma plain_text:
  assumes "CHR ''{'' \<notin> set s" and "nul_free s" and "rest = [] \<or> hd rest = CHR ''{''"
  shows "\<exists>ts. tokens_of (at INITIAL flag line (s @ rest)) =
      then_tokens ts (at INITIAL (flag \<and> list_all blank s) (line + newlines s) rest) \<and>
    (\<forall>(t, _) \<in> set ts. is_raw_token t) \<and> concat (map (raw_of \<circ> fst) ts) = kept_text flag s rest"
  using assms(1,2)
proof (induction "length s" arbitrary: s flag line rule: less_induct)
  case less
  show ?case
  proof (cases s)
    case Nil
    then show ?thesis by (intro exI [of _ "[]"]) (simp add: kept_text_def strip_left_def strip_right_def)
  next
    case (Cons c s')
    obtain w t where s: "s = w @ t" and w: "\<forall>d \<in> set w. blank d = blank c" and t: "t = [] \<or> blank (hd t) \<noteq> blank c"
      by (rule run_split [of s "\<lambda>d. blank d = blank c"]) auto
    have ne: "w \<noteq> []" using s t Cons by (cases w) auto
    have plain: "CHR ''{'' \<notin> set t" "nul_free t" "nul_free w" "CHR ''{'' \<notin> set w"
      using less.prems by (auto simp: s nul_free_def)
    have edge: "t @ rest = [] \<or> blank (hd (t @ rest)) \<noteq> blank c \<or> hd (t @ rest) = CHR ''{''"
      using t assms(3) by (cases t) auto
    have pre: "prefix ''{-%'' (t @ rest) \<longleftrightarrow> t = [] \<and> prefix ''{-%'' rest"
      using plain(1) by (cases t) (auto simp: prefix_def)
    show ?thesis
    proof (cases "blank c")
      case True
      then have step: "scan_step (at INITIAL flag line (s @ rest)) =
          Inr (if flag \<or> t = [] \<and> prefix ''{-%'' rest then None else Some (T_RAW w),
            at INITIAL flag (line + newlines w) (t @ rest))"
        using step_blanks [of w "t @ rest" flag line] w edge ne plain(3) pre by (auto simp: s)
      from less.hyps [of t flag "line + newlines w"] ne plain obtain ts where ts:
        "tokens_of (at INITIAL flag (line + newlines w) (t @ rest)) =
          then_tokens ts (at INITIAL (flag \<and> list_all blank t) (line + newlines w + newlines t) rest)"
        "\<forall>(t, _) \<in> set ts. is_raw_token t" "concat (map (raw_of \<circ> fst) ts) = kept_text flag t rest"
        by (auto simp: s)
      have all: "list_all blank s \<longleftrightarrow> list_all blank t" using w True by (auto simp: s list_all_iff)
      have kept: "kept_text flag s rest = (if flag \<or> t = [] \<and> prefix ''{-%'' rest then [] else w) @ kept_text flag t rest"
        unfolding s by (rule kept_blanks) (use w t True in auto)
      show ?thesis
      proof (cases "flag \<or> t = [] \<and> prefix ''{-%'' rest")
        case True
        with step have "tokens_of (at INITIAL flag line (s @ rest)) = tokens_of (at INITIAL flag (line + newlines w) (t @ rest))"
          using Cons by (intro tokens_skip) auto
        with ts kept True all show ?thesis by (intro exI [of _ ts]) (simp add: s add.assoc)
      next
        case False
        with step have "tokens_of (at INITIAL flag line (s @ rest)) =
            then_tokens [(T_RAW w, line + newlines w)] (at INITIAL flag (line + newlines w) (t @ rest))"
          using Cons tokens_take [of "at INITIAL flag line (s @ rest)"] by simp
        with then_tokens_then [OF ts(1)] ts(2,3) kept False all show ?thesis
          by (intro exI [of _ "(T_RAW w, line + newlines w) # ts"]) (auto simp: s add.assoc)
      qed
    next
      case False
      with w edge plain(3,4) ne have step: "scan_step (at INITIAL flag line (s @ rest)) =
          Inr (Some (T_RAW w), at INITIAL False (line + newlines w) (t @ rest))"
        using step_word [of w "t @ rest" flag line] by (auto simp: s)
      from less.hyps [of t False "line + newlines w"] ne plain obtain ts where ts:
        "tokens_of (at INITIAL False (line + newlines w) (t @ rest)) =
          then_tokens ts (at INITIAL False (line + newlines w + newlines t) rest)"
        "\<forall>(t, _) \<in> set ts. is_raw_token t" "concat (map (raw_of \<circ> fst) ts) = kept_text False t rest"
        by (auto simp: s)
      have "\<not> list_all blank s" using False Cons by simp
      moreover from step have "tokens_of (at INITIAL flag line (s @ rest)) =
          then_tokens [(T_RAW w, line + newlines w)] (at INITIAL False (line + newlines w) (t @ rest))"
        using Cons tokens_take [of "at INITIAL flag line (s @ rest)"] by simp
      moreover have "kept_text flag s rest = w @ kept_text False t rest"
        unfolding s by (rule kept_word) (use w False ne in auto)
      ultimately show ?thesis using then_tokens_then [OF ts(1)] ts(2,3)
        by (intro exI [of _ "(T_RAW w, line + newlines w) # ts"]) (auto simp: s add.assoc)
    qed
  qed
qed



section \<open>Comments\<close>

lemma comment_step_text:
  assumes "w \<noteq> []" "CHR ''#'' \<notin> set w" "rest = [] \<or> hd rest = CHR ''#''"
  shows "scan_step (at IN_COMMENT flag line (w @ rest)) = Inr (None, at IN_COMMENT flag (line + newlines w) rest)"
proof -
  obtain c w' where w: "w = c # w'" using assms(1) by (cases w) auto
  have n: "match_length (on (Plus (Except ''#'')) ignore) (w @ rest) = Some (length w)"
    using longest_plus_except [of w "''#''" rest] assms by (simp add: match_length_def whole_pattern_def)
  have "match_length (on any_but_newline ignore) (w @ rest) = (if c = newline then None else Some 1)"
    by (simp add: w match_length_def whole_pattern_def longest_except)
  moreover have "match_length (on (Word ''#}'') (\<lambda>yytext st. ignore yytext (BEGIN INITIAL st))) (w @ rest) = None"
    using assms(2) by (auto simp: w match_length_Cons whole_pattern_def)
  ultimately have "best_rule (rules_of IN_COMMENT) (w @ rest) = Some (length w, on (Plus (Except ''#'')) ignore)"
    using n assms(1) by (simp add: comment_rules_def Suc_le_eq)
  then show ?thesis by (simp add: scan_step_match ignore_def)
qed

lemma comment_step_hash:
  assumes "rest = [] \<or> hd rest \<noteq> CHR ''}''"
  shows "scan_step (at IN_COMMENT flag line (CHR ''#'' # rest)) = Inr (None, at IN_COMMENT flag line rest)"
proof -
  have "match_length (on (Word ''#}'') (\<lambda>yytext st. ignore yytext (BEGIN INITIAL st))) (CHR ''#'' # rest) = None"
    using assms by (cases rest) (simp_all add: match_length_def whole_pattern_def longest_match_def)
  moreover have "match_length (on (Plus (Except ''#'')) ignore) (CHR ''#'' # rest) = None"
    by (simp add: match_length_Cons whole_pattern_def in_order_def)
  moreover have "match_length (on any_but_newline ignore) (CHR ''#'' # rest) = Some 1"
    by (simp add: match_length_def whole_pattern_def longest_except)
  ultimately have "best_rule (rules_of IN_COMMENT) (CHR ''#'' # rest) = Some (1, on any_but_newline ignore)"
    by (simp add: comment_rules_def)
  then show ?thesis by (simp add: scan_step_match ignore_def)
qed

lemma comment_step_end:
  "scan_step (at IN_COMMENT flag line (''#}'' @ rest)) = Inr (None, at INITIAL flag line rest)"
proof -
  have "match_length (on (Word ''#}'') (\<lambda>yytext st. ignore yytext (BEGIN INITIAL st))) (CHR ''#'' # CHR ''}'' # rest) = Some 2"
    by (cases rest) (simp_all add: match_length_def whole_pattern_def longest_match_def)
  moreover have "match_length (on (Plus (Except ''#'')) ignore) (CHR ''#'' # CHR ''}'' # rest) = None"
    by (simp add: match_length_Cons whole_pattern_def in_order_def)
  moreover have "match_length (on any_but_newline ignore) (CHR ''#'' # CHR ''}'' # rest) = Some 1"
    by (simp add: match_length_def whole_pattern_def longest_except)
  ultimately have "best_rule (rules_of IN_COMMENT) (''#}'' @ rest) =
      Some (2, on (Word ''#}'') (\<lambda>yytext st. ignore yytext (BEGIN INITIAL st)))"
    by (simp add: comment_rules_def)
  then show ?thesis by (simp add: scan_step_match ignore_def BEGIN_def)
qed

text \<open>The rest of a file after the first end of a comment, if there is one.\<close>

fun after_comment :: "string \<Rightarrow> nat \<Rightarrow> (nat \<times> string) option" where
  "after_comment (c # d # s) line =
     (if c = CHR ''#'' \<and> d = CHR ''}'' then Some (line, s)
      else after_comment (d # s) (if c = newline then line + 1 else line))"
| "after_comment s line = None"

lemma after_comment_text:
  assumes "CHR ''#'' \<notin> set w"
  shows "after_comment (w @ rest) line = after_comment rest (line + newlines w)"
  using assms
proof (induction w arbitrary: line)
  case (Cons c w)
  show ?case
  proof (cases "w @ rest")
    case Nil
    then show ?thesis by simp
  next
    case (Cons d s)
    with Cons.prems Cons.IH show ?thesis by auto
  qed
qed simp

text \<open>
  C18: (comments) From inside a comment the scanner returns what it returns from after the first end of
  the comment, and nothing if the comment does not end.
\<close>

theorem comments_vanish:
  "case after_comment s line of
     Some (line', rest) \<Rightarrow> tokens_of (at IN_COMMENT flag line s) = tokens_of (at INITIAL flag line' rest)
   | None \<Rightarrow> tokens_of (at IN_COMMENT flag line s) = Inr ([], at IN_COMMENT flag (line + newlines s) [])"
proof (induction "length s" arbitrary: s line rule: less_induct)
  case less
  obtain w t where s: "s = w @ t" and w: "\<forall>c \<in> set w. c \<noteq> CHR ''#''" and t: "t = [] \<or> hd t = CHR ''#''"
    by (rule run_split [of s "\<lambda>c. c \<noteq> CHR ''#''"]) auto
  show ?case
  proof (cases "w = []")
    case False
    with w t have "tokens_of (at IN_COMMENT flag line s) = tokens_of (at IN_COMMENT flag (line + newlines w) t)"
      unfolding s by (intro tokens_skip comment_step_text) auto
    moreover have "after_comment s line = after_comment t (line + newlines w)"
      unfolding s by (rule after_comment_text) (use w in auto)
    moreover note less.hyps [of t "line + newlines w"]
    ultimately show ?thesis using False by (auto simp: s add.assoc split: option.splits)
  next
    case w: True
    show ?thesis
    proof (cases t)
      case Nil
      then show ?thesis by (simp add: s w tokens_end)
    next
      case (Cons h u)
      then have h: "s = CHR ''#'' # u" using t s w by simp
      show ?thesis
      proof (cases "u \<noteq> [] \<and> hd u = CHR ''}''")
        case True
        then obtain v where "u = CHR ''}'' # v" by (cases u) auto
        with comment_step_end [of flag line v] tokens_skip show ?thesis by (simp add: h)
      next
        case False
        then have "tokens_of (at IN_COMMENT flag line s) = tokens_of (at IN_COMMENT flag line u)"
          unfolding h by (intro tokens_skip comment_step_hash) auto
        moreover have "after_comment s line = after_comment u line"
          using False by (cases u) (auto simp: h)
        moreover note less.hyps [of u line]
        ultimately show ?thesis by (auto simp: h split: option.splits)
      qed
    qed
  qed
qed

section \<open>Characters that no token begins with\<close>

abbreviation in_block :: "start_condition \<Rightarrow> bool" where
  "in_block c \<equiv> c = IN_VARIABLE \<or> c = IN_BLOCK"

definition symbols :: "string list" where
  "symbols =
     [''=='', ''!='', ''>'', ''>='', ''<'', ''<='', ''&&'', ''and'', ''AND'', ''||'', ''or'', ''OR'', ''!'', ''not'',
      ''NOT'', ''+'', ''-'', ''*'', ''/'', ''%'', ''('', '')'', ''.'', '','', ''='']"

definition block_words :: "string list" where
  "block_words =
     [''if'', ''else if'', ''elseif'', ''else'', ''endif'', ''for'', ''in'', ''endfor'', ''include'', ''with'', ''using'']"

definition boolean_words :: "string list" where
  "boolean_words = [''true'', ''TRUE'', ''false'', ''FALSE'']"

text \<open>The patterns alone, in the order of the rules.\<close>

definition expression_patterns :: "regex list" where
  "expression_patterns =
     map Word symbols @ [STRING_LITERAL, STRING_LITERAL_SQ, INTEGER, DOUBLE] @ map Word boolean_words @ [IDENTIFIER]"

fun patterns_of :: "start_condition \<Rightarrow> regex list" where
  "patterns_of IN_VARIABLE = [Word ''}}'', Plus (Among [CHR '' '', tabulator])] @ expression_patterns"
| "patterns_of IN_BLOCK =
     [Word ''%}'', Word ''%-}'', Plus (Among [CHR '' '', tabulator])] @ map Word block_words @ expression_patterns"
| "patterns_of _ = []"

lemma patterns_of_rules: "in_block cond \<Longrightarrow> map whole_pattern (rules_of cond) = patterns_of cond"
  by (auto simp: variable_rules_def block_rules_def expression_rules_def whole_pattern_def
      expression_patterns_def symbols_def block_words_def boolean_words_def)

lemma best_rule_no_pattern:
  assumes "in_block cond" and "list_all (\<lambda>p. derivative c p = Void) (patterns_of cond)"
  shows "best_rule (rules_of cond) (c # s) = None"
  using assms(2) match_length_Cons
  unfolding best_rule_None patterns_of_rules [OF assms(1), symmetric] by (simp add: list_all_iff)

definition unknown_characters :: string where
  "unknown_characters = ''@#$^`~:;?[]{'' @ [backslash, newline, CHR 0x0D]"

lemma unknown_begin_nothing:
  "list_all (\<lambda>c. list_all (\<lambda>p. derivative c p = Void) (patterns_of IN_VARIABLE)) unknown_characters"
  "list_all (\<lambda>c. list_all (\<lambda>p. derivative c p = Void) (patterns_of IN_BLOCK)) unknown_characters"
  by code_simp+

text \<open>
  (characters that are lost) In a block the scanner drops the characters that begin no token
  without a report, so a block with one of them scans as the block without it.
\<close>

theorem unknown_characters_are_dropped:
  assumes "c \<in> set unknown_characters" and "in_block cond"
  shows "tokens_of (at cond flag line (c # s)) = tokens_of (at cond flag (line + newlines [c]) s)"
proof -
  have "list_all (\<lambda>p. derivative c p = Void) (patterns_of cond)"
    using assms unknown_begin_nothing by (auto simp only: list_all_iff)
  with assms(2) show ?thesis
    by (intro tokens_skip scan_step_default best_rule_no_pattern) auto
qed

theorem unknown_characters_are_dropped_witness:
  "tokens_of (at IN_VARIABLE False 1 ''@ }}'') = tokens_of (at IN_VARIABLE False 1 '' }}'')"
  using unknown_characters_are_dropped [of "CHR ''@''" IN_VARIABLE False 1 "'' }}''"]
  by (simp add: unknown_characters_def)

section \<open>String literals\<close>

text \<open>
  What the pattern of a literal allows between its quotes: every quote follows a backslash, and it does
  not matter whether that backslash is escaped itself.
\<close>

fun guarded :: "char \<Rightarrow> bool \<Rightarrow> string \<Rightarrow> bool" where
  "guarded q b [] = True"
| "guarded q b (c # s) = ((c = q \<longrightarrow> b) \<and> guarded q (c = backslash) s)"

lemma guarded_weaken: "guarded q False s \<Longrightarrow> guarded q b s"
  by (cases s) auto

lemma guarded_append:
  "guarded q b (s @ t) \<longleftrightarrow> guarded q b s \<and> guarded q (if s = [] then b else last s = backslash) t"
  by (induction s arbitrary: b) auto

abbreviation literal_body :: "char \<Rightarrow> regex" where
  "literal_body q \<equiv> Star (Alt (Except [q]) (Alt (Word [backslash, q]) (Word [backslash, backslash])))"

lemma matches_literal_body:
  assumes "q \<noteq> backslash"
  shows "matches (literal_body q) s \<longleftrightarrow> guarded q False s"
proof
  have "matches p s \<Longrightarrow> p = literal_body q \<Longrightarrow> guarded q False s" for p
    by (induction p s rule: matches.induct) (use assms in \<open>auto intro: guarded_weaken\<close>)
  then show "matches (literal_body q) s \<Longrightarrow> guarded q False s" by blast
next
  show "guarded q False s \<Longrightarrow> matches (literal_body q) s"
  proof (induction "length s" arbitrary: s rule: less_induct)
    case less
    show ?case
    proof (cases s)
      case Nil
      then show ?thesis by (simp add: matches_stop)
    next
      case (Cons c t)
      then have c: "c \<noteq> q" and t: "guarded q (c = backslash) t" using less.prems by auto
      show ?thesis
      proof (cases "c = backslash \<and> t \<noteq> [] \<and> hd t = q")
        case True
        then obtain u where u: "t = q # u" by (cases t) auto
        with t assms less.hyps [of u] Cons have "matches (literal_body q) u" by simp
        with True u Cons show ?thesis
          using matches_more [of _ "[backslash, q]" u] by simp
      next
        case False
        with t have "guarded q False t" by (cases t) auto
        with less.hyps [of t] Cons c show ?thesis
          using matches_more [of _ "[c]" t] by simp
      qed
    qed
  qed
qed

lemma matches_quoted:
  assumes "q \<noteq> backslash"
  shows "matches (quoted q) w \<longleftrightarrow> (\<exists>u. w = q # u @ [q] \<and> guarded q False u)"
  by (auto simp: quoted_def matches_Seq matches_literal_body [OF assms])

text \<open>A literal ends at the first quote that follows no backslash.\<close>

lemma longest_quoted:
  assumes "q \<noteq> backslash" and "guarded q False u" and "u \<noteq> [] \<longrightarrow> last u \<noteq> backslash"
  shows "longest_match (quoted q) (q # u @ q # rest) = Some (length u + 2)"
  unfolding longest_match_Some is_longest_def accepts_def matches_quoted [OF assms(1)]
proof (intro conjI allI impI notI)
  show "\<exists>v. take (length u + 2) (q # u @ q # rest) = q # v @ [q] \<and> guarded q False v"
    using assms(2) by simp
  fix m
  assume m: "length u + 2 < m"
    and "m \<le> length (q # u @ q # rest) \<and> (\<exists>v. take m (q # u @ q # rest) = q # v @ [q] \<and> guarded q False v)"
  then obtain v where v: "take m (q # u @ q # rest) = q # v @ [q]" and ok: "guarded q False v" by blast
  have "u @ q # rest = v @ q # drop m (q # u @ q # rest)"
    using append_take_drop_id [of m "q # u @ q # rest"] v by simp
  then obtain z where z: "u @ q # rest = v @ q # z" by metis
  have "length u < length v"
    using m \<open>m \<le> _ \<and> _\<close> arg_cong [OF v, of length] by simp
  with z obtain x where "v = u @ x" "x \<noteq> []" "q # rest = x @ q # z"
    by (auto simp: append_eq_append_conv2)
  then obtain y where "v = u @ q # y" by (cases x) auto
  with ok assms(1,3) show False by (auto simp: guarded_append split: if_splits)
qed simp_all

abbreviation literal_rule :: "char \<Rightarrow> rule" where
  "literal_rule q \<equiv> on (quoted q) (\<lambda>yytext. return_token (T_STRING_LITERAL (process_string_literal yytext)))"

lemma literal_rules:
  assumes "q = dquote \<or> q = squote" and "in_block cond"
  shows "filter (\<lambda>r. derivative q (whole_pattern r) \<noteq> Void) (rules_of cond) = [literal_rule q]"
  using assms
  by (elim disjE; simp add: variable_rules_def block_rules_def expression_rules_def whole_pattern_def
      in_order_def either_of_def STRING_LITERAL_def STRING_LITERAL_SQ_def quoted_def INTEGER_def
      DOUBLE_def IDENTIFIER_def)

lemma literal_step:
  assumes "q = dquote \<or> q = squote" "in_block cond" "guarded q False u" "u \<noteq> [] \<longrightarrow> last u \<noteq> backslash" "nul_free u"
  shows "scan_step (at cond flag line (q # u @ q # rest)) =
    Inr (Some (T_STRING_LITERAL (unescape u)), at cond flag (line + newlines u) rest)"
proof -
  have "q \<noteq> backslash" "q \<noteq> newline" using assms(1) by auto
  with longest_quoted [of q u rest] assms(3,4)
  have "match_length (literal_rule q) (q # u @ q # rest) = Some (length u + 2)"
    by (simp add: match_length_def whole_pattern_def)
  then have "best_rule (rules_of cond) (q # u @ q # rest) = Some (length u + 2, literal_rule q)"
    using best_rule_relevant [of "rules_of cond" q "u @ q # rest"] literal_rules [OF assms(1,2)] by simp
  with \<open>q \<noteq> newline\<close> process_literal_eq [OF assms(5), of q] show ?thesis
    by (simp add: scan_step_match return_token_def)
qed

text \<open>A text as it is written between quotes.\<close>

definition escaped :: "char \<Rightarrow> string \<Rightarrow> string" where
  "escaped q s = concat (map (\<lambda>c. if c = backslash \<or> c = q then [backslash, c] else [c]) s)"

lemma escaped_simps [simp]:
  "escaped q [] = []"
  "escaped q (c # s) = (if c = backslash \<or> c = q then [backslash, c] else [c]) @ escaped q s"
  by (simp_all add: escaped_def)

lemma quote_literal_escaped: "quote_literal q s = q # escaped q s @ [q]"
  by (simp add: quote_literal_def escaped_def)

lemma guarded_escaped: "q \<noteq> backslash \<Longrightarrow> guarded q b (escaped q s)"
  by (induction s arbitrary: b) auto

lemma escaped_Nil [simp]: "escaped q s = [] \<longleftrightarrow> s = []"
  by (cases s) auto

lemma last_escaped: "s \<noteq> [] \<Longrightarrow> last (escaped q s) = last s"
  by (induction s) auto

lemma nul_free_escaped: "nul_free s \<Longrightarrow> q \<noteq> nul \<Longrightarrow> nul_free (escaped q s)"
  by (induction s) (auto simp: nul_free_def)

lemma unescape_escaped: "unescape (escaped q s @ t) = s @ unescape t"
proof (induction s)
  case (Cons c s)
  then show ?case
    using unescape_plain [of c "escaped q s @ t"] by (cases "c = backslash \<or> c = q") auto
qed simp

lemma quoted_text_step:
  assumes "q = dquote \<or> q = squote" "in_block cond" "nul_free s" "s \<noteq> [] \<longrightarrow> last s \<noteq> backslash"
  shows "\<exists>line'. scan_step (at cond flag line (quote_literal q s @ rest)) =
    Inr (Some (T_STRING_LITERAL s), at cond flag line' rest)"
proof -
  have q: "q \<noteq> backslash" "q \<noteq> nul" using assms(1) by auto
  from literal_step [OF assms(1,2) guarded_escaped [OF q(1)], of s flag line rest]
  show ?thesis
    using assms(3,4) nul_free_escaped [OF assms(3) q(2)] unescape_escaped [of q s "[]"]
    by (auto simp: quote_literal_escaped last_escaped)
qed

text \<open>
  C17: (literals that run on) The closing quote of a literal whose text ends in a backslash is taken for
  an escaped quote, if another quote follows: the token swallows everything up to that quote.
\<close>

theorem literal_ending_in_backslash_runs_on:
  assumes "q = dquote \<or> q = squote" and "in_block cond" and "nul_free (s @ mid)"
    and "s \<noteq> []" and "last s = backslash" and "q \<notin> set mid" and "mid \<noteq> [] \<longrightarrow> last mid \<noteq> backslash"
  shows "scan_step (at cond flag line (quote_literal q s @ mid @ q # rest)) =
    Inr (Some (T_STRING_LITERAL (s @ q # unescape mid)), at cond flag (line + newlines s + newlines mid) rest)"
proof -
  let ?u = "escaped q s @ q # mid"
  have q: "q \<noteq> backslash" "q \<noteq> nul" "q \<noteq> newline" using assms(1) by auto
  have "guarded q b mid" for b
    using assms(6) by (induction mid arbitrary: b) auto
  then have "guarded q False ?u"
    using assms(4,5) guarded_escaped [OF q(1)] by (simp add: guarded_append last_escaped)
  moreover have "nul_free ?u"
    using assms(3) q(2) nul_free_escaped [of s q] by (auto simp: nul_free_def)
  moreover have "unescape ?u = s @ q # unescape mid"
    using unescape_plain [OF q(1)] by (simp add: unescape_escaped)
  moreover have "newlines (escaped q s) = newlines s"
    using q(3) by (induction s) auto
  ultimately show ?thesis
    using literal_step [OF assms(1,2), of ?u flag line rest] q(1,3) assms(7)
    by (simp add: quote_literal_escaped)
qed

theorem literal_ending_in_backslash_runs_on_witness:
  "scan_step (at IN_VARIABLE False 1 (quote_literal dquote [backslash] @ '' + '' @ dquote # ''x'' @ [dquote])) =
     Inr (Some (T_STRING_LITERAL ([backslash, dquote] @ '' + '')), at IN_VARIABLE False 1 (''x'' @ [dquote]))"
  using literal_ending_in_backslash_runs_on [of dquote IN_VARIABLE "[backslash]" "'' + ''" False 1 "''x'' @ [dquote]"]
  by (simp add: nul_free_def)

section \<open>Tokens written out\<close>

text \<open>The choice by patterns alone: the length of the match and the index of the rule.\<close>

fun best_index :: "regex list \<Rightarrow> string \<Rightarrow> (nat \<times> nat) option" where
  "best_index [] s = None"
| "best_index (p # ps) s =
     (case longest_match p s of
        None \<Rightarrow> map_option (apsnd Suc) (best_index ps s)
      | Some n \<Rightarrow>
          (case best_index ps s of
             None \<Rightarrow> Some (n, 0)
           | Some (m, i) \<Rightarrow> if n < m then Some (m, Suc i) else Some (n, 0)))"

lemma best_rule_index:
  "best_rule rs s = map_option (apsnd ((!) rs)) (best_index (map whole_pattern rs) s)"
  by (induction rs) (auto simp: match_length_def map_option_case split: option.splits)

text \<open>A pattern that cannot read a space, or cannot begin with the character, does not see what follows the space.\<close>

lemma best_index_separated:
  assumes "list_all (\<lambda>p. derivative c p = Void \<or> \<not> can_read p (CHR '' '')) ps"
  shows "best_index ps (c # w @ CHR '' '' # s) = best_index ps (c # w)"
  using assms
proof (induction ps)
  case (Cons p ps)
  have "longest_match p (c # w @ CHR '' '' # s) = longest_match p (c # w)"
  proof (cases "derivative c p = Void")
    case False
    with Cons.prems have "\<not> can_read p (CHR '' '')" by simp
    then show ?thesis
      using accepts_before_separator [of p "CHR '' ''" "c # w" s] by (intro longest_match_cong) simp
  qed (simp add: longest_match_def)
  with Cons show ?case by (simp split: option.split)
qed simp

lemma best_index_void: "list_all (\<lambda>p. derivative c p = Void) ps \<Longrightarrow> best_index ps (c # s) = None"
  by (induction ps) (auto simp: longest_match_def)

definition token_starts :: string where
  "token_starts = letters @ digits @ ''_=!><&|+-*/%().,''"

lemma separated_patterns:
  "list_all (\<lambda>c. list_all (\<lambda>p. derivative c p = Void \<or> \<not> can_read p (CHR '' '')) (patterns_of IN_VARIABLE)) token_starts"
  by code_simp

text \<open>How a token of an expression is written.\<close>

definition operator_tokens :: "token list" where
  "operator_tokens =
     [T_EQ, T_NEQ, T_GT, T_GE, T_LT, T_LE, T_AND, T_AND, T_AND, T_OR, T_OR, T_OR, T_NOT, T_NOT, T_NOT,
      T_PLUS, T_MINUS, T_MUL, T_DIV, T_MOD, T_OPEN_PAREN, T_CLOSE_PAREN, T_ATTRIBUTE_SEPARATOR, T_COMMA,
      T_ASSIGN, T_BOOLEAN_LITERAL True, T_BOOLEAN_LITERAL True, T_BOOLEAN_LITERAL False, T_BOOLEAN_LITERAL False]"

abbreviation fixed_texts :: "string list" where "fixed_texts \<equiv> symbols @ boolean_words"

fun source_of :: "token \<Rightarrow> string" where
  "source_of (T_STRING_LITERAL s) = quote_literal dquote s"
| "source_of (T_INTEGER_LITERAL l) = string_of_long l"
| "source_of (T_IDENTIFIER s) = s"
| "source_of t = (case map_of (zip operator_tokens fixed_texts) t of Some w \<Rightarrow> w | None \<Rightarrow> [])"

definition is_identifier :: "string \<Rightarrow> bool" where
  "is_identifier s \<longleftrightarrow> longest_match IDENTIFIER s = Some (length s) \<and> s \<notin> set fixed_texts"

fun printable :: "token \<Rightarrow> bool" where
  "printable (T_STRING_LITERAL s) = (nul_free s \<and> (s \<noteq> [] \<longrightarrow> last s \<noteq> backslash))"
| "printable (T_INTEGER_LITERAL l) = (0 \<le> sint l)"
| "printable (T_IDENTIFIER s) = is_identifier s"
| "printable t = (t \<in> set operator_tokens)"

text \<open>The index of the rule of a fixed text; the four patterns of literals stand between the two groups.\<close>

definition fixed_index :: "nat \<Rightarrow> nat" where
  "fixed_index k = (if k < 25 then k + 2 else k + 6)"

lemma fixed_best:
  "list_all (\<lambda>k. best_index (patterns_of IN_VARIABLE) (fixed_texts ! k) = Some (length (fixed_texts ! k), fixed_index k)
      \<and> fixed_texts ! k \<noteq> [] \<and> hd (fixed_texts ! k) \<in> set token_starts) [0..<29]"
  by code_simp

lemma fixed_rules:
  "list_all (\<lambda>k. rules_of IN_VARIABLE ! fixed_index k = word_rule (fixed_texts ! k) (operator_tokens ! k)
      \<and> newlines (fixed_texts ! k) = 0) [0..<29]"
  by (simp add: upt_rec numeral_eq_Suc variable_rules_def expression_rules_def symbols_def boolean_words_def
      operator_tokens_def fixed_index_def)

lemma variable_patterns: "map whole_pattern (rules_of IN_VARIABLE) = patterns_of IN_VARIABLE"
  by (rule patterns_of_rules) simp

declare rules_of.simps [simp del] patterns_of.simps [simp del]

lemma best_rule_separated:
  assumes "c \<in> set token_starts"
  shows "best_rule (rules_of IN_VARIABLE) ((c # w) @ CHR '' '' # s) = best_rule (rules_of IN_VARIABLE) (c # w)"
  using best_index_separated [of c "patterns_of IN_VARIABLE" w s] separated_patterns assms
  unfolding best_rule_index variable_patterns by (simp add: list_all_iff)

lemma fixed_step:
  assumes "k < 29"
  shows "scan_step (at IN_VARIABLE flag line (fixed_texts ! k @ CHR '' '' # s)) =
    Inr (Some (operator_tokens ! k), at IN_VARIABLE flag line (CHR '' '' # s))"
proof -
  let ?w = "fixed_texts ! k"
  have k: "k \<in> set [0..<29]" using assms by simp
  have w: "best_index (patterns_of IN_VARIABLE) ?w = Some (length ?w, fixed_index k)" "?w \<noteq> []" "hd ?w \<in> set token_starts"
    using fixed_best k unfolding list_all_iff by blast+
  have r: "rules_of IN_VARIABLE ! fixed_index k = word_rule ?w (operator_tokens ! k)" "newlines ?w = 0"
    using fixed_rules k unfolding list_all_iff by blast+
  have "best_rule (rules_of IN_VARIABLE) (?w @ CHR '' '' # s) = best_rule (rules_of IN_VARIABLE) ?w"
    using best_rule_separated [of "hd ?w" "tl ?w" s] w(2,3) by simp
  also have "\<dots> = Some (length ?w, word_rule ?w (operator_tokens ! k))"
    using w(1) r(1) unfolding best_rule_index variable_patterns by simp
  finally show ?thesis using r(2) by (simp add: scan_step_match return_token_def)
qed

subsection \<open>Integers\<close>

lemma digits_of_set: "0 \<le> n \<Longrightarrow> digits_of n \<noteq> [] \<and> set (digits_of n) \<subseteq> set digits"
proof (induction n rule: digits_of.induct)
  case (1 n)
  then show ?case
    by (subst digits_of.simps) (use digit_char_cases [of "n mod 10"] digit_char_cases [of n] in
      \<open>auto simp: digit_char_def digits_of.simps [of n]\<close>)
qed

lemma digit_patterns:
  "list_all (\<lambda>c. list_all (\<lambda>p. derivative c p = Void) (take 29 (patterns_of IN_VARIABLE)) \<and> c \<in> set token_starts) digits"
  by code_simp

abbreviation integer_rule :: rule where
  "integer_rule \<equiv> on INTEGER (\<lambda>yytext st. bindE (atol yytext) (\<lambda>l. return_token (T_INTEGER_LITERAL l) st))"

lemma integer_rule_at: "rules_of IN_VARIABLE = take 29 (rules_of IN_VARIABLE) @ integer_rule # drop 30 (rules_of IN_VARIABLE)"
  by (simp add: rules_of.simps variable_rules_def expression_rules_def)

lemma integer_step:
  assumes "0 \<le> sint l"
  shows "scan_step (at IN_VARIABLE flag line (string_of_long l @ CHR '' '' # s)) =
    Inr (Some (T_INTEGER_LITERAL l), at IN_VARIABLE flag line (CHR '' '' # s))"
proof -
  let ?w = "string_of_long l"
  have w: "?w = digits_of (sint l)" using assms by (simp add: string_of_long_def string_of_int_def)
  with digits_of_set [OF assms] have ne: "?w \<noteq> []" and digit: "set ?w \<subseteq> set digits" by auto
  then obtain c u where c: "?w = c # u" "c \<in> set digits" by (cases ?w) auto
  have start: "list_all (\<lambda>p. derivative c p = Void) (take 29 (patterns_of IN_VARIABLE))" "c \<in> set token_starts"
    using digit_patterns c(2) unfolding list_all_iff by blast+
  have pre: "match_length q ?w = None" if "q \<in> set (take 29 (rules_of IN_VARIABLE))" for q
  proof -
    have "whole_pattern q \<in> set (take 29 (patterns_of IN_VARIABLE))"
      using that unfolding variable_patterns [symmetric] take_map by simp
    then show ?thesis using start(1) match_length_Cons unfolding list_all_iff c(1) by blast
  qed
  have n: "match_length integer_rule ?w = Some (length ?w)"
    using longest_plus_among [of ?w digits "[]"] ne digit
    by (simp add: match_length_def whole_pattern_def INTEGER_def del: set_simps list.set)
  have "best_rule (take 29 (rules_of IN_VARIABLE) @ integer_rule # drop 30 (rules_of IN_VARIABLE)) ?w
      = Some (length ?w, integer_rule)"
    by (rule best_rule_intro [OF n]) (use pre match_length_bounds(2) in auto)
  then have "best_rule (rules_of IN_VARIABLE) ?w = Some (length ?w, integer_rule)"
    using integer_rule_at by metis
  then have "best_rule (rules_of IN_VARIABLE) (?w @ CHR '' '' # s) = Some (length ?w, integer_rule)"
    using best_rule_separated [OF start(2), of u s] c(1) by simp
  moreover have "newlines ?w = 0" using digit by (auto simp: newlines_def filter_empty_conv)
  moreover have "atol ?w = Inr l" using assms by (simp add: atol_def w digits_value_digits_of)
  ultimately show ?thesis by (simp add: scan_step_match return_token_def)
qed

subsection \<open>Identifiers\<close>

definition name_starts :: string where "name_starts = letters @ ''_''"

lemma identifier_start: "c \<notin> set name_starts \<Longrightarrow> derivative c IDENTIFIER = Void"
  by (simp add: IDENTIFIER_def name_starts_def in_order_def either_of_def)

lemma name_patterns:
  "list_all (\<lambda>c. list_all (\<lambda>p. derivative c p = Void)
      [Plus (Among [CHR '' '', tabulator]), STRING_LITERAL, STRING_LITERAL_SQ, INTEGER, DOUBLE, Word ''}}'']
      \<and> c \<in> set token_starts) name_starts"
  by code_simp

abbreviation identifier_rule :: rule where
  "identifier_rule \<equiv> on IDENTIFIER (\<lambda>yytext. return_token (T_IDENTIFIER yytext))"

lemma identifier_rule_at: "rules_of IN_VARIABLE = butlast (rules_of IN_VARIABLE) @ identifier_rule # []"
  by (simp add: rules_of.simps variable_rules_def expression_rules_def)

lemma patterns_before_identifier:
  "p \<in> set (butlast (patterns_of IN_VARIABLE)) \<Longrightarrow>
     p \<in> Word ` set fixed_texts \<or>
     p \<in> {Plus (Among [CHR '' '', tabulator]), STRING_LITERAL, STRING_LITERAL_SQ, INTEGER, DOUBLE, Word ''}}''}"
  by (auto simp: patterns_of.simps expression_patterns_def butlast_append)

lemma identifier_newlines: "matches IDENTIFIER s \<Longrightarrow> newlines s = 0"
  using matches_can_read [of IDENTIFIER s newline]
  by (auto simp: newlines_def filter_empty_conv IDENTIFIER_def)

lemma identifier_begins:
  assumes "is_identifier w"
  obtains c u where "w = c # u" "c \<in> set name_starts"
proof -
  from assms have "0 < length w" and matches: "matches IDENTIFIER w"
    by (auto simp: is_identifier_def longest_match_Some is_longest_def accepts_def)
  then obtain c u where c: "w = c # u" by (cases w) auto
  have "derivative c IDENTIFIER \<noteq> Void" using matches matches_derivative [of c IDENTIFIER u] c by auto
  with c identifier_start that show thesis by blast
qed

lemma identifier_step:
  assumes "is_identifier w"
  shows "scan_step (at IN_VARIABLE flag line (w @ CHR '' '' # s)) =
    Inr (Some (T_IDENTIFIER w), at IN_VARIABLE flag line (CHR '' '' # s))"
proof -
  from assms have n: "match_length identifier_rule w = Some (length w)" and fixed: "w \<notin> set fixed_texts"
    by (simp_all add: is_identifier_def match_length_def whole_pattern_def)
  from n have matches: "matches IDENTIFIER w"
    by (auto simp: match_length_Some whole_pattern_def is_longest_def accepts_def)
  obtain c u where c: "w = c # u" and "c \<in> set name_starts" by (rule identifier_begins [OF assms])
  then have start: "list_all (\<lambda>p. derivative c p = Void)
      [Plus (Among [CHR '' '', tabulator]), STRING_LITERAL, STRING_LITERAL_SQ, INTEGER, DOUBLE, Word ''}}'']"
    "c \<in> set token_starts"
    using name_patterns unfolding list_all_iff [of _ name_starts] by blast+
  have pre: "m < length w" if q: "q \<in> set (butlast (rules_of IN_VARIABLE))" and m: "match_length q w = Some m" for q m
  proof -
    have "whole_pattern q \<in> set (butlast (patterns_of IN_VARIABLE))"
      using q unfolding variable_patterns [symmetric] map_butlast [symmetric] by simp
    from patterns_before_identifier [OF this] show ?thesis
    proof
      assume "whole_pattern q \<in> Word ` set fixed_texts"
      then obtain t where "whole_pattern q = Word t" "t \<in> set fixed_texts" by blast
      with m fixed show ?thesis
        by (cases "m = length w") (auto simp: match_length_Some is_longest_def accepts_def)
    next
      assume "whole_pattern q \<in> {Plus (Among [CHR '' '', tabulator]), STRING_LITERAL, STRING_LITERAL_SQ, INTEGER, DOUBLE, Word ''}}''}"
      then have "derivative c (whole_pattern q) = Void" using start(1) by auto
      with m match_length_Cons show ?thesis by (simp add: c)
    qed
  qed
  have "best_rule (butlast (rules_of IN_VARIABLE) @ identifier_rule # []) w = Some (length w, identifier_rule)"
    by (rule best_rule_intro [OF n]) (use pre in auto)
  then have "best_rule (rules_of IN_VARIABLE) w = Some (length w, identifier_rule)"
    using identifier_rule_at by metis
  then have "best_rule (rules_of IN_VARIABLE) (w @ CHR '' '' # s) = Some (length w, identifier_rule)"
    using best_rule_separated [OF start(2), of u s] c by simp
  with identifier_newlines [OF matches] show ?thesis by (simp add: scan_step_match return_token_def)
qed

section \<open>The round trip\<close>

lemma space_step:
  assumes "s \<noteq> []" "hd s \<noteq> CHR '' ''" "hd s \<noteq> tabulator"
  shows "scan_step (at IN_VARIABLE flag line (CHR '' '' # s)) = Inr (None, at IN_VARIABLE flag line s)"
proof -
  have "best_index (Word ''}}'' # Plus (Among [CHR '' '', tabulator]) # expression_patterns) (CHR '' '' # s) = Some (1, 1)"
  proof -
    have "longest_match (Plus (Among [CHR '' '', tabulator])) ([CHR '' ''] @ s) = Some (length [CHR '' ''])"
      by (rule longest_plus_among) (use assms in auto)
    moreover have "list_all (\<lambda>p. derivative (CHR '' '') p = Void) expression_patterns" by code_simp
    then have "best_index expression_patterns (CHR '' '' # s) = None" by (rule best_index_void)
    ultimately show ?thesis by (simp add: longest_match_def)
  qed
  then have "best_rule (rules_of IN_VARIABLE) (CHR '' '' # s) = Some (1, on (Plus (Among [CHR '' '', tabulator])) ignore)"
    unfolding best_rule_index variable_patterns by (simp add: patterns_of.simps rules_of.simps variable_rules_def)
  then show ?thesis by (simp add: scan_step_match ignore_def)
qed

lemma end_step:
  "scan_step (at IN_VARIABLE flag line (''}}'' @ s)) = Inr (Some T_VARIABLE_END, at INITIAL flag line s)"
proof -
  have "best_index (Word ''}}'' # Plus (Among [CHR '' '', tabulator]) # expression_patterns) (CHR ''}'' # CHR ''}'' # s) = Some (2, 0)"
  proof -
    have "list_all (\<lambda>p. derivative (CHR ''}'') p = Void) expression_patterns" by code_simp
    then have "best_index expression_patterns (CHR ''}'' # CHR ''}'' # s) = None" by (rule best_index_void)
    then show ?thesis by (cases s) (simp_all add: longest_match_def in_order_def)
  qed
  then have "best_rule (rules_of IN_VARIABLE) (''}}'' @ s) =
      Some (2, on (Word ''}}'') (\<lambda>_ st. return_token T_VARIABLE_END (BEGIN INITIAL st)))"
    unfolding best_rule_index variable_patterns by (simp add: patterns_of.simps rules_of.simps variable_rules_def)
  then show ?thesis by (simp add: scan_step_match return_token_def BEGIN_def)
qed

lemma operator_source:
  assumes "t \<in> set operator_tokens"
  shows "\<exists>k < 29. source_of t = fixed_texts ! k \<and> operator_tokens ! k = t"
proof -
  have "list_all (\<lambda>t. list_ex (\<lambda>k. source_of t = fixed_texts ! k \<and> operator_tokens ! k = t) [0..<29]) operator_tokens"
    by code_simp
  with assms obtain k where "k \<in> set [0..<29]" "source_of t = fixed_texts ! k \<and> operator_tokens ! k = t"
    unfolding list_all_iff list_ex_iff by blast
  then show ?thesis by auto
qed

lemma printed_step:
  assumes "printable t"
  shows "\<exists>line'. scan_step (at IN_VARIABLE flag line (source_of t @ CHR '' '' # s)) =
    Inr (Some t, at IN_VARIABLE flag line' (CHR '' '' # s))"
proof -
  consider v where "t = T_STRING_LITERAL v" | l where "t = T_INTEGER_LITERAL l" | w where "t = T_IDENTIFIER w"
    | "t \<in> set operator_tokens" using assms by (cases t) auto
  then show ?thesis
  proof cases
    case 1
    then show ?thesis using quoted_text_step [of dquote IN_VARIABLE v flag line "CHR '' '' # s"] assms by simp
  next
    case 2
    then show ?thesis using integer_step [of l flag line s] assms by auto
  next
    case 3
    then show ?thesis using identifier_step [of w flag line s] assms by auto
  next
    case 4
    then show ?thesis using operator_source [OF 4] fixed_step [of _ flag line s] by metis
  qed
qed

lemma token_starts_visible:
  "list_all (\<lambda>c. c \<in> set (dquote # token_starts) \<and> c \<noteq> CHR '' '' \<and> c \<noteq> tabulator)
     (dquote # token_starts @ name_starts @ digits)"
  by code_simp

lemma source_begins:
  assumes "printable t"
  shows "source_of t \<noteq> [] \<and> hd (source_of t) \<noteq> CHR '' '' \<and> hd (source_of t) \<noteq> tabulator"
proof -
  have "\<exists>c u. source_of t = c # u \<and> c \<in> set (dquote # token_starts @ name_starts @ digits)"
  proof (cases "t \<in> set operator_tokens")
    case True
    then obtain k where k: "k < 29" "source_of t = fixed_texts ! k" using operator_source by blast
    then have "k \<in> set [0..<29]" by simp
    then have "fixed_texts ! k \<noteq> []" "hd (fixed_texts ! k) \<in> set token_starts"
      using fixed_best unfolding list_all_iff by blast+
    with k(2) have "source_of t = hd (source_of t) # tl (source_of t)" "hd (source_of t) \<in> set token_starts"
      by simp_all
    then show ?thesis unfolding set_append set_simps(2) by blast
  next
    case False
    then consider v where "t = T_STRING_LITERAL v" | l where "t = T_INTEGER_LITERAL l" "0 \<le> sint l"
      | w where "t = T_IDENTIFIER w" "is_identifier w" using assms by (cases t) auto
    then show ?thesis
    proof cases
      case 1
      then show ?thesis by (simp add: quote_literal_def)
    next
      case 2
      with digits_of_set [of "sint l"] have "string_of_long l \<noteq> []" "set (string_of_long l) \<subseteq> set digits"
        by (simp_all add: string_of_long_def string_of_int_def)
      then show ?thesis using 2 by (cases "string_of_long l") auto
    next
      case 3
      then show ?thesis using identifier_begins [of w] by (metis Un_iff set_append source_of.simps(3) list.set_intros(2))
    qed
  qed
  then show ?thesis using token_starts_visible unfolding list_all_iff by (metis list.distinct(1) list.sel(1))
qed

definition printed :: "token list \<Rightarrow> string" where
  "printed ts = concat (map (\<lambda>t. source_of t @ '' '') ts)"

text \<open>
  C8: (round trip of tokens) Tokens of these kinds, written out with a space after each in a variable
  block, are scanned back: symbols, booleans, names that are not reserved, integers that are not negative, and string
  literals without NUL bytes whose text does not end in a backslash.  Double literals are left out, and
  literals that end in a backslash run on.
\<close>

theorem printed_tokens_are_scanned_back:
  assumes "\<forall>t \<in> set ts. printable t"
  shows "\<exists>us line'. tokens_of (at IN_VARIABLE flag line (printed ts @ ''}}'' @ rest)) =
      then_tokens us (at INITIAL flag line' rest) \<and> map fst us = ts @ [T_VARIABLE_END]"
  using assms
proof (induction ts arbitrary: line)
  case Nil
  show ?case
    using tokens_take [OF end_step [of flag line rest]]
    by (intro exI [of _ "[(T_VARIABLE_END, line)]"] exI [of _ line]) (simp add: printed_def)
next
  case (Cons t ts)
  let ?rest = "printed ts @ ''}}'' @ rest"
  from Cons.prems have t: "printable t" by simp
  obtain line1 where "scan_step (at IN_VARIABLE flag line (source_of t @ CHR '' '' # ?rest)) =
      Inr (Some t, at IN_VARIABLE flag line1 (CHR '' '' # ?rest))"
    using printed_step [OF t] by blast
  then have "tokens_of (at IN_VARIABLE flag line (source_of t @ CHR '' '' # ?rest)) =
      then_tokens [(t, line1)] (at IN_VARIABLE flag line1 (CHR '' '' # ?rest))"
    using tokens_take by fastforce
  moreover have "?rest \<noteq> [] \<and> hd ?rest \<noteq> CHR '' '' \<and> hd ?rest \<noteq> tabulator"
  proof (cases ts)
    case (Cons u us)
    with Cons.prems source_begins [of u] show ?thesis by (simp add: printed_def)
  qed (simp add: printed_def)
  then have "tokens_of (at IN_VARIABLE flag line1 (CHR '' '' # ?rest)) = tokens_of (at IN_VARIABLE flag line1 ?rest)"
    by (intro tokens_skip space_step) auto
  moreover obtain us line' where "tokens_of (at IN_VARIABLE flag line1 ?rest) = then_tokens us (at INITIAL flag line' rest)"
    "map fst us = ts @ [T_VARIABLE_END]"
    using Cons.IH [of line1] Cons.prems by auto
  ultimately show ?case
    using then_tokens_then [of _ us _ "[(t, line1)]"]
    by (intro exI [of _ "(t, line1) # us"] exI [of _ line']) (simp add: printed_def)
qed

theorem printed_tokens_are_scanned_back_witness:
  "\<exists>us line'. tokens_of (at IN_VARIABLE False 1
      (printed [T_IDENTIFIER ''n'', T_GE, T_INTEGER_LITERAL 10, T_OR, T_STRING_LITERAL [dquote]] @ ''}}'' @ ''x'')) =
      then_tokens us (at INITIAL False line' ''x'') \<and>
    map fst us = [T_IDENTIFIER ''n'', T_GE, T_INTEGER_LITERAL 10, T_OR, T_STRING_LITERAL [dquote], T_VARIABLE_END]"
proof -
  have "is_identifier ''n''" by code_simp
  then show ?thesis
    using printed_tokens_are_scanned_back
      [of "[T_IDENTIFIER ''n'', T_GE, T_INTEGER_LITERAL 10, T_OR, T_STRING_LITERAL [dquote]]" False 1 "''x''"]
    by (simp add: operator_tokens_def nul_free_def)
qed

section \<open>Blanks that are lost\<close>

text \<open>A file without braces: its text comes out, unless the flag was set before.\<close>

lemma file_of_plain_text:
  assumes "CHR ''{'' \<notin> set s" and "nul_free s"
  shows "\<exists>ts. scan_file flag s = Inr (ts, flag \<and> list_all blank s) \<and>
    concat (map (raw_of \<circ> fst) ts) = (if flag then strip_left s else s)"
proof -
  have "\<exists>ts. tokens_of (at INITIAL flag 1 (s @ [])) = then_tokens ts (at INITIAL (flag \<and> list_all blank s) (1 + newlines s) [])
      \<and> concat (map (raw_of \<circ> fst) ts) = kept_text flag s []"
    using plain_text [OF assms, of "[]" flag 1] by blast
  then show ?thesis
    by (auto simp: scan_file_def new_scanner_def then_tokens_def tokens_end kept_text_def)
qed

text \<open>A lone brace is raw text and leaves the flag as it is.\<close>

lemma lone_brace_keeps_flag:
  assumes "s = [] \<or> hd s \<notin> set ''{%-#''"
  shows "scan_step (at INITIAL flag line (CHR ''{'' # s)) = Inr (Some (T_RAW ''{''), at INITIAL flag line s)"
proof -
  have "best_rule (rules_of INITIAL) (CHR ''{'' # s) = Some (1, on any_but_newline return_raw)"
    using assms
    by (cases s) (auto simp: rules_of.simps initial_rules_def match_length_def whole_pattern_def
        longest_match_def in_order_def)
  then show ?thesis by (simp add: scan_step_match return_raw_def return_token_def c_string_def)
qed

end
