(* ===== verification/Scanner_Words.thy ===== *)
theory Scanner_Words
  imports Scanner_Laws
begin

text \<open>
  Names and reserved words: what the rules of \<open>lib/parser/syntax.l\<close> make of a name in a variable or a block
  tag, by a table of the words that are tokens of their own.
\<close>

section \<open>Names and reserved words\<close>

definition name_chars :: string where "name_chars = letters @ digits @ ''_''"

text \<open>A name: underscores, a letter, and letters, digits and underscores.\<close>

definition is_name :: "string \<Rightarrow> bool" where
  "is_name w \<longleftrightarrow> (case dropWhile (\<lambda>c. c = CHR ''_'') w of
     [] \<Rightarrow> False | c # u \<Rightarrow> c \<in> set letters \<and> set u \<subseteq> set name_chars)"

text \<open>The words that are tokens of their own, in both kinds of blocks and in block tags only.\<close>

definition shared_words :: "(string \<times> token) list" where
  "shared_words =
     [(''and'', T_AND), (''AND'', T_AND), (''or'', T_OR), (''OR'', T_OR), (''not'', T_NOT), (''NOT'', T_NOT),
      (''true'', T_BOOLEAN_LITERAL True), (''TRUE'', T_BOOLEAN_LITERAL True),
      (''false'', T_BOOLEAN_LITERAL False), (''FALSE'', T_BOOLEAN_LITERAL False)]"

definition tag_words :: "(string \<times> token) list" where
  "tag_words =
     [(''if'', T_KW_IF), (''elseif'', T_KW_ELSEIF), (''else'', T_KW_ELSE), (''endif'', T_KW_ENDIF),
      (''for'', T_KW_FOR), (''in'', T_KW_IN), (''endfor'', T_KW_ENDFOR), (''include'', T_KW_INCLUDE),
      (''with'', T_KW_WITH), (''using'', T_KW_USING)]"

definition reserved :: "start_condition \<Rightarrow> (string \<times> token) list" where
  "reserved cond = (if cond = IN_BLOCK then tag_words @ shared_words else shared_words)"

definition word_token :: "start_condition \<Rightarrow> string \<Rightarrow> token" where
  "word_token cond w = (case map_of (reserved cond) w of Some t \<Rightarrow> t | None \<Rightarrow> T_IDENTIFIER w)"

lemma matches_underscores: "set s \<subseteq> {CHR ''_''} \<Longrightarrow> matches (Star (Word ''_'')) s"
proof (induction s)
  case (Cons c s)
  then show ?case using matches_more [OF matches_word [of "''_''"], of s] by simp
qed (rule matches_stop)

lemma is_name_matches: "is_name w \<Longrightarrow> matches IDENTIFIER w"
proof -
  assume "is_name w"
  then obtain c u where drop: "dropWhile (\<lambda>c. c = CHR ''_'') w = c # u" and c: "c \<in> set letters"
    and u: "set u \<subseteq> set name_chars"
    by (auto simp: is_name_def split: list.splits)
  let ?tail = "Seq (Among letters) (Star (Among (letters @ digits @ ''_'')))"
  have "matches (Seq (Among letters) (Star (Among name_chars))) (c # u)"
    using c u unfolding matches_Seq_first matches_star_among by blast
  note tail = this [unfolded name_chars_def]
  have w: "w = takeWhile (\<lambda>c. c = CHR ''_'') w @ c # u" using drop takeWhile_dropWhile_id [of _ w] by metis
  show ?thesis
  proof (cases "takeWhile (\<lambda>c. c = CHR ''_'') w")
    case Nil
    with w tail show ?thesis unfolding IDENTIFIER_def by (metis append_Nil matches_right)
  next
    case (Cons d v)
    have "set (takeWhile (\<lambda>c. c = CHR ''_'') w) \<subseteq> {CHR ''_''}" by (auto dest: set_takeWhileD)
    with Cons have d: "d = CHR ''_''" "set v \<subseteq> {CHR ''_''}" by auto
    from matches_seq [OF matches_word [of "''_''"] matches_underscores [OF d(2)]] d(1)
    have "matches (Plus (Word ''_'')) (d # v)" by simp
    from matches_seq [OF this tail] w Cons have "matches (Seq (Plus (Word ''_'')) ?tail) w" by simp
    then show ?thesis unfolding IDENTIFIER_def by (intro matches_right matches_left)
  qed
qed

lemma identifier_reads: "can_read IDENTIFIER c \<Longrightarrow> c \<in> set name_chars"
  unfolding IDENTIFIER_def can_read.simps name_chars_def set_append by auto

lemma is_name_chars: "is_name w \<Longrightarrow> w \<noteq> [] \<and> set w \<subseteq> set name_chars"
proof
  show "is_name w \<Longrightarrow> w \<noteq> []" by (auto simp: is_name_def)
  show "is_name w \<Longrightarrow> set w \<subseteq> set name_chars"
    using matches_can_read [OF is_name_matches [of w]] identifier_reads by blast
qed

lemma is_name_start: "is_name w \<Longrightarrow> hd w \<in> set name_starts"
proof -
  assume w: "is_name w"
  then obtain c u where c: "w = c # u" by (cases w) (auto simp: is_name_def)
  then have "matches (derivative c IDENTIFIER) u" using is_name_matches [OF w] by (simp add: matches_derivative)
  with identifier_start c show ?thesis by (cases "c \<in> set name_starts") auto
qed

text \<open>A name with what follows it: nothing, or a character that no name has.\<close>

abbreviation ends_here :: "string \<Rightarrow> bool" where
  "ends_here rest \<equiv> rest = [] \<or> hd rest \<notin> set name_chars"

lemma prefix_of_name:
  assumes "set v \<subseteq> set name_chars" "set w \<subseteq> set name_chars" "ends_here rest"
  shows "prefix v (w @ rest) \<longleftrightarrow> prefix v w"
proof
  assume p: "prefix v (w @ rest)"
  show "prefix v w"
  proof (cases "length v \<le> length w")
    case True
    with p show ?thesis by (auto simp: prefix_def append_eq_append_conv2)
  next
    case False
    with p obtain x y where "v = w @ x" "rest = x @ y" "x \<noteq> []"
      by (auto simp: prefix_def append_eq_append_conv2)
    then have "hd rest \<in> set v" by (cases x) auto
    with assms(1,3) \<open>rest = x @ y\<close> \<open>x \<noteq> []\<close> show ?thesis by auto
  qed
qed (auto simp: prefix_def)

lemma word_before_separator:
  assumes "set v \<subseteq> set name_chars" "d \<notin> set name_chars" "set w \<subseteq> set name_chars" "ends_here rest"
  shows "prefix (v @ d # x) (w @ rest) \<longleftrightarrow> w = v \<and> prefix (d # x) rest"
proof
  assume p: "prefix (v @ d # x) (w @ rest)"
  then have "prefix v (w @ rest)" by (metis append_prefixD)
  then obtain z where z: "w = v @ z" using prefix_of_name [OF assms(1,3,4)] by (auto simp: prefix_def)
  with p have "prefix (d # x) (z @ rest)" by simp
  with z assms(2,3) show "w = v \<and> prefix (d # x) rest" by (cases z) auto
qed auto

lemma match_word: "v \<noteq> [] \<Longrightarrow> match_length (word_rule v t) s = (if prefix v s then Some (length v) else None)"
proof -
  assume v: "v \<noteq> []"
  have "accepts (Word v) s m \<longleftrightarrow> prefix v s \<and> m = length v" for m
    using take_split [of m s v] by (auto simp: accepts_def prefix_length_le)
  with v show ?thesis
    by (auto simp: match_length_def whole_pattern_def longest_match_Some longest_match_None is_longest_def)
qed

lemma match_identifier:
  assumes "is_name w" "ends_here rest"
  shows "match_length identifier_rule (w @ rest) = Some (length w)"
  unfolding match_length_Some is_longest_def accepts_def
proof (intro conjI allI impI notI)
  show "0 < length w" "length w \<le> length (w @ rest)" using is_name_chars [OF assms(1)] by auto
  show "matches (whole_pattern identifier_rule) (take (length w) (w @ rest))"
    using is_name_matches [OF assms(1)] by (simp add: whole_pattern_def)
  fix m
  assume "length w < m" and "m \<le> length (w @ rest) \<and> matches (whole_pattern identifier_rule) (take m (w @ rest))"
  then have m: "length w < m" "rest \<noteq> []" "matches IDENTIFIER (take m (w @ rest))"
    by (auto simp: whole_pattern_def)
  then have "hd rest \<in> set (take m (w @ rest))" by (cases rest; cases "m - length w") auto
  with matches_can_read [OF m(3)] identifier_reads assms(2) m(2) show False by blast
qed

text \<open>The rules from some point on take the name: as one of the words of a table or as an identifier.\<close>

definition takes_name :: "string \<Rightarrow> string \<Rightarrow> rule list \<Rightarrow> (string \<times> token) list \<Rightarrow> bool" where
  "takes_name w rest rs ws \<longleftrightarrow> best_rule rs (w @ rest) =
     Some (length w, case map_of ws w of Some t \<Rightarrow> word_rule w t | None \<Rightarrow> identifier_rule)"

lemma takes_name_identifier:
  "is_name w \<Longrightarrow> ends_here rest \<Longrightarrow> takes_name w rest [identifier_rule] []"
  using match_identifier [of w rest] by (simp add: takes_name_def)

lemma takes_name_skip:
  "match_length r (w @ rest) = None \<Longrightarrow> takes_name w rest rs ws \<Longrightarrow> takes_name w rest (r # rs) ws"
  by (simp add: takes_name_def)

lemma takes_name_word:
  assumes "v \<noteq> []" "set v \<subseteq> set name_chars" "is_name w" "ends_here rest" "takes_name w rest rs ws"
  shows "takes_name w rest (word_rule v t # rs) ((v, t) # ws)"
proof -
  have p: "prefix v (w @ rest) \<longleftrightarrow> prefix v w"
    using prefix_of_name [OF assms(2) _ assms(4)] is_name_chars [OF assms(3)] by blast
  have "length v < length w" if "prefix v w" "v \<noteq> w"
    using that by (auto simp: prefix_def)
  with p assms(1,5) show ?thesis
    by (cases "v = w") (auto simp: takes_name_def match_word)
qed

text \<open>The other rules begin with a character that no name begins with.\<close>

definition other_patterns :: "regex list" where
  "other_patterns =
     [Word ''}}'', Word ''%}'', Word ''%-}'', Plus (Among [CHR '' '', tabulator]), STRING_LITERAL, STRING_LITERAL_SQ,
      INTEGER, DOUBLE] @
     map Word [''=='', ''!='', ''>'', ''>='', ''<'', ''<='', ''&&'', ''||'', ''!'', ''+'', ''-'', ''*'', ''/'', ''%'', ''('', '')'',
      ''.'', '','', ''='']"

lemma other_patterns_begin:
  "list_all (\<lambda>c. list_all (\<lambda>p. derivative c p = Void) other_patterns) name_starts"
  by code_simp

lemma takes_no_name:
  assumes "whole_pattern r \<in> set other_patterns" "is_name w"
  shows "match_length r (w @ rest) = None"
proof -
  obtain c u where c: "w = c # u" using is_name_chars [OF assms(2)] by (cases w) auto
  with is_name_start [OF assms(2)] other_patterns_begin assms(1) have "derivative c (whole_pattern r) = Void"
    unfolding list_all_iff by auto
  with match_length_Cons show ?thesis by (simp add: c)
qed

lemma takes_name_other:
  "whole_pattern r \<in> set other_patterns \<Longrightarrow> is_name w \<Longrightarrow> takes_name w rest rs ws \<Longrightarrow> takes_name w rest (r # rs) ws"
  by (rule takes_name_skip [OF takes_no_name])

lemma table_words:
  "list_all (\<lambda>(v, t). v \<noteq> [] \<and> set v \<subseteq> set name_chars) (tag_words @ shared_words)"
  by code_simp

lemma takes_name_table:
  assumes "(v, t) \<in> set (tag_words @ shared_words)" "is_name w" "ends_here rest" "takes_name w rest rs ws"
  shows "takes_name w rest (word_rule v t # rs) ((v, t) # ws)"
  using takes_name_word [OF _ _ assms(2-4)] table_words assms(1) unfolding list_all_iff by blast

lemma expression_rules_take_name:
  assumes "is_name w" "ends_here rest"
  shows "takes_name w rest expression_rules shared_words"
  unfolding expression_rules_def shared_words_def
  by ((rule takes_name_identifier [OF assms] |
      (rule takes_name_table, simp add: shared_words_def, rule assms, rule assms) |
      (rule takes_name_other, simp add: other_patterns_def whole_pattern_def, rule assms))+)

lemma variable_rules_take_name:
  assumes "is_name w" "ends_here rest"
  shows "takes_name w rest (rules_of IN_VARIABLE) shared_words"
  unfolding rules_of.simps variable_rules_def append.simps
  by ((rule takes_name_other, simp add: other_patterns_def whole_pattern_def, rule assms)+)
    (rule expression_rules_take_name [OF assms])

text \<open>The one rule of two words: the name before the space is the whole word, and the other word follows.\<close>

abbreviation else_if :: rule where "else_if \<equiv> word_rule ''else if'' T_KW_ELSEIF"

lemma else_if_match:
  assumes "is_name w" "ends_here rest"
  shows "match_length else_if (w @ rest) = (if w = ''else'' \<and> prefix '' if'' rest then Some 7 else None)"
proof -
  have "prefix (''else'' @ CHR '' '' # ''if'') (w @ rest) \<longleftrightarrow> w = ''else'' \<and> prefix (CHR '' '' # ''if'') rest"
    by (rule word_before_separator [OF _ _ _ assms(2)])
      (use is_name_chars [OF assms(1)] in \<open>simp_all add: name_chars_def\<close>)
  then show ?thesis by (simp add: match_word)
qed

definition later_tag_rules :: "rule list" where
  "later_tag_rules =
     [word_rule ''elseif'' T_KW_ELSEIF, word_rule ''else'' T_KW_ELSE, word_rule ''endif'' T_KW_ENDIF,
      word_rule ''for'' T_KW_FOR, word_rule ''in'' T_KW_IN, word_rule ''endfor'' T_KW_ENDFOR,
      word_rule ''include'' T_KW_INCLUDE, word_rule ''with'' T_KW_WITH, word_rule ''using'' T_KW_USING]"

lemma block_rules_split:
  "rules_of IN_BLOCK = take 3 block_rules @ word_rule ''if'' T_KW_IF # else_if # later_tag_rules @ expression_rules"
  by (simp add: rules_of.simps block_rules_def later_tag_rules_def)

lemma later_tag_rules_take_name:
  assumes "is_name w" "ends_here rest"
  shows "takes_name w rest (later_tag_rules @ expression_rules) (tl tag_words @ shared_words)"
  unfolding later_tag_rules_def tag_words_def append.simps list.sel
  by ((rule takes_name_table, simp add: tag_words_def, rule assms, rule assms)+)
    (rule expression_rules_take_name [OF assms])

text \<open>What stands before the tag words in the list does not begin a name.\<close>

lemma block_start_rules:
  assumes "is_name w"
  shows "best_rule (take 3 block_rules @ rs) (w @ rest) = best_rule rs (w @ rest)"
proof -
  have "best_rule (r # rs) (w @ rest) = best_rule rs (w @ rest)" if "whole_pattern r \<in> set other_patterns" for r rs
    using takes_no_name [OF that assms] by simp
  then show ?thesis by (simp add: block_rules_def other_patterns_def whole_pattern_def del: best_rule.simps)
qed

lemma block_rules_take_name:
  assumes "is_name w" "ends_here rest" "\<not> (w = ''else'' \<and> prefix '' if'' rest)"
  shows "takes_name w rest (rules_of IN_BLOCK) (tag_words @ shared_words)"
proof -
  have "match_length else_if (w @ rest) = None" using else_if_match [OF assms(1,2)] assms(3) by simp
  then have "takes_name w rest (else_if # later_tag_rules @ expression_rules) (tl tag_words @ shared_words)"
    by (rule takes_name_skip) (rule later_tag_rules_take_name [OF assms(1,2)])
  then have "takes_name w rest (word_rule ''if'' T_KW_IF # else_if # later_tag_rules @ expression_rules)
      ((''if'', T_KW_IF) # tl tag_words @ shared_words)"
    by (intro takes_name_table assms) (simp_all add: tag_words_def)
  then show ?thesis
    unfolding takes_name_def block_rules_split block_start_rules [OF assms(1)] by (simp add: tag_words_def)
qed

lemma block_rules_take_else_if:
  assumes "prefix '' if'' rest"
  shows "best_rule (rules_of IN_BLOCK) (''else'' @ rest) = Some (7, else_if)"
proof -
  have name: "is_name ''else''" "ends_here rest"
    using assms by (auto simp: is_name_def name_chars_def prefix_def)
  from later_tag_rules_take_name [OF name]
  obtain q where "best_rule (later_tag_rules @ expression_rules) (''else'' @ rest) = Some (4, q)"
    by (auto simp: takes_name_def)
  moreover have "match_length else_if (''else'' @ rest) = Some 7" using else_if_match [OF name] assms by simp
  ultimately have "best_rule (else_if # later_tag_rules @ expression_rules) (''else'' @ rest) = Some (7, else_if)"
    by simp
  moreover have "match_length (word_rule ''if'' T_KW_IF) (''else'' @ rest) = None" by (simp add: match_word)
  ultimately show ?thesis
    unfolding block_rules_split block_start_rules [OF name(1)] by simp
qed

lemma rules_take_name:
  assumes "in_block cond" "is_name w" "ends_here rest" "\<not> (cond = IN_BLOCK \<and> w = ''else'' \<and> prefix '' if'' rest)"
  shows "takes_name w rest (rules_of cond) (reserved cond)"
  using assms(1)
proof
  assume "cond = IN_VARIABLE"
  with variable_rules_take_name [OF assms(2,3)] show ?thesis by (simp add: reserved_def)
next
  assume "cond = IN_BLOCK"
  with block_rules_take_name [OF assms(2,3)] assms(4) show ?thesis by (simp add: reserved_def)
qed

lemma name_newlines: "is_name w \<Longrightarrow> newlines w = 0"
  using identifier_newlines is_name_matches by blast

text \<open>
  C10: (names and reserved words) In a variable or a block tag the scanner reads a name as a whole, up to
  the first character that no name has.  It is the token of a reserved word only if the whole name is the
  word, in a block tag also one of the words of statements, and an identifier otherwise: \<open>index\<close> does not begin
  with \<open>in\<close>, and \<open>for\<close> is a variable in a variable tag.  The one exception is \<open>else\<close> in a block tag before
  a space and the letters \<open>if\<close>, which is one token with them, also if the letters begin a longer name.
\<close>

theorem names_are_read_as_a_whole:
  assumes "in_block cond" and "is_name w" and "ends_here rest"
  shows "scan_step (at cond flag line (w @ rest)) =
    (if cond = IN_BLOCK \<and> w = ''else'' \<and> prefix '' if'' rest
     then Inr (Some T_KW_ELSEIF, at cond flag line (drop 3 rest))
     else Inr (Some (word_token cond w), at cond flag line rest))"
proof (cases "cond = IN_BLOCK \<and> w = ''else'' \<and> prefix '' if'' rest")
  case True
  then obtain z where "rest = '' if'' @ z" by (auto simp: prefix_def)
  with True scan_step_match [OF block_rules_take_else_if, of rest flag line] show ?thesis
    by (simp add: return_token_def)
next
  case False
  from rules_take_name [OF assms False]
  have "best_rule (rules_of cond) (w @ rest) =
      Some (length w, case map_of (reserved cond) w of Some t \<Rightarrow> word_rule w t | None \<Rightarrow> identifier_rule)"
    by (simp add: takes_name_def)
  from scan_step_match [OF this] False show ?thesis
    by (auto simp: word_token_def return_token_def name_newlines [OF assms(2)] split: option.split)
qed

theorem names_are_read_as_a_whole_witness:
  "scan_step (at IN_BLOCK False 1 ''endif2 %}'') = Inr (Some (T_IDENTIFIER ''endif2''), at IN_BLOCK False 1 '' %}'') \<and>
   scan_step (at IN_BLOCK False 1 ''in x'') = Inr (Some T_KW_IN, at IN_BLOCK False 1 '' x'') \<and>
   scan_step (at IN_VARIABLE False 1 ''in x'') = Inr (Some (T_IDENTIFIER ''in''), at IN_VARIABLE False 1 '' x'') \<and>
   scan_step (at IN_BLOCK False 1 ''else iffy'') = Inr (Some T_KW_ELSEIF, at IN_BLOCK False 1 ''fy'')"
  using names_are_read_as_a_whole [of IN_BLOCK "''endif2''" "'' %}''" False 1]
    names_are_read_as_a_whole [of IN_BLOCK "''in''" "'' x''" False 1]
    names_are_read_as_a_whole [of IN_VARIABLE "''in''" "'' x''" False 1]
    names_are_read_as_a_whole [of IN_BLOCK "''else''" "'' iffy''" False 1]
  by (simp add: is_name_def name_chars_def word_token_def reserved_def tag_words_def shared_words_def)

end
