(* ===== verification/Spec2Isabelle.thy ===== *)
theory Spec2Isabelle
  imports Driver_Laws Engine_Laws Simple_Runtime Rendering_Laws Scanner_Words
begin

text \<open>
  A model of the b2 template compiler, and what holds of it.

  \<^bold>\<open>The program.\<close>  b2 reads a template, builds a tree of statements and expressions from it, rewrites
  the tree by passes, and generates code from it.  The library \<open>lib/\<close> has the trees (\<open>ast/\<close>), the
  scanner and the grammar (\<open>parser/\<close>), the passes (\<open>ast/passes/\<close>) and the backends (\<open>backends/\<close>); the
  programs of \<open>src/\<close> put them together: \<open>ast_print\<close> dumps the optimised tree, \<open>js_precompiler\<close> writes
  JavaScript, and the PHP extension \<open>php\<close> compiles a template to a function with LLVM, which calls
  the run-time functions of \<open>php_bindings_functions.c\<close>.

  \<^bold>\<open>Theories and code.\<close>

  \<^item> \<open>B2_Prelude\<close>: outcomes (a result, an exception, undefined behaviour, no return), \<open>long\<close> as a 64-bit
    word, decimal numbers, C strings and \<open>memcpy\<close>.  \<open>Doubles\<close>: \<open>double\<close> as binary64 on integers.
  \<^item> \<open>Expressions\<close>, \<open>Templates\<close>: \<open>ast/expressions.hpp\<close> and \<open>ast/ast.hpp\<close>, one constructor per class.
  \<^item> \<open>Patterns\<close>, \<open>Scanner_Literals\<close>, \<open>Scanner\<close>: \<open>parser/syntax.l\<close>.  The record \<open>scanner\<close> has the start
    condition, the static flag \<open>eat_whitespace\<close>, the line number and the unread text; \<open>scan_step\<close> is one
    match with its action, \<open>yylex\<close> one token, \<open>tokens_of\<close> the tokens of a file.
  \<^item> \<open>Syntax_Actions\<close>: the semantic actions of \<open>parser/syntax.y\<close> over the derivation trees of the
    grammar, and \<open>parser/parser.cpp\<close>.
  \<^item> \<open>Pass_Walk\<close>: the walkers of \<open>passes/pass.hpp\<close>, open recursive over the overloads of a pass.
    \<open>Fold_Pass\<close>, \<open>Raw_Passes\<close>, \<open>Pass_Manager\<close>, \<open>Resolve_Includes\<close>: the passes and their manager.
  \<^item> \<open>Escaping\<close>, \<open>Print_Visitor\<close>: the tree dump of \<open>utils/print_visitor\<close>; \<open>Js_Visitor\<close>: the JavaScript
    backend with its code emitter.
  \<^item> \<open>Llvm_Builder\<close>: the requests that the LLVM visitor makes of the library; \<open>Llvm_Visitor\<close>: the
    visitor over a record of bindings; \<open>Php_Bindings\<close>: \<open>src/php/php_bindings.cpp\<close>, the bindings of PHP.
  \<^item> \<open>Php_Runtime\<close>: \<open>php_bindings_functions.c\<close> over a record of the functions of Zend; \<open>Php_Engine\<close>:
    the classes of \<open>php_b2.cpp\<close> and the cache of \<open>llvm_backend.cpp\<close>; \<open>Simple_Runtime\<close>: the run-time
    functions of \<open>src/simple\<close>.
  \<^item> \<open>Drivers\<close>: \<open>ast_print/print.cpp\<close> and \<open>js_precompiler/compiler.cpp\<close> from the options to the exit
    status.
  \<^item> \<open>Rendering\<close>: what a template means, as the specification for the passes and the PHP backend.
  \<^item> \<open>Machine\<close>: what the requested instructions do, on registers, memory cells and the printed text.  It
    is the specification of LLVM and of the C functions that the correctness of the generated code
    rests on: PHP values are values (what the functions do with them is the record \<open>php_values\<close>), a loop is
    the list of its keys and values.  What native operators mean is written there without the instructions
    that the visitor picks for them, so a wrong instruction is a wrong result.

  \<^bold>\<open>How state and operations correspond.\<close>  A method that changes the state of its object takes the
  state and returns it; a method that throws, or whose behaviour can be undefined, returns an outcome.
  Trees are values: ownership is modelled only where it goes wrong (a tree that is deleted twice, a
  null pointer that is dereferenced).  Owning pointers that the code tests are options.  Iterators
  over lists are recursion over the list with what is before the iterator.

  \<^bold>\<open>What is shown.\<close>

  \<^item> Scanner: plain text, comments and the tokens of an expression come out as they should, names and
    reserved words are told apart; the literals and the blanks that are lost
    (\<open>Scanner_Laws\<close>, \<open>Scanner_Words\<close>, \<open>Scanner_Literals\<close>).
  \<^item> Parser: the trees it builds are well formed and typed, elseif chains, its errors, and the casts of
    the loop actions, which are wrong for attribute expressions (\<open>Parser_Laws\<close>, \<open>Statement_Laws\<close>).
  \<^item> Passes: folding is one traversal, exact on integers, commutes with the replacement of variables,
    and fails exactly with the first failure of its expression (\<open>Fold_Laws\<close>); joined raw text fills its buffer and leaves no neighbours
    (\<open>Raw_Laws\<close>); resolved trees are flat, free of inclusions and read only what they are given
    (\<open>Include_Laws\<close>); all passes together keep the text of the template (\<open>Rendering_Laws\<close>).
  \<^item> Backends: the dump is that of a list of lines, the JavaScript visitor restores its state and fails
    only on trees that are described (\<open>Print_Visitor\<close>, \<open>Escaping\<close>, \<open>Js_Laws\<close>); generated functions are
    well formed (\<open>Basic_Blocks\<close>, \<open>Llvm_Laws\<close>, \<open>Php_Laws\<close>), typed (\<open>Php_Types\<close>) and give back the
    references they take (\<open>Php_References\<close>); when they run, they print the text that the template means:
    where a piece of code lies (\<open>Code_Shape\<close>), how it runs (\<open>Code_Runs\<close>), the operations of the bindings
    (\<open>Binding_Runs\<close>, \<open>Operator_Runs\<close>), expressions (\<open>Expression_Runs\<close>), loops and statements
    (\<open>Loop_Runs\<close>, \<open>Program_Runs\<close>); the run-time functions understand the codes they are
    called with and visit every element of a loop (\<open>Runtime_Laws\<close>).
  \<^item> Programs: the optimised tree is in normal form, which exceptions end a program
    (\<open>Driver_Laws\<close>), what the engine keeps and returns (\<open>Engine_Laws\<close>).

  The interfaces are locales: \<open>shape_preserving_pass\<close> and \<open>expr_pass_spec\<close> for the passes that the walkers
  drive, \<open>monotone_pass\<close> for passes with fuel, \<open>variable_rewriting\<close> for the two passes on the variables of
  an included tree, \<open>llvm_contract\<close> for the bindings that the LLVM visitor calls; each is interpreted on
  the code's own passes and bindings.

  \<^bold>\<open>Bounds and fuel.\<close>  Two computations carry fuel because they may not end.  The resolution of
  inclusions counts the depth of inclusions; \<open>resolution_of_ranked_files_returns\<close> gives enough fuel
  when the inclusions of the files are not circular, and no fuel is enough for a circular set.  The
  escape loop of the JavaScript backend counts its steps; it ends exactly on texts without a single
  quote.  The run of a loop over an array takes one pass of fuel per element, and the run of generated
  code one per instruction; that some fuel reaches its return is part of the theorem.  Everything else
  is recursion that ends.

  The indices of the escape loop and of other loops over a string are not bounded by the width of \<open>int\<close>:
  the model is that of texts shorter than 2 GB.

  \<^bold>\<open>Not modelled.\<close>  The state of the engine after a method has thrown: the visitor then keeps loop
  variables and the bindings keep counts of the template that failed, so \<open>engine_reachable\<close> has the scripts
  without an exception only.  The parser that the include pass calls is a function of the file name: what
  scanners share over files, the static flag \<open>eat_whitespace\<close>, is modelled in \<open>scan_file\<close> but not passed
  from one file to the next there.  What flex and bison generate: the matching of flex is modelled as documented, the
  LALR automaton is a parameter that yields a derivation or a syntax error.  The LLVM library with its
  own passes, verifier and code generation; the Zend API and the registration of the extension;
  \<open>getopt_long\<close> and \<open>dirname\<close>, which are parameters.  The destructors, the deleters of
  \<open>lib/utils.hpp\<close> and memory exhaustion.  The class \<open>SimpleBindings\<close>, which the build leaves out and
  which does not have the signatures of the interface it derives from.  \<open>tools/bin2c.c\<close>, which only
  copies bytes to text.
\<close>

end
